theory Spec2Isabelle
  imports Complex_Main "HOL-Library.Word"
begin

section \<open>XML tokens\<close>

text \<open>
  The decoder works on the tokens of Go's \<^verbatim>\<open>encoding/xml\<close>: \<^verbatim>\<open>xml.Name\<close> is a
  namespace and a local name, \<^verbatim>\<open>xml.Attr\<close> a name and a value, and \<^verbatim>\<open>xml.Token\<close> is one of
  \<^verbatim>\<open>StartElement\<close>, \<^verbatim>\<open>EndElement\<close>, \<^verbatim>\<open>CharData\<close>, \<^verbatim>\<open>Comment\<close>, \<^verbatim>\<open>ProcInst\<close> and
  \<^verbatim>\<open>Directive\<close>.
\<close>

datatype xml_Name = Name (Space: string) (Local: string)

datatype xml_Attr = Attr (Attr_Name: xml_Name) (Value: string)

type_synonym xml_StartElement = "xml_Name \<times> xml_Attr list"

datatype xml_Token =
    StartElement xml_Name "xml_Attr list"
  | EndElement xml_Name
  | CharData string
  | Comment string
  | ProcInst string string
  | Directive string

section \<open>Errors and results\<close>

text \<open>
  Every error value the package builds or passes on. \<open>EOF\<close> is \<^verbatim>\<open>io.EOF\<close>,
  \<open>SyntaxError\<close> an error of the XML tokenizer, \<open>NumError\<close> and \<open>TimeParseError\<close> the
  errors of \<^verbatim>\<open>strconv\<close> and \<^verbatim>\<open>time.Parse\<close> for the given input. \<open>ErrInvalidLat\<close> and
  \<open>ErrInvalidLon\<close> are the \<^verbatim>\<open>fmt.Errorf("gpx: invalid <trkpt> lat: %s", err)\<close> values,
  \<open>ErrUnexpectedElement\<close> is \<^verbatim>\<open>"gpx: unexpected element while reading string"\<close>.
  The level-counting revision of the decoder has four more:
  \<open>ErrInvalidEle err\<close> for \<^verbatim>\<open>fmt.Errorf("gpx: invalid <ele>: %s", err)\<close>,
  \<open>ErrInvalidEleElement\<close> for \<^verbatim>\<open>errors.New("gpx: invalid <ele>")\<close>, and the same two for
  \<^verbatim>\<open><time>\<close>.
\<close>

datatype error =
    EOF
  | SyntaxError string
  | ErrBadRootTag
  | ErrGPX11Only
  | ErrUnexpectedElement
  | NumError string
  | TimeParseError string
  | ErrInvalidLat error
  | ErrInvalidLon error
  | ErrInvalidEle error
  | ErrInvalidEleElement
  | ErrInvalidTime error
  | ErrInvalidTimeElement
  | ErrNoSuchExtension

text \<open>
  A Go call either returns (a value and a nil error, or a non-nil error) or panics.
  A panic is not an error value: \<^verbatim>\<open>if err != nil\<close> does not see it.
\<close>

datatype fault = Error error | Panic

datatype 'a result = Ok 'a | Fail fault

section \<open>Token sources\<close>

text \<open>
  The interface \<^verbatim>\<open>tokener\<close> has two implementations. \<open>XMLDecoder ts e\<close> is an
  \<^verbatim>\<open>*xml.Decoder\<close> that still has the tokens \<open>ts\<close> to deliver and returns the error \<open>e\<close>
  (\<^verbatim>\<open>io.EOF\<close> or a syntax error) from then on. \<open>SliceTokener ts\<close> is a
  \<^verbatim>\<open>*sliceTokener\<close>; its slice holds interface values, so an element may be nil (\<open>None\<close>).

  The source mutates the token source in place, so every operation returns the source
  it leaves behind next to its result, also when it fails.
\<close>

datatype tokener =
    XMLDecoder "xml_Token list" error
  | SliceTokener "xml_Token option list"

text \<open>
  \<^verbatim>\<open>sliceTokener.Token\<close> reads \<^verbatim>\<open>t.tokens[0]\<close> before any test: on an empty (or nil)
  slice the index expression panics. A nil element gives \<^verbatim>\<open>io.EOF\<close> and is not consumed.
\<close>

fun Token :: "tokener \<Rightarrow> xml_Token result \<times> tokener" where
  "Token (XMLDecoder [] e) = (Fail (Error e), XMLDecoder [] e)"
| "Token (XMLDecoder (tok # ts) e) = (Ok tok, XMLDecoder ts e)"
| "Token (SliceTokener []) = (Fail Panic, SliceTokener [])"
| "Token (SliceTokener (None # ts)) = (Fail (Error EOF), SliceTokener (None # ts))"
| "Token (SliceTokener (Some tok # ts)) = (Ok tok, SliceTokener ts)"

fun remaining :: "tokener \<Rightarrow> nat" where
  "remaining (XMLDecoder ts e) = length ts"
| "remaining (SliceTokener ts) = length ts"

lemma Token_Ok_remaining:
  "Token ts = (Ok tok, ts') \<Longrightarrow> remaining ts' < remaining ts"
  by (induction ts rule: Token.induct) auto

lemma Token_remaining_le:
  "Token ts = (r, ts') \<Longrightarrow> remaining ts' \<le> remaining ts"
  by (induction ts rule: Token.induct) auto

section \<open>The token stream (tokens.go)\<close>

text \<open>
  The operations of \<^verbatim>\<open>tokenStream\<close>, from the second, longer revision of the file. A loop
  \<^verbatim>\<open>for { tok, err := ts.Token(); ... }\<close> is a recursive function on the token source (and
  on the loop's variables); it terminates because every successful \<^verbatim>\<open>Token\<close> shortens
  the source.
\<close>

function consumeString_loop :: "string \<Rightarrow> tokener \<Rightarrow> string result \<times> tokener" where
  "consumeString_loop s ts =
     (case Token ts of
        (Fail f, ts') \<Rightarrow> (Fail f, ts')
      | (Ok tok, ts') \<Rightarrow>
          (case tok of
             CharData cd \<Rightarrow> consumeString_loop (s @ cd) ts'
           | EndElement n \<Rightarrow> (Ok s, ts')
           | _ \<Rightarrow> (Fail (Error ErrUnexpectedElement), ts')))"
  by pat_completeness auto
termination
  by (relation "measure (\<lambda>(s, ts). remaining ts)") (auto dest: Token_Ok_remaining [OF sym])

declare consumeString_loop.simps [simp del]

definition consumeString :: "tokener \<Rightarrow> string result \<times> tokener" where
  "consumeString ts = consumeString_loop [] ts"

function skipTag_loop :: "nat \<Rightarrow> tokener \<Rightarrow> unit result \<times> tokener" where
  "skipTag_loop lvl ts =
     (case Token ts of
        (Fail f, ts') \<Rightarrow> (Fail f, ts')
      | (Ok tok, ts') \<Rightarrow>
          (case tok of
             StartElement n as \<Rightarrow> skipTag_loop (lvl + 1) ts'
           | EndElement n \<Rightarrow> if lvl = 0 then (Ok (), ts') else skipTag_loop (lvl - 1) ts'
           | _ \<Rightarrow> skipTag_loop lvl ts'))"
  by pat_completeness auto
termination
  by (relation "measure (\<lambda>(lvl, ts). remaining ts)") (auto dest: Token_Ok_remaining [OF sym])

declare skipTag_loop.simps [simp del]

definition skipTag :: "tokener \<Rightarrow> unit result \<times> tokener" where
  "skipTag ts = skipTag_loop 0 ts"

lemma consumeString_loop_remaining:
  "consumeString_loop s ts = (r, ts') \<Longrightarrow> remaining ts' \<le> remaining ts"
proof (induction s ts arbitrary: r ts' rule: consumeString_loop.induct)
  case (1 s ts)
  obtain r1 ts1 where tk: "Token ts = (r1, ts1)" by (cases "Token ts")
  have le: "remaining ts1 \<le> remaining ts" using tk by (rule Token_remaining_le)
  show ?case
  proof (cases r1)
    case (Fail f)
    with tk "1.prems" le show ?thesis
      by (simp add: consumeString_loop.simps [of s ts])
  next
    case (Ok tok)
    show ?thesis
    proof (cases tok)
      case (CharData cd)
      with Ok tk "1.prems" have "consumeString_loop (s @ cd) ts1 = (r, ts')"
        by (simp add: consumeString_loop.simps [of s ts])
      with "1.IH" [OF tk [symmetric] Ok CharData] le show ?thesis by fastforce
    qed (use Ok tk "1.prems" le in \<open>simp_all add: consumeString_loop.simps [of s ts]\<close>)
  qed
qed

lemma consumeString_remaining:
  "consumeString ts = (r, ts') \<Longrightarrow> remaining ts' \<le> remaining ts"
  unfolding consumeString_def by (rule consumeString_loop_remaining)

lemma skipTag_loop_remaining:
  "skipTag_loop lvl ts = (r, ts') \<Longrightarrow> remaining ts' \<le> remaining ts"
proof (induction lvl ts arbitrary: r ts' rule: skipTag_loop.induct)
  case (1 lvl ts)
  obtain r1 ts1 where tk: "Token ts = (r1, ts1)" by (cases "Token ts")
  have le: "remaining ts1 \<le> remaining ts" using tk by (rule Token_remaining_le)
  show ?case
  proof (cases r1)
    case (Fail f)
    with tk "1.prems" le show ?thesis
      by (simp add: skipTag_loop.simps [of lvl ts])
  next
    case (Ok tok)
    note IH = "1.IH" [OF tk [symmetric] Ok]
    from Ok tk "1.prems" le IH show ?thesis
      by (cases tok) (fastforce simp add: skipTag_loop.simps [of lvl ts] split: if_splits)+
  qed
qed

lemma skipTag_remaining:
  "skipTag ts = (r, ts') \<Longrightarrow> remaining ts' \<le> remaining ts"
  unfolding skipTag_def by (rule skipTag_loop_remaining)

section \<open>Standard library functions and the document model\<close>

text \<open>
  The decoder calls \<^verbatim>\<open>strconv.ParseFloat(s, 64)\<close>, \<^verbatim>\<open>time.Parse(time.RFC3339Nano, s)\<close> and
  \<^verbatim>\<open>strconv.Atoi(s)\<close>. They are not part of the package, and \<^verbatim>\<open>float64\<close> and \<^verbatim>\<open>time.Time\<close>
  have no counterpart in HOL, so the functions, the two types (\<open>'f\<close> and \<open>'t\<close>) and the zero
  values of the two types are parameters of the model. Each function returns a value and
  an optional error, as in Go, where the value is defined also when the error is not nil.
\<close>

record ('f, 't) stdlib =
  ParseFloat :: "string \<Rightarrow> 'f \<times> error option"
  time_Parse :: "string \<Rightarrow> 't \<times> error option"
  Atoi :: "string \<Rightarrow> int \<times> error option"
  float0 :: 'f
  time0 :: 't

record 't Metadata =
  Time :: 't

record ('f, 't) Point =
  Latitude :: 'f
  Longitude :: 'f
  Elevation :: 'f
  Time :: 't
  Extensions :: "xml_Token list"

record ('f, 't) Segment =
  Points :: "('f, 't) Point list"

record ('f, 't) Track =
  Segments :: "('f, 't) Segment list"

record ('f, 't) Document =
  Version :: string
  Metadata :: "'t Metadata"
  Tracks :: "('f, 't) Track list"

text \<open>The zero values that Go gives to a declared result variable. A nil slice is \<open>[]\<close>.\<close>

definition Metadata0 :: "('f, 't) stdlib \<Rightarrow> 't Metadata" where
  "Metadata0 L = \<lparr>Metadata.Time = time0 L\<rparr>"

definition Point0 :: "('f, 't) stdlib \<Rightarrow> ('f, 't) Point" where
  "Point0 L = \<lparr>Latitude = float0 L, Longitude = float0 L, Elevation = float0 L,
     Time = time0 L, Extensions = []\<rparr>"

definition Segment0 :: "('f, 't) Segment" where
  "Segment0 = \<lparr>Points = []\<rparr>"

definition Track0 :: "('f, 't) Track" where
  "Track0 = \<lparr>Segments = []\<rparr>"

definition Document0 :: "('f, 't) stdlib \<Rightarrow> ('f, 't) Document" where
  "Document0 L = \<lparr>Version = [], Metadata = Metadata0 L, Tracks = []\<rparr>"

definition nsGPX11 :: string where
  "nsGPX11 = ''http://www.topografix.com/GPX/1/1''"

subsection \<open>consumeTime and consumeFloat (tokens.go)\<close>

definition consumeTime :: "('f, 't) stdlib \<Rightarrow> tokener \<Rightarrow> 't result \<times> tokener" where
  "consumeTime L ts =
     (case consumeString ts of
        (Fail f, ts') \<Rightarrow> (Fail f, ts')
      | (Ok s, ts') \<Rightarrow>
          (case time_Parse L s of
             (t, None) \<Rightarrow> (Ok t, ts')
           | (t, Some err) \<Rightarrow> (Fail (Error err), ts')))"

definition consumeFloat :: "('f, 't) stdlib \<Rightarrow> tokener \<Rightarrow> 'f result \<times> tokener" where
  "consumeFloat L ts =
     (case consumeString ts of
        (Fail f, ts') \<Rightarrow> (Fail f, ts')
      | (Ok s, ts') \<Rightarrow>
          (case ParseFloat L s of
             (v, None) \<Rightarrow> (Ok v, ts')
           | (v, Some err) \<Rightarrow> (Fail (Error err), ts')))"

lemma consumeTime_remaining:
  "consumeTime L ts = (r, ts') \<Longrightarrow> remaining ts' \<le> remaining ts"
  by (auto simp: consumeTime_def split: prod.splits result.splits option.splits
      dest: consumeString_remaining)

lemma consumeFloat_remaining:
  "consumeFloat L ts = (r, ts') \<Longrightarrow> remaining ts' \<le> remaining ts"
  by (auto simp: consumeFloat_def split: prod.splits result.splits option.splits
      dest: consumeString_remaining)

section \<open>The decoder (token-stream revision)\<close>

text \<open>
  The latest revision of the decoder (the second file of \<^verbatim>\<open>src/unnamed/part_000\<close>), which
  reads its tokens through \<^verbatim>\<open>d.ts\<close>, a \<^verbatim>\<open>tokenStream\<close>.
  The receiver \<^verbatim>\<open>d *Decoder\<close> is the pair of the library \<open>L\<close> and the field \<open>Strict\<close>,
  with \<^verbatim>\<open>d.ts\<close> passed and returned explicitly. Each \<^verbatim>\<open>for\<close> loop is a recursive
  function on the loop's variables; \<^verbatim>\<open>xml.CopyToken\<close> is the identity on values.
  Where the source returns a partly filled value next to a non-nil error, the model
  returns the error alone.
\<close>

function consumeExtensions_loop ::
  "nat \<Rightarrow> xml_Token list \<Rightarrow> tokener \<Rightarrow> xml_Token list result \<times> tokener" where
  "consumeExtensions_loop lvl tokens ts =
     (case Token ts of
        (Fail f, ts') \<Rightarrow> (Fail f, ts')
      | (Ok tok, ts') \<Rightarrow>
          (case tok of
             StartElement n as \<Rightarrow> consumeExtensions_loop (lvl + 1) (tokens @ [tok]) ts'
           | EndElement n \<Rightarrow>
               if lvl = 0 then (Ok tokens, ts')
               else consumeExtensions_loop (lvl - 1) (tokens @ [tok]) ts'
           | _ \<Rightarrow> consumeExtensions_loop lvl (tokens @ [tok]) ts'))"
  by pat_completeness auto
termination
  by (relation "measure (\<lambda>(lvl, tokens, ts). remaining ts)")
     (auto dest: Token_Ok_remaining [OF sym])

declare consumeExtensions_loop.simps [simp del]

definition consumeExtensions ::
  "xml_StartElement \<Rightarrow> tokener \<Rightarrow> xml_Token list result \<times> tokener" where
  "consumeExtensions se ts = consumeExtensions_loop 0 [] ts"

lemma consumeExtensions_loop_remaining:
  "consumeExtensions_loop lvl tokens ts = (r, ts') \<Longrightarrow> remaining ts' \<le> remaining ts"
proof (induction lvl tokens ts arbitrary: r ts' rule: consumeExtensions_loop.induct)
  case (1 lvl tokens ts)
  obtain r1 ts1 where tk: "Token ts = (r1, ts1)" by (cases "Token ts")
  have le: "remaining ts1 \<le> remaining ts" using tk by (rule Token_remaining_le)
  show ?case
  proof (cases r1)
    case (Fail f)
    with tk "1.prems" le show ?thesis
      by (simp add: consumeExtensions_loop.simps [of lvl tokens ts])
  next
    case (Ok tok)
    note IH = "1.IH" [OF tk [symmetric] Ok]
    from Ok tk "1.prems" le IH show ?thesis
      by (cases tok)
         (fastforce simp add: consumeExtensions_loop.simps [of lvl tokens ts]
            split: if_splits)+
  qed
qed

lemma consumeExtensions_remaining:
  "consumeExtensions se ts = (r, ts') \<Longrightarrow> remaining ts' \<le> remaining ts"
  unfolding consumeExtensions_def by (rule consumeExtensions_loop_remaining)

subsection \<open>consumePoint\<close>

text \<open>
  The first loop of \<^verbatim>\<open>consumePoint\<close>, over the attributes of the start tag. It is the
  only place of this revision that reads \<^verbatim>\<open>d.Strict\<close>.
\<close>

fun consumePoint_attrs ::
  "('f, 't) stdlib \<Rightarrow> bool \<Rightarrow> xml_Attr list \<Rightarrow> ('f, 't) Point \<Rightarrow> ('f, 't) Point result" where
  "consumePoint_attrs L strict [] point = Ok point"
| "consumePoint_attrs L strict (a # as) point =
     (if Local (Attr_Name a) = ''lat'' then
        (case ParseFloat L (Value a) of
           (lat, None) \<Rightarrow> consumePoint_attrs L strict as (point\<lparr>Latitude := lat\<rparr>)
         | (lat, Some err) \<Rightarrow>
             if strict then Fail (Error (ErrInvalidLat err))
             else consumePoint_attrs L strict as point)
      else if Local (Attr_Name a) = ''lon'' then
        (case ParseFloat L (Value a) of
           (lon, None) \<Rightarrow> consumePoint_attrs L strict as (point\<lparr>Longitude := lon\<rparr>)
         | (lon, Some err) \<Rightarrow>
             if strict then Fail (Error (ErrInvalidLon err))
             else consumePoint_attrs L strict as point)
      else consumePoint_attrs L strict as point)"

function consumePoint_loop ::
  "('f, 't) stdlib \<Rightarrow> ('f, 't) Point \<Rightarrow> tokener \<Rightarrow> ('f, 't) Point result \<times> tokener" where
  "consumePoint_loop L point ts =
     (case Token ts of
        (Fail f, ts1) \<Rightarrow> (Fail f, ts1)
      | (Ok tok, ts1) \<Rightarrow>
          (case tok of
             StartElement n as \<Rightarrow>
               if Local n = ''ele'' then
                 (case consumeFloat L ts1 of
                    (Fail f, ts2) \<Rightarrow> (Fail f, ts2)
                  | (Ok ele, ts2) \<Rightarrow> consumePoint_loop L (point\<lparr>Elevation := ele\<rparr>) ts2)
               else if Local n = ''time'' then
                 (case consumeTime L ts1 of
                    (Fail f, ts2) \<Rightarrow> (Fail f, ts2)
                  | (Ok t, ts2) \<Rightarrow> consumePoint_loop L (point\<lparr>Time := t\<rparr>) ts2)
               else if Local n = ''extensions'' then
                 (case consumeExtensions (n, as) ts1 of
                    (Fail f, ts2) \<Rightarrow> (Fail f, ts2)
                  | (Ok exts, ts2) \<Rightarrow> consumePoint_loop L (point\<lparr>Extensions := exts\<rparr>) ts2)
               else
                 (case skipTag ts1 of
                    (Fail f, ts2) \<Rightarrow> (Fail f, ts2)
                  | (Ok u, ts2) \<Rightarrow> consumePoint_loop L point ts2)
           | EndElement n \<Rightarrow> (Ok point, ts1)
           | _ \<Rightarrow> consumePoint_loop L point ts1))"
  by pat_completeness auto
termination
  by (relation "measure (\<lambda>(L, point, ts). remaining ts)")
     (auto dest!: Token_Ok_remaining [OF sym] consumeFloat_remaining [OF sym]
        consumeTime_remaining [OF sym] consumeExtensions_remaining [OF sym]
        skipTag_remaining [OF sym])

declare consumePoint_loop.simps [simp del]

definition consumePoint ::
  "('f, 't) stdlib \<Rightarrow> bool \<Rightarrow> xml_StartElement \<Rightarrow> tokener
    \<Rightarrow> ('f, 't) Point result \<times> tokener" where
  "consumePoint L strict se ts =
     (case consumePoint_attrs L strict (snd se) (Point0 L) of
        Fail f \<Rightarrow> (Fail f, ts)
      | Ok point \<Rightarrow> consumePoint_loop L point ts)"

lemma consumePoint_loop_remaining:
  "consumePoint_loop L point ts = (r, ts') \<Longrightarrow> remaining ts' \<le> remaining ts"
proof (induction L point ts arbitrary: r ts' rule: consumePoint_loop.induct)
  case (1 L point ts)
  obtain r1 ts1 where tk: "Token ts = (r1, ts1)" by (cases "Token ts")
  have le: "remaining ts1 \<le> remaining ts" using tk by (rule Token_remaining_le)
  show ?case
  proof (cases r1)
    case (Fail f)
    with tk "1.prems" le show ?thesis
      by (simp add: consumePoint_loop.simps [of L point ts])
  next
    case (Ok tok)
    note IH = "1.IH" [OF tk [symmetric] Ok]
    show ?thesis
    proof (cases tok)
      case (StartElement n as)
      note eq = "1.prems" [unfolded consumePoint_loop.simps [of L point ts] tk Ok StartElement]
      consider (ele) "Local n = ''ele''"
        | (time) "Local n \<noteq> ''ele''" "Local n = ''time''"
        | (ext) "Local n \<noteq> ''ele''" "Local n \<noteq> ''time''" "Local n = ''extensions''"
        | (other) "Local n \<noteq> ''ele''" "Local n \<noteq> ''time''" "Local n \<noteq> ''extensions''"
        by blast
      then show ?thesis
      proof cases
        case ele
        obtain r2 ts2 where c: "consumeFloat L ts1 = (r2, ts2)" by (cases "consumeFloat L ts1")
        have le2: "remaining ts2 \<le> remaining ts1" using c by (rule consumeFloat_remaining)
        from eq ele c le le2 IH(1) [OF StartElement ele c [symmetric]] show ?thesis
          by (cases r2) fastforce+
      next
        case time
        obtain r2 ts2 where c: "consumeTime L ts1 = (r2, ts2)" by (cases "consumeTime L ts1")
        have le2: "remaining ts2 \<le> remaining ts1" using c by (rule consumeTime_remaining)
        from eq time c le le2 IH(2) [OF StartElement time c [symmetric]] show ?thesis
          by (cases r2) fastforce+
      next
        case ext
        obtain r2 ts2 where c: "consumeExtensions (n, as) ts1 = (r2, ts2)"
          by (cases "consumeExtensions (n, as) ts1")
        have le2: "remaining ts2 \<le> remaining ts1" using c by (rule consumeExtensions_remaining)
        from eq ext c le le2 IH(3) [OF StartElement ext c [symmetric]] show ?thesis
          by (cases r2) fastforce+
      next
        case other
        obtain r2 ts2 where c: "skipTag ts1 = (r2, ts2)" by (cases "skipTag ts1")
        have le2: "remaining ts2 \<le> remaining ts1" using c by (rule skipTag_remaining)
        from eq other c le le2 IH(4) [OF StartElement other c [symmetric]] show ?thesis
          by (cases r2) fastforce+
      qed
    qed (use Ok tk "1.prems" le IH in
          \<open>fastforce simp add: consumePoint_loop.simps [of L point ts]\<close>)+
  qed
qed

lemma consumePoint_remaining:
  "consumePoint L strict se ts = (r, ts') \<Longrightarrow> remaining ts' \<le> remaining ts"
  by (auto simp: consumePoint_def split: result.splits dest: consumePoint_loop_remaining)

subsection \<open>consumeSegment, consumeTrack, consumeMetadata\<close>

function consumeSegment_loop ::
  "('f, 't) stdlib \<Rightarrow> bool \<Rightarrow> ('f, 't) Segment \<Rightarrow> tokener
    \<Rightarrow> ('f, 't) Segment result \<times> tokener" where
  "consumeSegment_loop L strict seg ts =
     (case Token ts of
        (Fail f, ts1) \<Rightarrow> (Fail f, ts1)
      | (Ok tok, ts1) \<Rightarrow>
          (case tok of
             StartElement n as \<Rightarrow>
               if Local n = ''trkpt'' then
                 (case consumePoint L strict (n, as) ts1 of
                    (Fail f, ts2) \<Rightarrow> (Fail f, ts2)
                  | (Ok point, ts2) \<Rightarrow>
                      consumeSegment_loop L strict (seg\<lparr>Points := Points seg @ [point]\<rparr>) ts2)
               else
                 (case skipTag ts1 of
                    (Fail f, ts2) \<Rightarrow> (Fail f, ts2)
                  | (Ok u, ts2) \<Rightarrow> consumeSegment_loop L strict seg ts2)
           | EndElement n \<Rightarrow> (Ok seg, ts1)
           | _ \<Rightarrow> consumeSegment_loop L strict seg ts1))"
  by pat_completeness auto
termination
  by (relation "measure (\<lambda>(L, strict, seg, ts). remaining ts)")
     (auto dest!: Token_Ok_remaining [OF sym] consumePoint_remaining [OF sym]
        skipTag_remaining [OF sym])

declare consumeSegment_loop.simps [simp del]

definition consumeSegment ::
  "('f, 't) stdlib \<Rightarrow> bool \<Rightarrow> xml_StartElement \<Rightarrow> tokener
    \<Rightarrow> ('f, 't) Segment result \<times> tokener" where
  "consumeSegment L strict se ts = consumeSegment_loop L strict Segment0 ts"

lemma consumeSegment_loop_remaining:
  "consumeSegment_loop L strict seg ts = (r, ts') \<Longrightarrow> remaining ts' \<le> remaining ts"
proof (induction L strict seg ts arbitrary: r ts' rule: consumeSegment_loop.induct)
  case (1 L strict seg ts)
  obtain r1 ts1 where tk: "Token ts = (r1, ts1)" by (cases "Token ts")
  have le: "remaining ts1 \<le> remaining ts" using tk by (rule Token_remaining_le)
  show ?case
  proof (cases r1)
    case (Fail f)
    with tk "1.prems" le show ?thesis
      by (simp add: consumeSegment_loop.simps [of L strict seg ts])
  next
    case (Ok tok)
    note IH = "1.IH" [OF tk [symmetric] Ok]
    show ?thesis
    proof (cases tok)
      case (StartElement n as)
      note eq = "1.prems" [unfolded consumeSegment_loop.simps [of L strict seg ts] tk Ok
          StartElement]
      show ?thesis
      proof (cases "Local n = ''trkpt''")
        case True
        obtain r2 ts2 where c: "consumePoint L strict (n, as) ts1 = (r2, ts2)"
          by (cases "consumePoint L strict (n, as) ts1")
        have le2: "remaining ts2 \<le> remaining ts1" using c by (rule consumePoint_remaining)
        from eq True c le le2 IH(1) [OF StartElement True c [symmetric]] show ?thesis
          by (cases r2) fastforce+
      next
        case False
        obtain r2 ts2 where c: "skipTag ts1 = (r2, ts2)" by (cases "skipTag ts1")
        have le2: "remaining ts2 \<le> remaining ts1" using c by (rule skipTag_remaining)
        from eq False c le le2 IH(2) [OF StartElement False c [symmetric]] show ?thesis
          by (cases r2) fastforce+
      qed
    qed (use Ok tk "1.prems" le IH in
          \<open>fastforce simp add: consumeSegment_loop.simps [of L strict seg ts]\<close>)+
  qed
qed

lemma consumeSegment_remaining:
  "consumeSegment L strict se ts = (r, ts') \<Longrightarrow> remaining ts' \<le> remaining ts"
  unfolding consumeSegment_def by (rule consumeSegment_loop_remaining)

function consumeTrack_loop ::
  "('f, 't) stdlib \<Rightarrow> bool \<Rightarrow> ('f, 't) Track \<Rightarrow> tokener
    \<Rightarrow> ('f, 't) Track result \<times> tokener" where
  "consumeTrack_loop L strict track ts =
     (case Token ts of
        (Fail f, ts1) \<Rightarrow> (Fail f, ts1)
      | (Ok tok, ts1) \<Rightarrow>
          (case tok of
             StartElement n as \<Rightarrow>
               if Local n = ''trkseg'' then
                 (case consumeSegment L strict (n, as) ts1 of
                    (Fail f, ts2) \<Rightarrow> (Fail f, ts2)
                  | (Ok seg, ts2) \<Rightarrow>
                      consumeTrack_loop L strict
                        (track\<lparr>Segments := Segments track @ [seg]\<rparr>) ts2)
               else
                 (case skipTag ts1 of
                    (Fail f, ts2) \<Rightarrow> (Fail f, ts2)
                  | (Ok u, ts2) \<Rightarrow> consumeTrack_loop L strict track ts2)
           | EndElement n \<Rightarrow> (Ok track, ts1)
           | _ \<Rightarrow> consumeTrack_loop L strict track ts1))"
  by pat_completeness auto
termination
  by (relation "measure (\<lambda>(L, strict, track, ts). remaining ts)")
     (auto dest!: Token_Ok_remaining [OF sym] consumeSegment_remaining [OF sym]
        skipTag_remaining [OF sym])

declare consumeTrack_loop.simps [simp del]

definition consumeTrack ::
  "('f, 't) stdlib \<Rightarrow> bool \<Rightarrow> xml_StartElement \<Rightarrow> tokener
    \<Rightarrow> ('f, 't) Track result \<times> tokener" where
  "consumeTrack L strict se ts = consumeTrack_loop L strict Track0 ts"

lemma consumeTrack_loop_remaining:
  "consumeTrack_loop L strict track ts = (r, ts') \<Longrightarrow> remaining ts' \<le> remaining ts"
proof (induction L strict track ts arbitrary: r ts' rule: consumeTrack_loop.induct)
  case (1 L strict track ts)
  obtain r1 ts1 where tk: "Token ts = (r1, ts1)" by (cases "Token ts")
  have le: "remaining ts1 \<le> remaining ts" using tk by (rule Token_remaining_le)
  show ?case
  proof (cases r1)
    case (Fail f)
    with tk "1.prems" le show ?thesis
      by (simp add: consumeTrack_loop.simps [of L strict track ts])
  next
    case (Ok tok)
    note IH = "1.IH" [OF tk [symmetric] Ok]
    show ?thesis
    proof (cases tok)
      case (StartElement n as)
      note eq = "1.prems" [unfolded consumeTrack_loop.simps [of L strict track ts] tk Ok
          StartElement]
      show ?thesis
      proof (cases "Local n = ''trkseg''")
        case True
        obtain r2 ts2 where c: "consumeSegment L strict (n, as) ts1 = (r2, ts2)"
          by (cases "consumeSegment L strict (n, as) ts1")
        have le2: "remaining ts2 \<le> remaining ts1" using c by (rule consumeSegment_remaining)
        from eq True c le le2 IH(1) [OF StartElement True c [symmetric]] show ?thesis
          by (cases r2) fastforce+
      next
        case False
        obtain r2 ts2 where c: "skipTag ts1 = (r2, ts2)" by (cases "skipTag ts1")
        have le2: "remaining ts2 \<le> remaining ts1" using c by (rule skipTag_remaining)
        from eq False c le le2 IH(2) [OF StartElement False c [symmetric]] show ?thesis
          by (cases r2) fastforce+
      qed
    qed (use Ok tk "1.prems" le IH in
          \<open>fastforce simp add: consumeTrack_loop.simps [of L strict track ts]\<close>)+
  qed
qed

lemma consumeTrack_remaining:
  "consumeTrack L strict se ts = (r, ts') \<Longrightarrow> remaining ts' \<le> remaining ts"
  unfolding consumeTrack_def by (rule consumeTrack_loop_remaining)

function consumeMetadata_loop ::
  "('f, 't) stdlib \<Rightarrow> 't Metadata \<Rightarrow> tokener \<Rightarrow> 't Metadata result \<times> tokener" where
  "consumeMetadata_loop L metadata ts =
     (case Token ts of
        (Fail f, ts1) \<Rightarrow> (Fail f, ts1)
      | (Ok tok, ts1) \<Rightarrow>
          (case tok of
             StartElement n as \<Rightarrow>
               if Local n = ''time'' then
                 (case consumeTime L ts1 of
                    (Fail f, ts2) \<Rightarrow> (Fail f, ts2)
                  | (Ok t, ts2) \<Rightarrow>
                      consumeMetadata_loop L (metadata\<lparr>Metadata.Time := t\<rparr>) ts2)
               else
                 (case skipTag ts1 of
                    (Fail f, ts2) \<Rightarrow> (Fail f, ts2)
                  | (Ok u, ts2) \<Rightarrow> consumeMetadata_loop L metadata ts2)
           | EndElement n \<Rightarrow> (Ok metadata, ts1)
           | _ \<Rightarrow> consumeMetadata_loop L metadata ts1))"
  by pat_completeness auto
termination
  by (relation "measure (\<lambda>(L, metadata, ts). remaining ts)")
     (auto dest!: Token_Ok_remaining [OF sym] consumeTime_remaining [OF sym]
        skipTag_remaining [OF sym])

declare consumeMetadata_loop.simps [simp del]

definition consumeMetadata ::
  "('f, 't) stdlib \<Rightarrow> bool \<Rightarrow> xml_StartElement \<Rightarrow> tokener
    \<Rightarrow> 't Metadata result \<times> tokener" where
  "consumeMetadata L strict se ts = consumeMetadata_loop L (Metadata0 L) ts"

lemma consumeMetadata_loop_remaining:
  "consumeMetadata_loop L metadata ts = (r, ts') \<Longrightarrow> remaining ts' \<le> remaining ts"
proof (induction L metadata ts arbitrary: r ts' rule: consumeMetadata_loop.induct)
  case (1 L metadata ts)
  obtain r1 ts1 where tk: "Token ts = (r1, ts1)" by (cases "Token ts")
  have le: "remaining ts1 \<le> remaining ts" using tk by (rule Token_remaining_le)
  show ?case
  proof (cases r1)
    case (Fail f)
    with tk "1.prems" le show ?thesis
      by (simp add: consumeMetadata_loop.simps [of L metadata ts])
  next
    case (Ok tok)
    note IH = "1.IH" [OF tk [symmetric] Ok]
    show ?thesis
    proof (cases tok)
      case (StartElement n as)
      note eq = "1.prems" [unfolded consumeMetadata_loop.simps [of L metadata ts] tk Ok
          StartElement]
      show ?thesis
      proof (cases "Local n = ''time''")
        case True
        obtain r2 ts2 where c: "consumeTime L ts1 = (r2, ts2)" by (cases "consumeTime L ts1")
        have le2: "remaining ts2 \<le> remaining ts1" using c by (rule consumeTime_remaining)
        from eq True c le le2 IH(1) [OF StartElement True c [symmetric]] show ?thesis
          by (cases r2) fastforce+
      next
        case False
        obtain r2 ts2 where c: "skipTag ts1 = (r2, ts2)" by (cases "skipTag ts1")
        have le2: "remaining ts2 \<le> remaining ts1" using c by (rule skipTag_remaining)
        from eq False c le le2 IH(2) [OF StartElement False c [symmetric]] show ?thesis
          by (cases r2) fastforce+
      qed
    qed (use Ok tk "1.prems" le IH in
          \<open>fastforce simp add: consumeMetadata_loop.simps [of L metadata ts]\<close>)+
  qed
qed

lemma consumeMetadata_remaining:
  "consumeMetadata L strict se ts = (r, ts') \<Longrightarrow> remaining ts' \<le> remaining ts"
  unfolding consumeMetadata_def by (rule consumeMetadata_loop_remaining)

subsection \<open>findGPX, consumeGPX and Decode\<close>

function findGPX :: "tokener \<Rightarrow> xml_StartElement result \<times> tokener" where
  "findGPX ts =
     (case Token ts of
        (Fail f, ts1) \<Rightarrow> (Fail f, ts1)
      | (Ok tok, ts1) \<Rightarrow>
          (case tok of
             StartElement n as \<Rightarrow>
               if Local n \<noteq> ''gpx'' then (Fail (Error ErrBadRootTag), ts1)
               else if Space n \<noteq> nsGPX11 then (Fail (Error ErrGPX11Only), ts1)
               else (Ok (n, as), ts1)
           | _ \<Rightarrow> findGPX ts1))"
  by pat_completeness auto
termination
  by (relation "measure remaining") (auto dest!: Token_Ok_remaining [OF sym])

declare findGPX.simps [simp del]

fun consumeGPX_attrs :: "xml_Attr list \<Rightarrow> ('f, 't) Document \<Rightarrow> ('f, 't) Document" where
  "consumeGPX_attrs [] doc = doc"
| "consumeGPX_attrs (a # as) doc =
     (if Local (Attr_Name a) = ''version'' then consumeGPX_attrs as (doc\<lparr>Version := Value a\<rparr>)
      else consumeGPX_attrs as doc)"

function consumeGPX_loop ::
  "('f, 't) stdlib \<Rightarrow> bool \<Rightarrow> ('f, 't) Document \<Rightarrow> tokener
    \<Rightarrow> ('f, 't) Document result \<times> tokener" where
  "consumeGPX_loop L strict doc ts =
     (case Token ts of
        (Fail f, ts1) \<Rightarrow> (Fail f, ts1)
      | (Ok tok, ts1) \<Rightarrow>
          (case tok of
             StartElement n as \<Rightarrow>
               if Local n = ''trk'' then
                 (case consumeTrack L strict (n, as) ts1 of
                    (Fail f, ts2) \<Rightarrow> (Fail f, ts2)
                  | (Ok track, ts2) \<Rightarrow>
                      consumeGPX_loop L strict (doc\<lparr>Tracks := Tracks doc @ [track]\<rparr>) ts2)
               else if Local n = ''metadata'' then
                 (case consumeMetadata L strict (n, as) ts1 of
                    (Fail f, ts2) \<Rightarrow> (Fail f, ts2)
                  | (Ok metadata, ts2) \<Rightarrow>
                      consumeGPX_loop L strict (doc\<lparr>Metadata := metadata\<rparr>) ts2)
               else
                 (case skipTag ts1 of
                    (Fail f, ts2) \<Rightarrow> (Fail f, ts2)
                  | (Ok u, ts2) \<Rightarrow> consumeGPX_loop L strict doc ts2)
           | EndElement n \<Rightarrow> (Ok doc, ts1)
           | _ \<Rightarrow> consumeGPX_loop L strict doc ts1))"
  by pat_completeness auto
termination
  by (relation "measure (\<lambda>(L, strict, doc, ts). remaining ts)")
     (auto dest!: Token_Ok_remaining [OF sym] consumeTrack_remaining [OF sym]
        consumeMetadata_remaining [OF sym] skipTag_remaining [OF sym])

declare consumeGPX_loop.simps [simp del]

definition consumeGPX ::
  "('f, 't) stdlib \<Rightarrow> bool \<Rightarrow> xml_StartElement \<Rightarrow> tokener
    \<Rightarrow> ('f, 't) Document result \<times> tokener" where
  "consumeGPX L strict se ts =
     consumeGPX_loop L strict (consumeGPX_attrs (snd se) (Document0 L)) ts"

text \<open>
  \<^verbatim>\<open>Decode\<close> builds an \<^verbatim>\<open>xml.Decoder\<close> on the reader \<^verbatim>\<open>d.r\<close>. The reader is given by what
  that decoder delivers: the tokens \<open>toks\<close> and then the error \<open>e\<close>.
\<close>

definition Decode ::
  "('f, 't) stdlib \<Rightarrow> bool \<Rightarrow> xml_Token list \<Rightarrow> error \<Rightarrow> ('f, 't) Document result" where
  "Decode L strict toks e =
     (case findGPX (XMLDecoder toks e) of
        (Fail f, ts) \<Rightarrow> Fail f
      | (Ok se, ts) \<Rightarrow> fst (consumeGPX L strict se ts))"

section \<open>Garmin's TrackPoint extension\<close>

record 'f GarminTrackPointExtension =
  ATemp :: 'f
  WTemp :: 'f
  Depth :: 'f
  HeartRate :: "64 word"
  Cadence :: "64 word"

definition GarminTrackPointExtension0 ::
  "('f, 't) stdlib \<Rightarrow> 'f GarminTrackPointExtension" where
  "GarminTrackPointExtension0 L =
     \<lparr>ATemp = float0 L, WTemp = float0 L, Depth = float0 L, HeartRate = 0, Cadence = 0\<rparr>"

definition GarminTrackPointExtensionNS :: string where
  "GarminTrackPointExtensionNS = ''http://www.garmin.com/xmlschemas/TrackPointExtension/v1''"

text \<open>
  \<^verbatim>\<open>findExtension\<close> receives the token stream by value, but the stream holds a pointer to
  the token source, so what it consumes is consumed for the caller too. It drops the
  result of \<^verbatim>\<open>ts.skipTag()\<close> and goes on reading; a panic is not dropped.
\<close>

function findExtension :: "tokener \<Rightarrow> string \<Rightarrow> string \<Rightarrow> bool result \<times> tokener" where
  "findExtension ts space local =
     (case Token ts of
        (Fail (Error err), ts1) \<Rightarrow> (Ok False, ts1)
      | (Fail Panic, ts1) \<Rightarrow> (Fail Panic, ts1)
      | (Ok tok, ts1) \<Rightarrow>
          (case tok of
             StartElement n as \<Rightarrow>
               if Space n = space \<and> Local n = local then (Ok True, ts1)
               else
                 (case skipTag ts1 of
                    (Fail Panic, ts2) \<Rightarrow> (Fail Panic, ts2)
                  | (r, ts2) \<Rightarrow> findExtension ts2 space local)
           | EndElement n \<Rightarrow> (Ok False, ts1)
           | _ \<Rightarrow> findExtension ts1 space local))"
  by pat_completeness auto
termination
  by (relation "measure (\<lambda>(ts, space, local). remaining ts)")
     (auto dest!: Token_Ok_remaining [OF sym] skipTag_remaining [OF sym])

declare findExtension.simps [simp del]

function ParseGarminTrackPointExtension_loop ::
  "('f, 't) stdlib \<Rightarrow> 'f GarminTrackPointExtension \<Rightarrow> tokener
    \<Rightarrow> 'f GarminTrackPointExtension result \<times> tokener" where
  "ParseGarminTrackPointExtension_loop L e ts =
     (case Token ts of
        (Fail f, ts1) \<Rightarrow> (Fail f, ts1)
      | (Ok tok, ts1) \<Rightarrow>
          (case tok of
             StartElement n as \<Rightarrow>
               if Space n \<noteq> GarminTrackPointExtensionNS then
                 (case skipTag ts1 of
                    (Fail Panic, ts2) \<Rightarrow> (Fail Panic, ts2)
                  | (r, ts2) \<Rightarrow> ParseGarminTrackPointExtension_loop L e ts2)
               else if Local n = ''hr'' then
                 (case consumeString ts1 of
                    (Fail f, ts2) \<Rightarrow> (Fail f, ts2)
                  | (Ok s, ts2) \<Rightarrow>
                      ParseGarminTrackPointExtension_loop L
                        (e\<lparr>HeartRate := word_of_int (fst (Atoi L s))\<rparr>) ts2)
               else if Local n = ''cad'' then
                 (case consumeString ts1 of
                    (Fail f, ts2) \<Rightarrow> (Fail f, ts2)
                  | (Ok s, ts2) \<Rightarrow>
                      ParseGarminTrackPointExtension_loop L
                        (e\<lparr>Cadence := word_of_int (fst (Atoi L s))\<rparr>) ts2)
               else if Local n = ''atemp'' then
                 (case consumeString ts1 of
                    (Fail f, ts2) \<Rightarrow> (Fail f, ts2)
                  | (Ok s, ts2) \<Rightarrow>
                      ParseGarminTrackPointExtension_loop L
                        (e\<lparr>ATemp := fst (ParseFloat L s)\<rparr>) ts2)
               else if Local n = ''wtemp'' then
                 (case consumeString ts1 of
                    (Fail f, ts2) \<Rightarrow> (Fail f, ts2)
                  | (Ok s, ts2) \<Rightarrow>
                      ParseGarminTrackPointExtension_loop L
                        (e\<lparr>WTemp := fst (ParseFloat L s)\<rparr>) ts2)
               else if Local n = ''depth'' then
                 (case consumeString ts1 of
                    (Fail f, ts2) \<Rightarrow> (Fail f, ts2)
                  | (Ok s, ts2) \<Rightarrow>
                      ParseGarminTrackPointExtension_loop L
                        (e\<lparr>Depth := fst (ParseFloat L s)\<rparr>) ts2)
               else
                 (case skipTag ts1 of
                    (Fail Panic, ts2) \<Rightarrow> (Fail Panic, ts2)
                  | (r, ts2) \<Rightarrow> ParseGarminTrackPointExtension_loop L e ts2)
           | EndElement n \<Rightarrow> (Ok e, ts1)
           | _ \<Rightarrow> ParseGarminTrackPointExtension_loop L e ts1))"
  by pat_completeness auto
termination
  by (relation "measure (\<lambda>(L, e, ts). remaining ts)")
     (auto dest!: Token_Ok_remaining [OF sym] skipTag_remaining [OF sym]
        consumeString_remaining [OF sym])

declare ParseGarminTrackPointExtension_loop.simps [simp del]

text \<open>
  The argument is a \<^verbatim>\<open>[]xml.Token\<close>: a slice of interface values, nil (\<open>None\<close>) allowed.
  The conversion \<^verbatim>\<open>uint(n)\<close> of a 64-bit \<^verbatim>\<open>int\<close> is \<open>word_of_int\<close>.
\<close>

definition ParseGarminTrackPointExtension ::
  "('f, 't) stdlib \<Rightarrow> xml_Token option list \<Rightarrow> 'f GarminTrackPointExtension result" where
  "ParseGarminTrackPointExtension L tokens =
     (case findExtension (SliceTokener tokens) GarminTrackPointExtensionNS
             ''TrackPointExtension'' of
        (Fail f, ts) \<Rightarrow> Fail f
      | (Ok found, ts) \<Rightarrow>
          if \<not> found then Fail (Error ErrNoSuchExtension)
          else fst (ParseGarminTrackPointExtension_loop L (GarminTrackPointExtension0 L) ts))"

section \<open>The decoder (level-counting revision)\<close>

text \<open>
  An earlier revision of the decoder (the second file of \<^verbatim>\<open>src/unnamed/part_001\<close>, with
  errors returned as values) reads the \<^verbatim>\<open>xml.Decoder\<close> directly, counts the
  nesting level in every loop instead of calling \<^verbatim>\<open>skipTag\<close>, compares the name of an
  end tag, and has its own loops \<^verbatim>\<open>consumeEle\<close> and \<^verbatim>\<open>consumeTime\<close>, which parse each
  \<^verbatim>\<open>CharData\<close> token on its own and read \<^verbatim>\<open>d.Strict\<close>. Its definitions carry the suffix
  \<open>_lc\<close>. \<^verbatim>\<open>lvl\<close> is a Go \<^verbatim>\<open>int\<close> and is decremented without a test, so it is an \<open>int\<close>
  here. \<^verbatim>\<open>findGPX\<close> and the attribute loops are the same text in both revisions.
\<close>

function consumeEle_lc_loop ::
  "('f, 't) stdlib \<Rightarrow> bool \<Rightarrow> 'f \<Rightarrow> tokener \<Rightarrow> 'f result \<times> tokener" where
  "consumeEle_lc_loop L strict ele ts =
     (case Token ts of
        (Fail f, ts1) \<Rightarrow> (Fail f, ts1)
      | (Ok tok, ts1) \<Rightarrow>
          (case tok of
             CharData cd \<Rightarrow>
               (case ParseFloat L cd of
                  (v, None) \<Rightarrow> consumeEle_lc_loop L strict v ts1
                | (v, Some err) \<Rightarrow>
                    if strict then (Fail (Error (ErrInvalidEle err)), ts1)
                    else consumeEle_lc_loop L strict v ts1)
           | StartElement n as \<Rightarrow> (Fail (Error ErrInvalidEleElement), ts1)
           | EndElement n \<Rightarrow> (Ok ele, ts1)
           | _ \<Rightarrow> consumeEle_lc_loop L strict ele ts1))"
  by pat_completeness auto
termination
  by (relation "measure (\<lambda>(L, strict, ele, ts). remaining ts)")
     (auto dest!: Token_Ok_remaining [OF sym])

declare consumeEle_lc_loop.simps [simp del]

definition consumeEle_lc ::
  "('f, 't) stdlib \<Rightarrow> bool \<Rightarrow> xml_StartElement \<Rightarrow> tokener \<Rightarrow> 'f result \<times> tokener" where
  "consumeEle_lc L strict se ts = consumeEle_lc_loop L strict (float0 L) ts"

function consumeTime_lc_loop ::
  "('f, 't) stdlib \<Rightarrow> bool \<Rightarrow> 't \<Rightarrow> tokener \<Rightarrow> 't result \<times> tokener" where
  "consumeTime_lc_loop L strict t ts =
     (case Token ts of
        (Fail f, ts1) \<Rightarrow> (Fail f, ts1)
      | (Ok tok, ts1) \<Rightarrow>
          (case tok of
             CharData cd \<Rightarrow>
               (case time_Parse L cd of
                  (v, None) \<Rightarrow> consumeTime_lc_loop L strict v ts1
                | (v, Some err) \<Rightarrow>
                    if strict then (Fail (Error (ErrInvalidTime err)), ts1)
                    else consumeTime_lc_loop L strict v ts1)
           | StartElement n as \<Rightarrow> (Fail (Error ErrInvalidTimeElement), ts1)
           | EndElement n \<Rightarrow> (Ok t, ts1)
           | _ \<Rightarrow> consumeTime_lc_loop L strict t ts1))"
  by pat_completeness auto
termination
  by (relation "measure (\<lambda>(L, strict, t, ts). remaining ts)")
     (auto dest!: Token_Ok_remaining [OF sym])

declare consumeTime_lc_loop.simps [simp del]

definition consumeTime_lc ::
  "('f, 't) stdlib \<Rightarrow> bool \<Rightarrow> xml_StartElement \<Rightarrow> tokener \<Rightarrow> 't result \<times> tokener" where
  "consumeTime_lc L strict se ts = consumeTime_lc_loop L strict (time0 L) ts"

function consumeExtensions_lc_loop ::
  "int \<Rightarrow> xml_Token list \<Rightarrow> tokener \<Rightarrow> xml_Token list result \<times> tokener" where
  "consumeExtensions_lc_loop lvl tokens ts =
     (case Token ts of
        (Fail f, ts1) \<Rightarrow> (Fail f, ts1)
      | (Ok tok, ts1) \<Rightarrow>
          (case tok of
             StartElement n as \<Rightarrow> consumeExtensions_lc_loop (lvl + 1) (tokens @ [tok]) ts1
           | EndElement n \<Rightarrow>
               if lvl = 0 \<and> Local n = ''extensions'' then (Ok tokens, ts1)
               else consumeExtensions_lc_loop (lvl - 1) (tokens @ [tok]) ts1
           | _ \<Rightarrow> consumeExtensions_lc_loop lvl (tokens @ [tok]) ts1))"
  by pat_completeness auto
termination
  by (relation "measure (\<lambda>(lvl, tokens, ts). remaining ts)")
     (auto dest!: Token_Ok_remaining [OF sym])

declare consumeExtensions_lc_loop.simps [simp del]

definition consumeExtensions_lc ::
  "xml_StartElement \<Rightarrow> tokener \<Rightarrow> xml_Token list result \<times> tokener" where
  "consumeExtensions_lc se ts = consumeExtensions_lc_loop 0 [] ts"

lemma consumeEle_lc_loop_remaining:
  "consumeEle_lc_loop L strict ele ts = (r, ts') \<Longrightarrow> remaining ts' \<le> remaining ts"
proof (induction L strict ele ts arbitrary: r ts' rule: consumeEle_lc_loop.induct)
  case (1 L strict ele ts)
  obtain r1 ts1 where tk: "Token ts = (r1, ts1)" by (cases "Token ts")
  have le: "remaining ts1 \<le> remaining ts" using tk by (rule Token_remaining_le)
  show ?case
  proof (cases r1)
    case (Fail f)
    with tk "1.prems" le show ?thesis
      by (simp add: consumeEle_lc_loop.simps [of L strict ele ts])
  next
    case (Ok tok)
    note IH = "1.IH" [OF tk [symmetric] Ok]
    from Ok tk "1.prems" le IH show ?thesis
      by (cases tok)
         (fastforce simp add: consumeEle_lc_loop.simps [of L strict ele ts]
            split: if_splits prod.splits option.splits)+
  qed
qed

lemma consumeEle_lc_remaining:
  "consumeEle_lc L strict se ts = (r, ts') \<Longrightarrow> remaining ts' \<le> remaining ts"
  unfolding consumeEle_lc_def by (rule consumeEle_lc_loop_remaining)

lemma consumeTime_lc_loop_remaining:
  "consumeTime_lc_loop L strict t ts = (r, ts') \<Longrightarrow> remaining ts' \<le> remaining ts"
proof (induction L strict t ts arbitrary: r ts' rule: consumeTime_lc_loop.induct)
  case (1 L strict t ts)
  obtain r1 ts1 where tk: "Token ts = (r1, ts1)" by (cases "Token ts")
  have le: "remaining ts1 \<le> remaining ts" using tk by (rule Token_remaining_le)
  show ?case
  proof (cases r1)
    case (Fail f)
    with tk "1.prems" le show ?thesis
      by (simp add: consumeTime_lc_loop.simps [of L strict t ts])
  next
    case (Ok tok)
    note IH = "1.IH" [OF tk [symmetric] Ok]
    from Ok tk "1.prems" le IH show ?thesis
      by (cases tok)
         (fastforce simp add: consumeTime_lc_loop.simps [of L strict t ts]
            split: if_splits prod.splits option.splits)+
  qed
qed

lemma consumeTime_lc_remaining:
  "consumeTime_lc L strict se ts = (r, ts') \<Longrightarrow> remaining ts' \<le> remaining ts"
  unfolding consumeTime_lc_def by (rule consumeTime_lc_loop_remaining)

lemma consumeExtensions_lc_loop_remaining:
  "consumeExtensions_lc_loop lvl tokens ts = (r, ts') \<Longrightarrow> remaining ts' \<le> remaining ts"
proof (induction lvl tokens ts arbitrary: r ts' rule: consumeExtensions_lc_loop.induct)
  case (1 lvl tokens ts)
  obtain r1 ts1 where tk: "Token ts = (r1, ts1)" by (cases "Token ts")
  have le: "remaining ts1 \<le> remaining ts" using tk by (rule Token_remaining_le)
  show ?case
  proof (cases r1)
    case (Fail f)
    with tk "1.prems" le show ?thesis
      by (simp add: consumeExtensions_lc_loop.simps [of lvl tokens ts])
  next
    case (Ok tok)
    note IH = "1.IH" [OF tk [symmetric] Ok]
    from Ok tk "1.prems" le IH show ?thesis
      by (cases tok)
         (fastforce simp add: consumeExtensions_lc_loop.simps [of lvl tokens ts]
            split: if_splits)+
  qed
qed

lemma consumeExtensions_lc_remaining:
  "consumeExtensions_lc se ts = (r, ts') \<Longrightarrow> remaining ts' \<le> remaining ts"
  unfolding consumeExtensions_lc_def by (rule consumeExtensions_lc_loop_remaining)

function consumePoint_lc_loop ::
  "('f, 't) stdlib \<Rightarrow> bool \<Rightarrow> int \<Rightarrow> ('f, 't) Point \<Rightarrow> tokener
    \<Rightarrow> ('f, 't) Point result \<times> tokener" where
  "consumePoint_lc_loop L strict lvl point ts =
     (case Token ts of
        (Fail f, ts1) \<Rightarrow> (Fail f, ts1)
      | (Ok tok, ts1) \<Rightarrow>
          (case tok of
             StartElement n as \<Rightarrow>
               if lvl = 0 \<and> Local n = ''ele'' then
                 (case consumeEle_lc L strict (n, as) ts1 of
                    (Fail f, ts2) \<Rightarrow> (Fail f, ts2)
                  | (Ok ele, ts2) \<Rightarrow>
                      consumePoint_lc_loop L strict lvl (point\<lparr>Elevation := ele\<rparr>) ts2)
               else if lvl = 0 \<and> Local n = ''time'' then
                 (case consumeTime_lc L strict (n, as) ts1 of
                    (Fail f, ts2) \<Rightarrow> (Fail f, ts2)
                  | (Ok t, ts2) \<Rightarrow>
                      consumePoint_lc_loop L strict lvl (point\<lparr>Time := t\<rparr>) ts2)
               else if lvl = 0 \<and> Local n = ''extensions'' then
                 (case consumeExtensions_lc (n, as) ts1 of
                    (Fail f, ts2) \<Rightarrow> (Fail f, ts2)
                  | (Ok exts, ts2) \<Rightarrow>
                      consumePoint_lc_loop L strict lvl (point\<lparr>Extensions := exts\<rparr>) ts2)
               else consumePoint_lc_loop L strict (lvl + 1) point ts1
           | EndElement n \<Rightarrow>
               if lvl = 0 \<and> Local n = ''trkpt'' then (Ok point, ts1)
               else consumePoint_lc_loop L strict (lvl - 1) point ts1
           | _ \<Rightarrow> consumePoint_lc_loop L strict lvl point ts1))"
  by pat_completeness auto
termination
  by (relation "measure (\<lambda>(L, strict, lvl, point, ts). remaining ts)")
     (auto dest!: Token_Ok_remaining [OF sym] consumeEle_lc_remaining [OF sym]
        consumeTime_lc_remaining [OF sym] consumeExtensions_lc_remaining [OF sym])

declare consumePoint_lc_loop.simps [simp del]

definition consumePoint_lc ::
  "('f, 't) stdlib \<Rightarrow> bool \<Rightarrow> xml_StartElement \<Rightarrow> tokener
    \<Rightarrow> ('f, 't) Point result \<times> tokener" where
  "consumePoint_lc L strict se ts =
     (case consumePoint_attrs L strict (snd se) (Point0 L) of
        Fail f \<Rightarrow> (Fail f, ts)
      | Ok point \<Rightarrow> consumePoint_lc_loop L strict 0 point ts)"

lemma consumePoint_lc_loop_remaining:
  "consumePoint_lc_loop L strict lvl point ts = (r, ts') \<Longrightarrow> remaining ts' \<le> remaining ts"
proof (induction L strict lvl point ts arbitrary: r ts' rule: consumePoint_lc_loop.induct)
  case (1 L strict lvl point ts)
  obtain r1 ts1 where tk: "Token ts = (r1, ts1)" by (cases "Token ts")
  have le: "remaining ts1 \<le> remaining ts" using tk by (rule Token_remaining_le)
  show ?case
  proof (cases r1)
    case (Fail f)
    with tk "1.prems" le show ?thesis
      by (simp add: consumePoint_lc_loop.simps [of L strict lvl point ts])
  next
    case (Ok tok)
    note IH = "1.IH" [OF tk [symmetric] Ok]
    show ?thesis
    proof (cases tok)
      case (StartElement n as)
      note eq = "1.prems" [unfolded consumePoint_lc_loop.simps [of L strict lvl point ts] tk Ok
          StartElement]
      consider (ele) "lvl = 0 \<and> Local n = ''ele''"
        | (time) "\<not> (lvl = 0 \<and> Local n = ''ele'')" "lvl = 0 \<and> Local n = ''time''"
        | (ext) "\<not> (lvl = 0 \<and> Local n = ''ele'')" "\<not> (lvl = 0 \<and> Local n = ''time'')"
            "lvl = 0 \<and> Local n = ''extensions''"
        | (other) "\<not> (lvl = 0 \<and> Local n = ''ele'')" "\<not> (lvl = 0 \<and> Local n = ''time'')"
            "\<not> (lvl = 0 \<and> Local n = ''extensions'')"
        by blast
      then show ?thesis
      proof cases
        case ele
        obtain r2 ts2 where c: "consumeEle_lc L strict (n, as) ts1 = (r2, ts2)"
          by (cases "consumeEle_lc L strict (n, as) ts1")
        have le2: "remaining ts2 \<le> remaining ts1" using c by (rule consumeEle_lc_remaining)
        from eq ele c le le2 IH(1) [OF StartElement ele c [symmetric]] show ?thesis
          by (cases r2) fastforce+
      next
        case time
        obtain r2 ts2 where c: "consumeTime_lc L strict (n, as) ts1 = (r2, ts2)"
          by (cases "consumeTime_lc L strict (n, as) ts1")
        have le2: "remaining ts2 \<le> remaining ts1" using c by (rule consumeTime_lc_remaining)
        from eq time c le le2 IH(2) [OF StartElement time c [symmetric]] show ?thesis
          by (cases r2) fastforce+
      next
        case ext
        obtain r2 ts2 where c: "consumeExtensions_lc (n, as) ts1 = (r2, ts2)"
          by (cases "consumeExtensions_lc (n, as) ts1")
        have le2: "remaining ts2 \<le> remaining ts1"
          using c by (rule consumeExtensions_lc_remaining)
        from eq ext c le le2 IH(3) [OF StartElement ext c [symmetric]] show ?thesis
          by (cases r2) fastforce+
      next
        case other
        from eq other have "consumePoint_lc_loop L strict (lvl + 1) point ts1 = (r, ts')"
          by simp
        from IH(4) [OF StartElement other this] le show ?thesis by simp
      qed
    qed (use Ok tk "1.prems" le IH in
          \<open>fastforce simp add: consumePoint_lc_loop.simps [of L strict lvl point ts]
             split: if_splits\<close>)+
  qed
qed

lemma consumePoint_lc_remaining:
  "consumePoint_lc L strict se ts = (r, ts') \<Longrightarrow> remaining ts' \<le> remaining ts"
  by (auto simp: consumePoint_lc_def split: result.splits dest: consumePoint_lc_loop_remaining)

function consumeSegment_lc_loop ::
  "('f, 't) stdlib \<Rightarrow> bool \<Rightarrow> int \<Rightarrow> ('f, 't) Segment \<Rightarrow> tokener
    \<Rightarrow> ('f, 't) Segment result \<times> tokener" where
  "consumeSegment_lc_loop L strict lvl seg ts =
     (case Token ts of
        (Fail f, ts1) \<Rightarrow> (Fail f, ts1)
      | (Ok tok, ts1) \<Rightarrow>
          (case tok of
             StartElement n as \<Rightarrow>
               if lvl = 0 \<and> Local n = ''trkpt'' then
                 (case consumePoint_lc L strict (n, as) ts1 of
                    (Fail f, ts2) \<Rightarrow> (Fail f, ts2)
                  | (Ok point, ts2) \<Rightarrow>
                      consumeSegment_lc_loop L strict lvl
                        (seg\<lparr>Points := Points seg @ [point]\<rparr>) ts2)
               else consumeSegment_lc_loop L strict (lvl + 1) seg ts1
           | EndElement n \<Rightarrow>
               if lvl = 0 \<and> Local n = ''trkseg'' then (Ok seg, ts1)
               else consumeSegment_lc_loop L strict (lvl - 1) seg ts1
           | _ \<Rightarrow> consumeSegment_lc_loop L strict lvl seg ts1))"
  by pat_completeness auto
termination
  by (relation "measure (\<lambda>(L, strict, lvl, seg, ts). remaining ts)")
     (auto dest!: Token_Ok_remaining [OF sym] consumePoint_lc_remaining [OF sym])

declare consumeSegment_lc_loop.simps [simp del]

definition consumeSegment_lc ::
  "('f, 't) stdlib \<Rightarrow> bool \<Rightarrow> xml_StartElement \<Rightarrow> tokener
    \<Rightarrow> ('f, 't) Segment result \<times> tokener" where
  "consumeSegment_lc L strict se ts = consumeSegment_lc_loop L strict 0 Segment0 ts"

lemma consumeSegment_lc_loop_remaining:
  "consumeSegment_lc_loop L strict lvl seg ts = (r, ts') \<Longrightarrow> remaining ts' \<le> remaining ts"
proof (induction L strict lvl seg ts arbitrary: r ts' rule: consumeSegment_lc_loop.induct)
  case (1 L strict lvl seg ts)
  obtain r1 ts1 where tk: "Token ts = (r1, ts1)" by (cases "Token ts")
  have le: "remaining ts1 \<le> remaining ts" using tk by (rule Token_remaining_le)
  show ?case
  proof (cases r1)
    case (Fail f)
    with tk "1.prems" le show ?thesis
      by (simp add: consumeSegment_lc_loop.simps [of L strict lvl seg ts])
  next
    case (Ok tok)
    note IH = "1.IH" [OF tk [symmetric] Ok]
    show ?thesis
    proof (cases tok)
      case (StartElement n as)
      note eq = "1.prems" [unfolded consumeSegment_lc_loop.simps [of L strict lvl seg ts] tk Ok
          StartElement]
      show ?thesis
      proof (cases "lvl = 0 \<and> Local n = ''trkpt''")
        case True
        obtain r2 ts2 where c: "consumePoint_lc L strict (n, as) ts1 = (r2, ts2)"
          by (cases "consumePoint_lc L strict (n, as) ts1")
        have le2: "remaining ts2 \<le> remaining ts1" using c by (rule consumePoint_lc_remaining)
        from eq True c le le2 IH(1) [OF StartElement True c [symmetric]] show ?thesis
          by (cases r2) fastforce+
      next
        case False
        from eq False have "consumeSegment_lc_loop L strict (lvl + 1) seg ts1 = (r, ts')" by simp
        from IH(2) [OF StartElement False this] le show ?thesis by simp
      qed
    qed (use Ok tk "1.prems" le IH in
          \<open>fastforce simp add: consumeSegment_lc_loop.simps [of L strict lvl seg ts]
             split: if_splits\<close>)+
  qed
qed

lemma consumeSegment_lc_remaining:
  "consumeSegment_lc L strict se ts = (r, ts') \<Longrightarrow> remaining ts' \<le> remaining ts"
  unfolding consumeSegment_lc_def by (rule consumeSegment_lc_loop_remaining)

function consumeTrack_lc_loop ::
  "('f, 't) stdlib \<Rightarrow> bool \<Rightarrow> int \<Rightarrow> ('f, 't) Track \<Rightarrow> tokener
    \<Rightarrow> ('f, 't) Track result \<times> tokener" where
  "consumeTrack_lc_loop L strict lvl track ts =
     (case Token ts of
        (Fail f, ts1) \<Rightarrow> (Fail f, ts1)
      | (Ok tok, ts1) \<Rightarrow>
          (case tok of
             StartElement n as \<Rightarrow>
               if lvl = 0 \<and> Local n = ''trkseg'' then
                 (case consumeSegment_lc L strict (n, as) ts1 of
                    (Fail f, ts2) \<Rightarrow> (Fail f, ts2)
                  | (Ok seg, ts2) \<Rightarrow>
                      consumeTrack_lc_loop L strict lvl
                        (track\<lparr>Segments := Segments track @ [seg]\<rparr>) ts2)
               else consumeTrack_lc_loop L strict (lvl + 1) track ts1
           | EndElement n \<Rightarrow>
               if lvl = 0 \<and> Local n = ''trk'' then (Ok track, ts1)
               else consumeTrack_lc_loop L strict (lvl - 1) track ts1
           | _ \<Rightarrow> consumeTrack_lc_loop L strict lvl track ts1))"
  by pat_completeness auto
termination
  by (relation "measure (\<lambda>(L, strict, lvl, track, ts). remaining ts)")
     (auto dest!: Token_Ok_remaining [OF sym] consumeSegment_lc_remaining [OF sym])

declare consumeTrack_lc_loop.simps [simp del]

definition consumeTrack_lc ::
  "('f, 't) stdlib \<Rightarrow> bool \<Rightarrow> xml_StartElement \<Rightarrow> tokener
    \<Rightarrow> ('f, 't) Track result \<times> tokener" where
  "consumeTrack_lc L strict se ts = consumeTrack_lc_loop L strict 0 Track0 ts"

lemma consumeTrack_lc_loop_remaining:
  "consumeTrack_lc_loop L strict lvl track ts = (r, ts') \<Longrightarrow> remaining ts' \<le> remaining ts"
proof (induction L strict lvl track ts arbitrary: r ts' rule: consumeTrack_lc_loop.induct)
  case (1 L strict lvl track ts)
  obtain r1 ts1 where tk: "Token ts = (r1, ts1)" by (cases "Token ts")
  have le: "remaining ts1 \<le> remaining ts" using tk by (rule Token_remaining_le)
  show ?case
  proof (cases r1)
    case (Fail f)
    with tk "1.prems" le show ?thesis
      by (simp add: consumeTrack_lc_loop.simps [of L strict lvl track ts])
  next
    case (Ok tok)
    note IH = "1.IH" [OF tk [symmetric] Ok]
    show ?thesis
    proof (cases tok)
      case (StartElement n as)
      note eq = "1.prems" [unfolded consumeTrack_lc_loop.simps [of L strict lvl track ts] tk Ok
          StartElement]
      show ?thesis
      proof (cases "lvl = 0 \<and> Local n = ''trkseg''")
        case True
        obtain r2 ts2 where c: "consumeSegment_lc L strict (n, as) ts1 = (r2, ts2)"
          by (cases "consumeSegment_lc L strict (n, as) ts1")
        have le2: "remaining ts2 \<le> remaining ts1" using c by (rule consumeSegment_lc_remaining)
        from eq True c le le2 IH(1) [OF StartElement True c [symmetric]] show ?thesis
          by (cases r2) fastforce+
      next
        case False
        from eq False have "consumeTrack_lc_loop L strict (lvl + 1) track ts1 = (r, ts')" by simp
        from IH(2) [OF StartElement False this] le show ?thesis by simp
      qed
    qed (use Ok tk "1.prems" le IH in
          \<open>fastforce simp add: consumeTrack_lc_loop.simps [of L strict lvl track ts]
             split: if_splits\<close>)+
  qed
qed

lemma consumeTrack_lc_remaining:
  "consumeTrack_lc L strict se ts = (r, ts') \<Longrightarrow> remaining ts' \<le> remaining ts"
  unfolding consumeTrack_lc_def by (rule consumeTrack_lc_loop_remaining)

function consumeMetadata_lc_loop ::
  "('f, 't) stdlib \<Rightarrow> bool \<Rightarrow> int \<Rightarrow> 't Metadata \<Rightarrow> tokener
    \<Rightarrow> 't Metadata result \<times> tokener" where
  "consumeMetadata_lc_loop L strict lvl metadata ts =
     (case Token ts of
        (Fail f, ts1) \<Rightarrow> (Fail f, ts1)
      | (Ok tok, ts1) \<Rightarrow>
          (case tok of
             StartElement n as \<Rightarrow>
               if lvl = 0 \<and> Local n = ''time'' then
                 (case consumeTime_lc L strict (n, as) ts1 of
                    (Fail f, ts2) \<Rightarrow> (Fail f, ts2)
                  | (Ok t, ts2) \<Rightarrow>
                      consumeMetadata_lc_loop L strict lvl
                        (metadata\<lparr>Metadata.Time := t\<rparr>) ts2)
               else consumeMetadata_lc_loop L strict (lvl + 1) metadata ts1
           | EndElement n \<Rightarrow>
               if lvl = 0 \<and> Local n = ''metadata'' then (Ok metadata, ts1)
               else consumeMetadata_lc_loop L strict (lvl - 1) metadata ts1
           | _ \<Rightarrow> consumeMetadata_lc_loop L strict lvl metadata ts1))"
  by pat_completeness auto
termination
  by (relation "measure (\<lambda>(L, strict, lvl, metadata, ts). remaining ts)")
     (auto dest!: Token_Ok_remaining [OF sym] consumeTime_lc_remaining [OF sym])

declare consumeMetadata_lc_loop.simps [simp del]

definition consumeMetadata_lc ::
  "('f, 't) stdlib \<Rightarrow> bool \<Rightarrow> xml_StartElement \<Rightarrow> tokener
    \<Rightarrow> 't Metadata result \<times> tokener" where
  "consumeMetadata_lc L strict se ts = consumeMetadata_lc_loop L strict 0 (Metadata0 L) ts"

lemma consumeMetadata_lc_loop_remaining:
  "consumeMetadata_lc_loop L strict lvl metadata ts = (r, ts')
    \<Longrightarrow> remaining ts' \<le> remaining ts"
proof (induction L strict lvl metadata ts arbitrary: r ts'
    rule: consumeMetadata_lc_loop.induct)
  case (1 L strict lvl metadata ts)
  obtain r1 ts1 where tk: "Token ts = (r1, ts1)" by (cases "Token ts")
  have le: "remaining ts1 \<le> remaining ts" using tk by (rule Token_remaining_le)
  show ?case
  proof (cases r1)
    case (Fail f)
    with tk "1.prems" le show ?thesis
      by (simp add: consumeMetadata_lc_loop.simps [of L strict lvl metadata ts])
  next
    case (Ok tok)
    note IH = "1.IH" [OF tk [symmetric] Ok]
    show ?thesis
    proof (cases tok)
      case (StartElement n as)
      note eq = "1.prems" [unfolded consumeMetadata_lc_loop.simps [of L strict lvl metadata ts]
          tk Ok StartElement]
      show ?thesis
      proof (cases "lvl = 0 \<and> Local n = ''time''")
        case True
        obtain r2 ts2 where c: "consumeTime_lc L strict (n, as) ts1 = (r2, ts2)"
          by (cases "consumeTime_lc L strict (n, as) ts1")
        have le2: "remaining ts2 \<le> remaining ts1" using c by (rule consumeTime_lc_remaining)
        from eq True c le le2 IH(1) [OF StartElement True c [symmetric]] show ?thesis
          by (cases r2) fastforce+
      next
        case False
        from eq False have "consumeMetadata_lc_loop L strict (lvl + 1) metadata ts1 = (r, ts')" by simp
        from IH(2) [OF StartElement False this] le show ?thesis by simp
      qed
    qed (use Ok tk "1.prems" le IH in
          \<open>fastforce simp add: consumeMetadata_lc_loop.simps [of L strict lvl metadata ts]
             split: if_splits\<close>)+
  qed
qed

lemma consumeMetadata_lc_remaining:
  "consumeMetadata_lc L strict se ts = (r, ts') \<Longrightarrow> remaining ts' \<le> remaining ts"
  unfolding consumeMetadata_lc_def by (rule consumeMetadata_lc_loop_remaining)

function consumeGPX_lc_loop ::
  "('f, 't) stdlib \<Rightarrow> bool \<Rightarrow> int \<Rightarrow> ('f, 't) Document \<Rightarrow> tokener
    \<Rightarrow> ('f, 't) Document result \<times> tokener" where
  "consumeGPX_lc_loop L strict lvl doc ts =
     (case Token ts of
        (Fail f, ts1) \<Rightarrow> (Fail f, ts1)
      | (Ok tok, ts1) \<Rightarrow>
          (case tok of
             StartElement n as \<Rightarrow>
               if lvl = 0 \<and> Local n = ''trk'' then
                 (case consumeTrack_lc L strict (n, as) ts1 of
                    (Fail f, ts2) \<Rightarrow> (Fail f, ts2)
                  | (Ok track, ts2) \<Rightarrow>
                      consumeGPX_lc_loop L strict lvl
                        (doc\<lparr>Tracks := Tracks doc @ [track]\<rparr>) ts2)
               else if lvl = 0 \<and> Local n = ''metadata'' then
                 (case consumeMetadata_lc L strict (n, as) ts1 of
                    (Fail f, ts2) \<Rightarrow> (Fail f, ts2)
                  | (Ok metadata, ts2) \<Rightarrow>
                      consumeGPX_lc_loop L strict lvl (doc\<lparr>Metadata := metadata\<rparr>) ts2)
               else consumeGPX_lc_loop L strict (lvl + 1) doc ts1
           | EndElement n \<Rightarrow>
               if lvl = 0 \<and> Local n = ''gpx'' then (Ok doc, ts1)
               else consumeGPX_lc_loop L strict (lvl - 1) doc ts1
           | _ \<Rightarrow> consumeGPX_lc_loop L strict lvl doc ts1))"
  by pat_completeness auto
termination
  by (relation "measure (\<lambda>(L, strict, lvl, doc, ts). remaining ts)")
     (auto dest!: Token_Ok_remaining [OF sym] consumeTrack_lc_remaining [OF sym]
        consumeMetadata_lc_remaining [OF sym])

declare consumeGPX_lc_loop.simps [simp del]

definition consumeGPX_lc ::
  "('f, 't) stdlib \<Rightarrow> bool \<Rightarrow> xml_StartElement \<Rightarrow> tokener
    \<Rightarrow> ('f, 't) Document result \<times> tokener" where
  "consumeGPX_lc L strict se ts =
     consumeGPX_lc_loop L strict 0 (consumeGPX_attrs (snd se) (Document0 L)) ts"

definition Decode_lc ::
  "('f, 't) stdlib \<Rightarrow> bool \<Rightarrow> xml_Token list \<Rightarrow> error \<Rightarrow> ('f, 't) Document result" where
  "Decode_lc L strict toks e =
     (case findGPX (XMLDecoder toks e) of
        (Fail f, ts) \<Rightarrow> Fail f
      | (Ok se, ts) \<Rightarrow> fst (consumeGPX_lc L strict se ts))"

section \<open>Well-formed input\<close>

text \<open>
  What the XML tokenizer delivers for a well-formed piece of a document is the
  flattening of a tree: for an element its start tag, the tokens of its children in
  order and an end tag with the same name; for character data, a comment, a processing
  instruction or a directive the one token. \<open>tokensOf\<close> is that flattening;
  a token list is balanced when it is \<open>tokensOfList\<close> of some list of nodes.
\<close>

datatype Node =
    Element xml_Name "xml_Attr list" "Node list"
  | Text string
  | CommentNode string
  | ProcInstNode string string
  | DirectiveNode string

fun tokensOf :: "Node \<Rightarrow> xml_Token list" where
  "tokensOf (Element n as cs) = StartElement n as # concat (map tokensOf cs) @ [EndElement n]"
| "tokensOf (Text s) = [CharData s]"
| "tokensOf (CommentNode s) = [Comment s]"
| "tokensOf (ProcInstNode t s) = [ProcInst t s]"
| "tokensOf (DirectiveNode s) = [Directive s]"

definition tokensOfList :: "Node list \<Rightarrow> xml_Token list" where
  "tokensOfList cs = concat (map tokensOf cs)"

fun isStartElement :: "xml_Token \<Rightarrow> bool" where
  "isStartElement (StartElement n as) = True"
| "isStartElement tok = False"

fun isEndElement :: "xml_Token \<Rightarrow> bool" where
  "isEndElement (EndElement n) = True"
| "isEndElement tok = False"

fun isCharData :: "xml_Token \<Rightarrow> bool" where
  "isCharData (CharData s) = True"
| "isCharData tok = False"

fun isElementNamed :: "string \<Rightarrow> Node \<Rightarrow> bool" where
  "isElementNamed l (Element n as cs) = (Local n = l)"
| "isElementNamed l node = False"

fun isOtherToken :: "xml_Token \<Rightarrow> bool" where
  "isOtherToken (Comment s) = True"
| "isOtherToken (ProcInst t s) = True"
| "isOtherToken (Directive s) = True"
| "isOtherToken tok = False"

fun childNodes :: "Node \<Rightarrow> Node list" where
  "childNodes (Element n as cs) = cs"
| "childNodes node = []"

text \<open>
  The elements that a grammar level reads: the children with a given local name, in
  document order. \<open>pointDecodedFrom\<close> says that a point is what \<^verbatim>\<open>consumePoint\<close> returns
  when it is run on one \<^verbatim>\<open>trkpt\<close> element alone: on its start tag and on the tokens of
  its children followed by its end tag.
\<close>

definition elementsNamed :: "string \<Rightarrow> Node list \<Rightarrow> Node list" where
  "elementsNamed l cs = filter (isElementNamed l) cs"

fun startOf :: "Node \<Rightarrow> xml_StartElement" where
  "startOf (Element n as cs) = (n, as)"
| "startOf node = (Name [] [], [])"

definition pointDecodedFrom ::
  "('f, 't) stdlib \<Rightarrow> bool \<Rightarrow> ('f, 't) Point \<Rightarrow> Node \<Rightarrow> bool" where
  "pointDecodedFrom L strict point trkpt =
     (fst (consumePoint L strict (startOf trkpt)
        (XMLDecoder (tokensOfList (childNodes trkpt) @ [EndElement (fst (startOf trkpt))]) EOF))
      = Ok point)"

text \<open>
  Namespaces replaced: \<open>respace h\<close> gives a name the namespace that \<open>h\<close> chooses for it
  and keeps the local name; \<open>respaceToken h\<close> does so for the element name and the
  attribute names of a tag. On a document it acts on the tokens captured in the points,
  the only place where a decoded document holds names.
\<close>

definition respace :: "(xml_Name \<Rightarrow> string) \<Rightarrow> xml_Name \<Rightarrow> xml_Name" where
  "respace h n = Name (h n) (Local n)"

definition respaceAttr :: "(xml_Name \<Rightarrow> string) \<Rightarrow> xml_Attr \<Rightarrow> xml_Attr" where
  "respaceAttr h a = Attr (respace h (Attr_Name a)) (Value a)"

fun respaceToken :: "(xml_Name \<Rightarrow> string) \<Rightarrow> xml_Token \<Rightarrow> xml_Token" where
  "respaceToken h (StartElement n as) = StartElement (respace h n) (map (respaceAttr h) as)"
| "respaceToken h (EndElement n) = EndElement (respace h n)"
| "respaceToken h tok = tok"






text \<open>
  The same on a token source, and on the result and the token source that an operation
  returns.
\<close>

fun respaceTokener :: "(xml_Name \<Rightarrow> string) \<Rightarrow> tokener \<Rightarrow> tokener" where
  "respaceTokener h (XMLDecoder ts e) = XMLDecoder (map (respaceToken h) ts) e"
| "respaceTokener h (SliceTokener ts) = SliceTokener (map (map_option (respaceToken h)) ts)"

definition respaced ::
  "(xml_Name \<Rightarrow> string) \<Rightarrow> ('a \<Rightarrow> 'b) \<Rightarrow> 'a result \<times> tokener \<Rightarrow> 'b result \<times> tokener" where
  "respaced h g p = (map_result g (fst p), respaceTokener h (snd p))"

text \<open>
  Two results have the same outcome when both are failures or both are the same value.
  \<open>gpxLeaves\<close> holds of a child of the root when every leaf that the decoder reads in it
  (an \<^verbatim>\<open>ele\<close> or \<^verbatim>\<open>time\<close> child of a \<^verbatim>\<open>trkpt\<close> of a \<^verbatim>\<open>trkseg\<close> of a \<^verbatim>\<open>trk\<close>, a \<^verbatim>\<open>time\<close> child of
  \<^verbatim>\<open>metadata\<close>) holds exactly one piece of character data and nothing else, and that text
  parses unless the decoder is strict.
\<close>

fun isFail :: "'a result \<Rightarrow> bool" where
  "isFail (Fail f) = True"
| "isFail (Ok x) = False"

definition sameOutcome :: "'a result \<Rightarrow> 'a result \<Rightarrow> bool" where
  "sameOutcome r1 r2 =
     (case r1 of
        Ok a \<Rightarrow> (case r2 of Ok b \<Rightarrow> a = b | Fail f \<Rightarrow> False)
      | Fail f \<Rightarrow> isFail r2)"

fun simpleFloatLeaf :: "('f, 't) stdlib \<Rightarrow> bool \<Rightarrow> Node list \<Rightarrow> bool" where
  "simpleFloatLeaf L strict [Text s] = (strict \<or> snd (ParseFloat L s) = None)"
| "simpleFloatLeaf L strict cs = False"

fun simpleTimeLeaf :: "('f, 't) stdlib \<Rightarrow> bool \<Rightarrow> Node list \<Rightarrow> bool" where
  "simpleTimeLeaf L strict [Text s] = (strict \<or> snd (time_Parse L s) = None)"
| "simpleTimeLeaf L strict cs = False"

fun pointLeaves :: "('f, 't) stdlib \<Rightarrow> bool \<Rightarrow> Node \<Rightarrow> bool" where
  "pointLeaves L strict (Element n as cs) =
     (if Local n = ''ele'' then simpleFloatLeaf L strict cs
      else if Local n = ''time'' then simpleTimeLeaf L strict cs
      else True)"
| "pointLeaves L strict node = True"

fun segmentLeaves :: "('f, 't) stdlib \<Rightarrow> bool \<Rightarrow> Node \<Rightarrow> bool" where
  "segmentLeaves L strict (Element n as cs) =
     (if Local n = ''trkpt'' then list_all (pointLeaves L strict) cs else True)"
| "segmentLeaves L strict node = True"

fun trackLeaves :: "('f, 't) stdlib \<Rightarrow> bool \<Rightarrow> Node \<Rightarrow> bool" where
  "trackLeaves L strict (Element n as cs) =
     (if Local n = ''trkseg'' then list_all (segmentLeaves L strict) cs else True)"
| "trackLeaves L strict node = True"

fun metadataLeaves :: "('f, 't) stdlib \<Rightarrow> bool \<Rightarrow> Node \<Rightarrow> bool" where
  "metadataLeaves L strict (Element n as cs) =
     (if Local n = ''time'' then simpleTimeLeaf L strict cs else True)"
| "metadataLeaves L strict node = True"

fun gpxLeaves :: "('f, 't) stdlib \<Rightarrow> bool \<Rightarrow> Node \<Rightarrow> bool" where
  "gpxLeaves L strict (Element n as cs) =
     (if Local n = ''trk'' then list_all (trackLeaves L strict) cs
      else if Local n = ''metadata'' then list_all (metadataLeaves L strict) cs
      else True)"
| "gpxLeaves L strict node = True"

text \<open>
  The level-counting revision parses each piece of character data of a leaf when it
  reads it. \<open>firstParseError parse toks\<close> is the error of the first character data among
  \<open>toks\<close> that \<open>parse\<close> rejects, looking no further than the first start tag.
\<close>

fun firstParseError :: "(string \<Rightarrow> 'a \<times> error option) \<Rightarrow> xml_Token list \<Rightarrow> error option" where
  "firstParseError parse [] = None"
| "firstParseError parse (CharData s # toks) =
     (case snd (parse s) of Some err \<Rightarrow> Some err | None \<Rightarrow> firstParseError parse toks)"
| "firstParseError parse (StartElement n as # toks) = None"
| "firstParseError parse (tok # toks) = firstParseError parse toks"

section \<open>A library instance for the examples\<close>

text \<open>
  The examples need one concrete library. \<open>go_Atoi\<close> follows \<^verbatim>\<open>strconv.Atoi\<close> for a 64-bit
  \<^verbatim>\<open>int\<close>: an optional sign and decimal digits; on a syntax error the value is 0, on a
  range error it is the nearest bound, \<open>2^63 - 1\<close> or \<open>- 2^63\<close>. \<open>decimalFloat\<close> stands for
  \<^verbatim>\<open>strconv.ParseFloat\<close> on plain decimal literals (sign, digits, one optional point)
  and rejects every other text; \<open>utcTime\<close> stands for \<^verbatim>\<open>time.Parse\<close> on texts of the form
  \<^verbatim>\<open>2015-12-13T18:35:18Z\<close> and keeps the text as the value. The examples use them only
  on inputs where Go gives the same answer.
\<close>

definition isDigit :: "char \<Rightarrow> bool" where
  "isDigit c = (c \<in> set ''0123456789'')"

definition digitsVal :: "string \<Rightarrow> nat" where
  "digitsVal ds = foldl (\<lambda>n c. 10 * n + (of_char c - 48)) 0 ds"

definition splitSign :: "string \<Rightarrow> bool \<times> string" where
  "splitSign s =
     (case s of
        [] \<Rightarrow> (False, [])
      | c # cs \<Rightarrow>
          if c = CHR ''-'' then (True, cs) else if c = CHR ''+'' then (False, cs) else (False, s))"

definition go_Atoi :: "string \<Rightarrow> int \<times> error option" where
  "go_Atoi s =
     (case splitSign s of
        (neg, ds) \<Rightarrow>
          if ds = [] \<or> \<not> list_all isDigit ds then (0, Some (NumError s))
          else
            let un = int (digitsVal ds) in
            if \<not> neg \<and> un \<ge> 2 ^ 63 then (2 ^ 63 - 1, Some (NumError s))
            else if neg \<and> un > 2 ^ 63 then (- (2 ^ 63), Some (NumError s))
            else (if neg then - un else un, None))"

definition decimalFloat :: "string \<Rightarrow> rat \<times> error option" where
  "decimalFloat s =
     (case splitSign s of
        (neg, body) \<Rightarrow>
          let ip = takeWhile isDigit body; rest = dropWhile isDigit body;
              fp = (case rest of
                      [] \<Rightarrow> Some []
                    | c # ds \<Rightarrow> if c = CHR ''.'' \<and> list_all isDigit ds then Some ds else None)
          in case fp of
               None \<Rightarrow> (0, Some (NumError s))
             | Some ds \<Rightarrow>
                 if ip = [] \<and> ds = [] then (0, Some (NumError s))
                 else
                   let v = of_nat (digitsVal ip) + of_nat (digitsVal ds) / 10 ^ length ds
                   in (if neg then - v else v, None))"

fun matchesLayout :: "string \<Rightarrow> string \<Rightarrow> bool" where
  "matchesLayout [] [] = True"
| "matchesLayout (p # ps) (c # cs) =
     ((if p = CHR ''9'' then isDigit c else c = p) \<and> matchesLayout ps cs)"
| "matchesLayout ps cs = False"

definition utcTime :: "string \<Rightarrow> string \<times> error option" where
  "utcTime s =
     (if matchesLayout ''9999-99-99T99:99:99Z'' s then (s, None)
      else ([], Some (TimeParseError s)))"

definition exampleLib :: "(rat, string) stdlib" where
  "exampleLib =
     \<lparr>ParseFloat = decimalFloat, time_Parse = utcTime, Atoi = go_Atoi, float0 = 0, time0 = []\<rparr>"

section \<open>The decoder read on trees\<close>

text \<open>
  For the proofs, each loop of the token-stream revision is restated as a function on
  the child nodes of the element it consumes: \<open>foldNodes\<close> threads the loop variable
  through the children, and one function per grammar level says what a single child does
  to it. The lemmas of the next sections show that the loops compute exactly these
  functions on the flattening of a tree. The claims on \<^verbatim>\<open>Decode\<close> are stated on the decoder's
  own functions and on \<open>tokensOf\<close>.
\<close>

fun foldNodes :: "('a \<Rightarrow> Node \<Rightarrow> 'a result) \<Rightarrow> 'a \<Rightarrow> Node list \<Rightarrow> 'a result" where
  "foldNodes f acc [] = Ok acc"
| "foldNodes f acc (c # cs) =
     (case f acc c of Fail e \<Rightarrow> Fail e | Ok acc' \<Rightarrow> foldNodes f acc' cs)"

fun leafText :: "Node list \<Rightarrow> string option" where
  "leafText [] = Some []"
| "leafText (Text s # cs) = (case leafText cs of None \<Rightarrow> None | Some r \<Rightarrow> Some (s @ r))"
| "leafText (c # cs) = None"

definition leafFloat :: "('f, 't) stdlib \<Rightarrow> Node list \<Rightarrow> 'f result" where
  "leafFloat L cs =
     (case leafText cs of
        None \<Rightarrow> Fail (Error ErrUnexpectedElement)
      | Some s \<Rightarrow>
          (case ParseFloat L s of (v, None) \<Rightarrow> Ok v | (v, Some err) \<Rightarrow> Fail (Error err)))"

definition leafTime :: "('f, 't) stdlib \<Rightarrow> Node list \<Rightarrow> 't result" where
  "leafTime L cs =
     (case leafText cs of
        None \<Rightarrow> Fail (Error ErrUnexpectedElement)
      | Some s \<Rightarrow>
          (case time_Parse L s of (t, None) \<Rightarrow> Ok t | (t, Some err) \<Rightarrow> Fail (Error err)))"

fun pointChild :: "('f, 't) stdlib \<Rightarrow> ('f, 't) Point \<Rightarrow> Node \<Rightarrow> ('f, 't) Point result" where
  "pointChild L point (Element n as cs) =
     (if Local n = ''ele'' then
        (case leafFloat L cs of Fail f \<Rightarrow> Fail f | Ok ele \<Rightarrow> Ok (point\<lparr>Elevation := ele\<rparr>))
      else if Local n = ''time'' then
        (case leafTime L cs of Fail f \<Rightarrow> Fail f | Ok t \<Rightarrow> Ok (point\<lparr>Time := t\<rparr>))
      else if Local n = ''extensions'' then Ok (point\<lparr>Extensions := tokensOfList cs\<rparr>)
      else Ok point)"
| "pointChild L point node = Ok point"

definition pointOfElement ::
  "('f, 't) stdlib \<Rightarrow> bool \<Rightarrow> xml_Attr list \<Rightarrow> Node list \<Rightarrow> ('f, 't) Point result" where
  "pointOfElement L strict as cs =
     (case consumePoint_attrs L strict as (Point0 L) of
        Fail f \<Rightarrow> Fail f
      | Ok point \<Rightarrow> foldNodes (pointChild L) point cs)"

fun segmentChild ::
  "('f, 't) stdlib \<Rightarrow> bool \<Rightarrow> ('f, 't) Segment \<Rightarrow> Node \<Rightarrow> ('f, 't) Segment result" where
  "segmentChild L strict seg (Element n as cs) =
     (if Local n = ''trkpt'' then
        (case pointOfElement L strict as cs of
           Fail f \<Rightarrow> Fail f
         | Ok point \<Rightarrow> Ok (seg\<lparr>Points := Points seg @ [point]\<rparr>))
      else Ok seg)"
| "segmentChild L strict seg node = Ok seg"

fun trackChild ::
  "('f, 't) stdlib \<Rightarrow> bool \<Rightarrow> ('f, 't) Track \<Rightarrow> Node \<Rightarrow> ('f, 't) Track result" where
  "trackChild L strict track (Element n as cs) =
     (if Local n = ''trkseg'' then
        (case foldNodes (segmentChild L strict) Segment0 cs of
           Fail f \<Rightarrow> Fail f
         | Ok seg \<Rightarrow> Ok (track\<lparr>Segments := Segments track @ [seg]\<rparr>))
      else Ok track)"
| "trackChild L strict track node = Ok track"

fun metadataChild :: "('f, 't) stdlib \<Rightarrow> 't Metadata \<Rightarrow> Node \<Rightarrow> 't Metadata result" where
  "metadataChild L metadata (Element n as cs) =
     (if Local n = ''time'' then
        (case leafTime L cs of
           Fail f \<Rightarrow> Fail f
         | Ok t \<Rightarrow> Ok (metadata\<lparr>Metadata.Time := t\<rparr>))
      else Ok metadata)"
| "metadataChild L metadata node = Ok metadata"

fun gpxChild ::
  "('f, 't) stdlib \<Rightarrow> bool \<Rightarrow> ('f, 't) Document \<Rightarrow> Node \<Rightarrow> ('f, 't) Document result" where
  "gpxChild L strict doc (Element n as cs) =
     (if Local n = ''trk'' then
        (case foldNodes (trackChild L strict) Track0 cs of
           Fail f \<Rightarrow> Fail f
         | Ok track \<Rightarrow> Ok (doc\<lparr>Tracks := Tracks doc @ [track]\<rparr>))
      else if Local n = ''metadata'' then
        (case foldNodes (metadataChild L) (Metadata0 L) cs of
           Fail f \<Rightarrow> Fail f
         | Ok metadata \<Rightarrow> Ok (doc\<lparr>Metadata := metadata\<rparr>))
      else Ok doc)"
| "gpxChild L strict doc node = Ok doc"

definition documentOfElement ::
  "('f, 't) stdlib \<Rightarrow> bool \<Rightarrow> xml_Name \<Rightarrow> xml_Attr list \<Rightarrow> Node list
    \<Rightarrow> ('f, 't) Document result" where
  "documentOfElement L strict n as cs =
     (if Local n \<noteq> ''gpx'' then Fail (Error ErrBadRootTag)
      else if Space n \<noteq> nsGPX11 then Fail (Error ErrGPX11Only)
      else foldNodes (gpxChild L strict) (consumeGPX_attrs as (Document0 L)) cs)"

text \<open>
  The same for the loop of \<^verbatim>\<open>ParseGarminTrackPointExtension\<close>. \<open>isEnvelope\<close> is the test of
  \<^verbatim>\<open>findExtension\<close> for the element that holds the extension.
\<close>

fun isEnvelope :: "Node \<Rightarrow> bool" where
  "isEnvelope (Element n as cs) =
     (Space n = GarminTrackPointExtensionNS \<and> Local n = ''TrackPointExtension'')"
| "isEnvelope node = False"

fun garminChild ::
  "('f, 't) stdlib \<Rightarrow> 'f GarminTrackPointExtension \<Rightarrow> Node
    \<Rightarrow> 'f GarminTrackPointExtension result" where
  "garminChild L ext (Element n as cs) =
     (if Space n \<noteq> GarminTrackPointExtensionNS then Ok ext
      else if Local n = ''hr'' then
        (case leafText cs of
           None \<Rightarrow> Fail (Error ErrUnexpectedElement)
         | Some s \<Rightarrow> Ok (ext\<lparr>HeartRate := word_of_int (fst (Atoi L s))\<rparr>))
      else if Local n = ''cad'' then
        (case leafText cs of
           None \<Rightarrow> Fail (Error ErrUnexpectedElement)
         | Some s \<Rightarrow> Ok (ext\<lparr>Cadence := word_of_int (fst (Atoi L s))\<rparr>))
      else if Local n = ''atemp'' then
        (case leafText cs of
           None \<Rightarrow> Fail (Error ErrUnexpectedElement)
         | Some s \<Rightarrow> Ok (ext\<lparr>ATemp := fst (ParseFloat L s)\<rparr>))
      else if Local n = ''wtemp'' then
        (case leafText cs of
           None \<Rightarrow> Fail (Error ErrUnexpectedElement)
         | Some s \<Rightarrow> Ok (ext\<lparr>WTemp := fst (ParseFloat L s)\<rparr>))
      else if Local n = ''depth'' then
        (case leafText cs of
           None \<Rightarrow> Fail (Error ErrUnexpectedElement)
         | Some s \<Rightarrow> Ok (ext\<lparr>Depth := fst (ParseFloat L s)\<rparr>))
      else Ok ext)"
| "garminChild L ext node = Ok ext"

section \<open>Unfolding the loops on a token source\<close>

text \<open>
  One step of each loop, for a token source whose next token is known. The defining
  equations are not simplification rules; these are.
\<close>

lemma consumeString_loop_XMLDecoder_Nil [simp]:
  "consumeString_loop s (XMLDecoder [] e) = (Fail (Error e), XMLDecoder [] e)"
  by (simp add: consumeString_loop.simps [of s "XMLDecoder [] e"])

lemma consumeString_loop_XMLDecoder_Cons [simp]:
  "consumeString_loop s (XMLDecoder (tok # ts) e) =
          (case tok of
             CharData cd \<Rightarrow> consumeString_loop (s @ cd) (XMLDecoder ts e)
           | EndElement n \<Rightarrow> (Ok s, (XMLDecoder ts e))
           | _ \<Rightarrow> (Fail (Error ErrUnexpectedElement), (XMLDecoder ts e)))"
  by (simp add: consumeString_loop.simps [of s "XMLDecoder (tok # ts) e"])

lemma consumeString_loop_SliceTokener_Nil [simp]:
  "consumeString_loop s (SliceTokener []) = (Fail Panic, SliceTokener [])"
  by (simp add: consumeString_loop.simps [of s "SliceTokener []"])

lemma consumeString_loop_SliceTokener_None [simp]:
  "consumeString_loop s (SliceTokener (None # ts)) = (Fail (Error EOF), SliceTokener (None # ts))"
  by (simp add: consumeString_loop.simps [of s "SliceTokener (None # ts)"])

lemma consumeString_loop_SliceTokener_Some [simp]:
  "consumeString_loop s (SliceTokener (Some tok # ts)) =
          (case tok of
             CharData cd \<Rightarrow> consumeString_loop (s @ cd) (SliceTokener ts)
           | EndElement n \<Rightarrow> (Ok s, (SliceTokener ts))
           | _ \<Rightarrow> (Fail (Error ErrUnexpectedElement), (SliceTokener ts)))"
  by (simp add: consumeString_loop.simps [of s "SliceTokener (Some tok # ts)"])

lemma skipTag_loop_XMLDecoder_Nil [simp]:
  "skipTag_loop lvl (XMLDecoder [] e) = (Fail (Error e), XMLDecoder [] e)"
  by (simp add: skipTag_loop.simps [of lvl "XMLDecoder [] e"])

lemma skipTag_loop_XMLDecoder_Cons [simp]:
  "skipTag_loop lvl (XMLDecoder (tok # ts) e) =
          (case tok of
             StartElement n as \<Rightarrow> skipTag_loop (lvl + 1) (XMLDecoder ts e)
           | EndElement n \<Rightarrow> if lvl = 0 then (Ok (), (XMLDecoder ts e)) else skipTag_loop (lvl - 1) (XMLDecoder ts e)
           | _ \<Rightarrow> skipTag_loop lvl (XMLDecoder ts e))"
  by (simp add: skipTag_loop.simps [of lvl "XMLDecoder (tok # ts) e"])

lemma skipTag_loop_SliceTokener_Nil [simp]:
  "skipTag_loop lvl (SliceTokener []) = (Fail Panic, SliceTokener [])"
  by (simp add: skipTag_loop.simps [of lvl "SliceTokener []"])

lemma skipTag_loop_SliceTokener_None [simp]:
  "skipTag_loop lvl (SliceTokener (None # ts)) = (Fail (Error EOF), SliceTokener (None # ts))"
  by (simp add: skipTag_loop.simps [of lvl "SliceTokener (None # ts)"])

lemma skipTag_loop_SliceTokener_Some [simp]:
  "skipTag_loop lvl (SliceTokener (Some tok # ts)) =
          (case tok of
             StartElement n as \<Rightarrow> skipTag_loop (lvl + 1) (SliceTokener ts)
           | EndElement n \<Rightarrow> if lvl = 0 then (Ok (), (SliceTokener ts)) else skipTag_loop (lvl - 1) (SliceTokener ts)
           | _ \<Rightarrow> skipTag_loop lvl (SliceTokener ts))"
  by (simp add: skipTag_loop.simps [of lvl "SliceTokener (Some tok # ts)"])

lemma consumeExtensions_loop_XMLDecoder_Nil [simp]:
  "consumeExtensions_loop lvl tokens (XMLDecoder [] e) = (Fail (Error e), XMLDecoder [] e)"
  by (simp add: consumeExtensions_loop.simps [of lvl tokens "XMLDecoder [] e"])

lemma consumeExtensions_loop_XMLDecoder_Cons [simp]:
  "consumeExtensions_loop lvl tokens (XMLDecoder (tok # ts) e) =
          (case tok of
             StartElement n as \<Rightarrow> consumeExtensions_loop (lvl + 1) (tokens @ [tok]) (XMLDecoder ts e)
           | EndElement n \<Rightarrow>
               if lvl = 0 then (Ok tokens, (XMLDecoder ts e))
               else consumeExtensions_loop (lvl - 1) (tokens @ [tok]) (XMLDecoder ts e)
           | _ \<Rightarrow> consumeExtensions_loop lvl (tokens @ [tok]) (XMLDecoder ts e))"
  by (simp add: consumeExtensions_loop.simps [of lvl tokens "XMLDecoder (tok # ts) e"])

lemma consumePoint_loop_XMLDecoder_Nil [simp]:
  "consumePoint_loop L point (XMLDecoder [] e) = (Fail (Error e), XMLDecoder [] e)"
  by (simp add: consumePoint_loop.simps [of L point "XMLDecoder [] e"])

lemma consumePoint_loop_XMLDecoder_Cons [simp]:
  "consumePoint_loop L point (XMLDecoder (tok # ts) e) =
          (case tok of
             StartElement n as \<Rightarrow>
               if Local n = ''ele'' then
                 (case consumeFloat L (XMLDecoder ts e) of
                    (Fail f, ts2) \<Rightarrow> (Fail f, ts2)
                  | (Ok ele, ts2) \<Rightarrow> consumePoint_loop L (point\<lparr>Elevation := ele\<rparr>) ts2)
               else if Local n = ''time'' then
                 (case consumeTime L (XMLDecoder ts e) of
                    (Fail f, ts2) \<Rightarrow> (Fail f, ts2)
                  | (Ok t, ts2) \<Rightarrow> consumePoint_loop L (point\<lparr>Time := t\<rparr>) ts2)
               else if Local n = ''extensions'' then
                 (case consumeExtensions (n, as) (XMLDecoder ts e) of
                    (Fail f, ts2) \<Rightarrow> (Fail f, ts2)
                  | (Ok exts, ts2) \<Rightarrow> consumePoint_loop L (point\<lparr>Extensions := exts\<rparr>) ts2)
               else
                 (case skipTag (XMLDecoder ts e) of
                    (Fail f, ts2) \<Rightarrow> (Fail f, ts2)
                  | (Ok u, ts2) \<Rightarrow> consumePoint_loop L point ts2)
           | EndElement n \<Rightarrow> (Ok point, (XMLDecoder ts e))
           | _ \<Rightarrow> consumePoint_loop L point (XMLDecoder ts e))"
  by (simp add: consumePoint_loop.simps [of L point "XMLDecoder (tok # ts) e"])

lemma consumeSegment_loop_XMLDecoder_Nil [simp]:
  "consumeSegment_loop L strict seg (XMLDecoder [] e) = (Fail (Error e), XMLDecoder [] e)"
  by (simp add: consumeSegment_loop.simps [of L strict seg "XMLDecoder [] e"])

lemma consumeSegment_loop_XMLDecoder_Cons [simp]:
  "consumeSegment_loop L strict seg (XMLDecoder (tok # ts) e) =
          (case tok of
             StartElement n as \<Rightarrow>
               if Local n = ''trkpt'' then
                 (case consumePoint L strict (n, as) (XMLDecoder ts e) of
                    (Fail f, ts2) \<Rightarrow> (Fail f, ts2)
                  | (Ok point, ts2) \<Rightarrow>
                      consumeSegment_loop L strict (seg\<lparr>Points := Points seg @ [point]\<rparr>) ts2)
               else
                 (case skipTag (XMLDecoder ts e) of
                    (Fail f, ts2) \<Rightarrow> (Fail f, ts2)
                  | (Ok u, ts2) \<Rightarrow> consumeSegment_loop L strict seg ts2)
           | EndElement n \<Rightarrow> (Ok seg, (XMLDecoder ts e))
           | _ \<Rightarrow> consumeSegment_loop L strict seg (XMLDecoder ts e))"
  by (simp add: consumeSegment_loop.simps [of L strict seg "XMLDecoder (tok # ts) e"])

lemma consumeTrack_loop_XMLDecoder_Nil [simp]:
  "consumeTrack_loop L strict track (XMLDecoder [] e) = (Fail (Error e), XMLDecoder [] e)"
  by (simp add: consumeTrack_loop.simps [of L strict track "XMLDecoder [] e"])

lemma consumeTrack_loop_XMLDecoder_Cons [simp]:
  "consumeTrack_loop L strict track (XMLDecoder (tok # ts) e) =
          (case tok of
             StartElement n as \<Rightarrow>
               if Local n = ''trkseg'' then
                 (case consumeSegment L strict (n, as) (XMLDecoder ts e) of
                    (Fail f, ts2) \<Rightarrow> (Fail f, ts2)
                  | (Ok seg, ts2) \<Rightarrow>
                      consumeTrack_loop L strict
                        (track\<lparr>Segments := Segments track @ [seg]\<rparr>) ts2)
               else
                 (case skipTag (XMLDecoder ts e) of
                    (Fail f, ts2) \<Rightarrow> (Fail f, ts2)
                  | (Ok u, ts2) \<Rightarrow> consumeTrack_loop L strict track ts2)
           | EndElement n \<Rightarrow> (Ok track, (XMLDecoder ts e))
           | _ \<Rightarrow> consumeTrack_loop L strict track (XMLDecoder ts e))"
  by (simp add: consumeTrack_loop.simps [of L strict track "XMLDecoder (tok # ts) e"])

lemma consumeMetadata_loop_XMLDecoder_Nil [simp]:
  "consumeMetadata_loop L metadata (XMLDecoder [] e) = (Fail (Error e), XMLDecoder [] e)"
  by (simp add: consumeMetadata_loop.simps [of L metadata "XMLDecoder [] e"])

lemma consumeMetadata_loop_XMLDecoder_Cons [simp]:
  "consumeMetadata_loop L metadata (XMLDecoder (tok # ts) e) =
          (case tok of
             StartElement n as \<Rightarrow>
               if Local n = ''time'' then
                 (case consumeTime L (XMLDecoder ts e) of
                    (Fail f, ts2) \<Rightarrow> (Fail f, ts2)
                  | (Ok t, ts2) \<Rightarrow>
                      consumeMetadata_loop L (metadata\<lparr>Metadata.Time := t\<rparr>) ts2)
               else
                 (case skipTag (XMLDecoder ts e) of
                    (Fail f, ts2) \<Rightarrow> (Fail f, ts2)
                  | (Ok u, ts2) \<Rightarrow> consumeMetadata_loop L metadata ts2)
           | EndElement n \<Rightarrow> (Ok metadata, (XMLDecoder ts e))
           | _ \<Rightarrow> consumeMetadata_loop L metadata (XMLDecoder ts e))"
  by (simp add: consumeMetadata_loop.simps [of L metadata "XMLDecoder (tok # ts) e"])

lemma findGPX_XMLDecoder_Nil [simp]:
  "findGPX (XMLDecoder [] e) = (Fail (Error e), XMLDecoder [] e)"
  by (simp add: findGPX.simps [of  "XMLDecoder [] e"])

lemma findGPX_XMLDecoder_Cons [simp]:
  "findGPX (XMLDecoder (tok # ts) e) =
          (case tok of
             StartElement n as \<Rightarrow>
               if Local n \<noteq> ''gpx'' then (Fail (Error ErrBadRootTag), (XMLDecoder ts e))
               else if Space n \<noteq> nsGPX11 then (Fail (Error ErrGPX11Only), (XMLDecoder ts e))
               else (Ok (n, as), (XMLDecoder ts e))
           | _ \<Rightarrow> findGPX (XMLDecoder ts e))"
  by (simp add: findGPX.simps [of  "XMLDecoder (tok # ts) e"])

lemma consumeGPX_loop_XMLDecoder_Nil [simp]:
  "consumeGPX_loop L strict doc (XMLDecoder [] e) = (Fail (Error e), XMLDecoder [] e)"
  by (simp add: consumeGPX_loop.simps [of L strict doc "XMLDecoder [] e"])

lemma consumeGPX_loop_XMLDecoder_Cons [simp]:
  "consumeGPX_loop L strict doc (XMLDecoder (tok # ts) e) =
          (case tok of
             StartElement n as \<Rightarrow>
               if Local n = ''trk'' then
                 (case consumeTrack L strict (n, as) (XMLDecoder ts e) of
                    (Fail f, ts2) \<Rightarrow> (Fail f, ts2)
                  | (Ok track, ts2) \<Rightarrow>
                      consumeGPX_loop L strict (doc\<lparr>Tracks := Tracks doc @ [track]\<rparr>) ts2)
               else if Local n = ''metadata'' then
                 (case consumeMetadata L strict (n, as) (XMLDecoder ts e) of
                    (Fail f, ts2) \<Rightarrow> (Fail f, ts2)
                  | (Ok metadata, ts2) \<Rightarrow>
                      consumeGPX_loop L strict (doc\<lparr>Metadata := metadata\<rparr>) ts2)
               else
                 (case skipTag (XMLDecoder ts e) of
                    (Fail f, ts2) \<Rightarrow> (Fail f, ts2)
                  | (Ok u, ts2) \<Rightarrow> consumeGPX_loop L strict doc ts2)
           | EndElement n \<Rightarrow> (Ok doc, (XMLDecoder ts e))
           | _ \<Rightarrow> consumeGPX_loop L strict doc (XMLDecoder ts e))"
  by (simp add: consumeGPX_loop.simps [of L strict doc "XMLDecoder (tok # ts) e"])

lemma consumeEle_lc_loop_XMLDecoder_Nil [simp]:
  "consumeEle_lc_loop L strict ele (XMLDecoder [] e) = (Fail (Error e), XMLDecoder [] e)"
  by (simp add: consumeEle_lc_loop.simps [of L strict ele "XMLDecoder [] e"])

lemma consumeEle_lc_loop_XMLDecoder_Cons [simp]:
  "consumeEle_lc_loop L strict ele (XMLDecoder (tok # ts) e) =
          (case tok of
             CharData cd \<Rightarrow>
               (case ParseFloat L cd of
                  (v, None) \<Rightarrow> consumeEle_lc_loop L strict v (XMLDecoder ts e)
                | (v, Some err) \<Rightarrow>
                    if strict then (Fail (Error (ErrInvalidEle err)), (XMLDecoder ts e))
                    else consumeEle_lc_loop L strict v (XMLDecoder ts e))
           | StartElement n as \<Rightarrow> (Fail (Error ErrInvalidEleElement), (XMLDecoder ts e))
           | EndElement n \<Rightarrow> (Ok ele, (XMLDecoder ts e))
           | _ \<Rightarrow> consumeEle_lc_loop L strict ele (XMLDecoder ts e))"
  by (simp add: consumeEle_lc_loop.simps [of L strict ele "XMLDecoder (tok # ts) e"])

lemma consumeTime_lc_loop_XMLDecoder_Nil [simp]:
  "consumeTime_lc_loop L strict t (XMLDecoder [] e) = (Fail (Error e), XMLDecoder [] e)"
  by (simp add: consumeTime_lc_loop.simps [of L strict t "XMLDecoder [] e"])

lemma consumeTime_lc_loop_XMLDecoder_Cons [simp]:
  "consumeTime_lc_loop L strict t (XMLDecoder (tok # ts) e) =
          (case tok of
             CharData cd \<Rightarrow>
               (case time_Parse L cd of
                  (v, None) \<Rightarrow> consumeTime_lc_loop L strict v (XMLDecoder ts e)
                | (v, Some err) \<Rightarrow>
                    if strict then (Fail (Error (ErrInvalidTime err)), (XMLDecoder ts e))
                    else consumeTime_lc_loop L strict v (XMLDecoder ts e))
           | StartElement n as \<Rightarrow> (Fail (Error ErrInvalidTimeElement), (XMLDecoder ts e))
           | EndElement n \<Rightarrow> (Ok t, (XMLDecoder ts e))
           | _ \<Rightarrow> consumeTime_lc_loop L strict t (XMLDecoder ts e))"
  by (simp add: consumeTime_lc_loop.simps [of L strict t "XMLDecoder (tok # ts) e"])

lemma consumeExtensions_lc_loop_XMLDecoder_Nil [simp]:
  "consumeExtensions_lc_loop lvl tokens (XMLDecoder [] e) = (Fail (Error e), XMLDecoder [] e)"
  by (simp add: consumeExtensions_lc_loop.simps [of lvl tokens "XMLDecoder [] e"])

lemma consumeExtensions_lc_loop_XMLDecoder_Cons [simp]:
  "consumeExtensions_lc_loop lvl tokens (XMLDecoder (tok # ts) e) =
          (case tok of
             StartElement n as \<Rightarrow> consumeExtensions_lc_loop (lvl + 1) (tokens @ [tok]) (XMLDecoder ts e)
           | EndElement n \<Rightarrow>
               if lvl = 0 \<and> Local n = ''extensions'' then (Ok tokens, (XMLDecoder ts e))
               else consumeExtensions_lc_loop (lvl - 1) (tokens @ [tok]) (XMLDecoder ts e)
           | _ \<Rightarrow> consumeExtensions_lc_loop lvl (tokens @ [tok]) (XMLDecoder ts e))"
  by (simp add: consumeExtensions_lc_loop.simps [of lvl tokens "XMLDecoder (tok # ts) e"])

lemma consumePoint_lc_loop_XMLDecoder_Nil [simp]:
  "consumePoint_lc_loop L strict lvl point (XMLDecoder [] e) = (Fail (Error e), XMLDecoder [] e)"
  by (simp add: consumePoint_lc_loop.simps [of L strict lvl point "XMLDecoder [] e"])

lemma consumePoint_lc_loop_XMLDecoder_Cons [simp]:
  "consumePoint_lc_loop L strict lvl point (XMLDecoder (tok # ts) e) =
          (case tok of
             StartElement n as \<Rightarrow>
               if lvl = 0 \<and> Local n = ''ele'' then
                 (case consumeEle_lc L strict (n, as) (XMLDecoder ts e) of
                    (Fail f, ts2) \<Rightarrow> (Fail f, ts2)
                  | (Ok ele, ts2) \<Rightarrow>
                      consumePoint_lc_loop L strict lvl (point\<lparr>Elevation := ele\<rparr>) ts2)
               else if lvl = 0 \<and> Local n = ''time'' then
                 (case consumeTime_lc L strict (n, as) (XMLDecoder ts e) of
                    (Fail f, ts2) \<Rightarrow> (Fail f, ts2)
                  | (Ok t, ts2) \<Rightarrow>
                      consumePoint_lc_loop L strict lvl (point\<lparr>Time := t\<rparr>) ts2)
               else if lvl = 0 \<and> Local n = ''extensions'' then
                 (case consumeExtensions_lc (n, as) (XMLDecoder ts e) of
                    (Fail f, ts2) \<Rightarrow> (Fail f, ts2)
                  | (Ok exts, ts2) \<Rightarrow>
                      consumePoint_lc_loop L strict lvl (point\<lparr>Extensions := exts\<rparr>) ts2)
               else consumePoint_lc_loop L strict (lvl + 1) point (XMLDecoder ts e)
           | EndElement n \<Rightarrow>
               if lvl = 0 \<and> Local n = ''trkpt'' then (Ok point, (XMLDecoder ts e))
               else consumePoint_lc_loop L strict (lvl - 1) point (XMLDecoder ts e)
           | _ \<Rightarrow> consumePoint_lc_loop L strict lvl point (XMLDecoder ts e))"
  by (simp add: consumePoint_lc_loop.simps [of L strict lvl point "XMLDecoder (tok # ts) e"])

lemma consumeSegment_lc_loop_XMLDecoder_Nil [simp]:
  "consumeSegment_lc_loop L strict lvl seg (XMLDecoder [] e) = (Fail (Error e), XMLDecoder [] e)"
  by (simp add: consumeSegment_lc_loop.simps [of L strict lvl seg "XMLDecoder [] e"])

lemma consumeSegment_lc_loop_XMLDecoder_Cons [simp]:
  "consumeSegment_lc_loop L strict lvl seg (XMLDecoder (tok # ts) e) =
          (case tok of
             StartElement n as \<Rightarrow>
               if lvl = 0 \<and> Local n = ''trkpt'' then
                 (case consumePoint_lc L strict (n, as) (XMLDecoder ts e) of
                    (Fail f, ts2) \<Rightarrow> (Fail f, ts2)
                  | (Ok point, ts2) \<Rightarrow>
                      consumeSegment_lc_loop L strict lvl
                        (seg\<lparr>Points := Points seg @ [point]\<rparr>) ts2)
               else consumeSegment_lc_loop L strict (lvl + 1) seg (XMLDecoder ts e)
           | EndElement n \<Rightarrow>
               if lvl = 0 \<and> Local n = ''trkseg'' then (Ok seg, (XMLDecoder ts e))
               else consumeSegment_lc_loop L strict (lvl - 1) seg (XMLDecoder ts e)
           | _ \<Rightarrow> consumeSegment_lc_loop L strict lvl seg (XMLDecoder ts e))"
  by (simp add: consumeSegment_lc_loop.simps [of L strict lvl seg "XMLDecoder (tok # ts) e"])

lemma consumeTrack_lc_loop_XMLDecoder_Nil [simp]:
  "consumeTrack_lc_loop L strict lvl track (XMLDecoder [] e) = (Fail (Error e), XMLDecoder [] e)"
  by (simp add: consumeTrack_lc_loop.simps [of L strict lvl track "XMLDecoder [] e"])

lemma consumeTrack_lc_loop_XMLDecoder_Cons [simp]:
  "consumeTrack_lc_loop L strict lvl track (XMLDecoder (tok # ts) e) =
          (case tok of
             StartElement n as \<Rightarrow>
               if lvl = 0 \<and> Local n = ''trkseg'' then
                 (case consumeSegment_lc L strict (n, as) (XMLDecoder ts e) of
                    (Fail f, ts2) \<Rightarrow> (Fail f, ts2)
                  | (Ok seg, ts2) \<Rightarrow>
                      consumeTrack_lc_loop L strict lvl
                        (track\<lparr>Segments := Segments track @ [seg]\<rparr>) ts2)
               else consumeTrack_lc_loop L strict (lvl + 1) track (XMLDecoder ts e)
           | EndElement n \<Rightarrow>
               if lvl = 0 \<and> Local n = ''trk'' then (Ok track, (XMLDecoder ts e))
               else consumeTrack_lc_loop L strict (lvl - 1) track (XMLDecoder ts e)
           | _ \<Rightarrow> consumeTrack_lc_loop L strict lvl track (XMLDecoder ts e))"
  by (simp add: consumeTrack_lc_loop.simps [of L strict lvl track "XMLDecoder (tok # ts) e"])

lemma consumeMetadata_lc_loop_XMLDecoder_Nil [simp]:
  "consumeMetadata_lc_loop L strict lvl metadata (XMLDecoder [] e) = (Fail (Error e), XMLDecoder [] e)"
  by (simp add: consumeMetadata_lc_loop.simps [of L strict lvl metadata "XMLDecoder [] e"])

lemma consumeMetadata_lc_loop_XMLDecoder_Cons [simp]:
  "consumeMetadata_lc_loop L strict lvl metadata (XMLDecoder (tok # ts) e) =
          (case tok of
             StartElement n as \<Rightarrow>
               if lvl = 0 \<and> Local n = ''time'' then
                 (case consumeTime_lc L strict (n, as) (XMLDecoder ts e) of
                    (Fail f, ts2) \<Rightarrow> (Fail f, ts2)
                  | (Ok t, ts2) \<Rightarrow>
                      consumeMetadata_lc_loop L strict lvl
                        (metadata\<lparr>Metadata.Time := t\<rparr>) ts2)
               else consumeMetadata_lc_loop L strict (lvl + 1) metadata (XMLDecoder ts e)
           | EndElement n \<Rightarrow>
               if lvl = 0 \<and> Local n = ''metadata'' then (Ok metadata, (XMLDecoder ts e))
               else consumeMetadata_lc_loop L strict (lvl - 1) metadata (XMLDecoder ts e)
           | _ \<Rightarrow> consumeMetadata_lc_loop L strict lvl metadata (XMLDecoder ts e))"
  by (simp add: consumeMetadata_lc_loop.simps [of L strict lvl metadata "XMLDecoder (tok # ts) e"])

lemma consumeGPX_lc_loop_XMLDecoder_Nil [simp]:
  "consumeGPX_lc_loop L strict lvl doc (XMLDecoder [] e) = (Fail (Error e), XMLDecoder [] e)"
  by (simp add: consumeGPX_lc_loop.simps [of L strict lvl doc "XMLDecoder [] e"])

lemma consumeGPX_lc_loop_XMLDecoder_Cons [simp]:
  "consumeGPX_lc_loop L strict lvl doc (XMLDecoder (tok # ts) e) =
          (case tok of
             StartElement n as \<Rightarrow>
               if lvl = 0 \<and> Local n = ''trk'' then
                 (case consumeTrack_lc L strict (n, as) (XMLDecoder ts e) of
                    (Fail f, ts2) \<Rightarrow> (Fail f, ts2)
                  | (Ok track, ts2) \<Rightarrow>
                      consumeGPX_lc_loop L strict lvl
                        (doc\<lparr>Tracks := Tracks doc @ [track]\<rparr>) ts2)
               else if lvl = 0 \<and> Local n = ''metadata'' then
                 (case consumeMetadata_lc L strict (n, as) (XMLDecoder ts e) of
                    (Fail f, ts2) \<Rightarrow> (Fail f, ts2)
                  | (Ok metadata, ts2) \<Rightarrow>
                      consumeGPX_lc_loop L strict lvl (doc\<lparr>Metadata := metadata\<rparr>) ts2)
               else consumeGPX_lc_loop L strict (lvl + 1) doc (XMLDecoder ts e)
           | EndElement n \<Rightarrow>
               if lvl = 0 \<and> Local n = ''gpx'' then (Ok doc, (XMLDecoder ts e))
               else consumeGPX_lc_loop L strict (lvl - 1) doc (XMLDecoder ts e)
           | _ \<Rightarrow> consumeGPX_lc_loop L strict lvl doc (XMLDecoder ts e))"
  by (simp add: consumeGPX_lc_loop.simps [of L strict lvl doc "XMLDecoder (tok # ts) e"])

lemma ParseGarminTrackPointExtension_loop_SliceTokener_Nil [simp]:
  "ParseGarminTrackPointExtension_loop L e (SliceTokener []) = (Fail Panic, SliceTokener [])"
  by (simp add: ParseGarminTrackPointExtension_loop.simps [of L e "SliceTokener []"])

lemma ParseGarminTrackPointExtension_loop_SliceTokener_None [simp]:
  "ParseGarminTrackPointExtension_loop L e (SliceTokener (None # ts)) = (Fail (Error EOF), SliceTokener (None # ts))"
  by (simp add: ParseGarminTrackPointExtension_loop.simps [of L e "SliceTokener (None # ts)"])

lemma ParseGarminTrackPointExtension_loop_SliceTokener_Some [simp]:
  "ParseGarminTrackPointExtension_loop L e (SliceTokener (Some tok # ts)) =
          (case tok of
             StartElement n as \<Rightarrow>
               if Space n \<noteq> GarminTrackPointExtensionNS then
                 (case skipTag (SliceTokener ts) of
                    (Fail Panic, ts2) \<Rightarrow> (Fail Panic, ts2)
                  | (r, ts2) \<Rightarrow> ParseGarminTrackPointExtension_loop L e ts2)
               else if Local n = ''hr'' then
                 (case consumeString (SliceTokener ts) of
                    (Fail f, ts2) \<Rightarrow> (Fail f, ts2)
                  | (Ok s, ts2) \<Rightarrow>
                      ParseGarminTrackPointExtension_loop L
                        (e\<lparr>HeartRate := word_of_int (fst (Atoi L s))\<rparr>) ts2)
               else if Local n = ''cad'' then
                 (case consumeString (SliceTokener ts) of
                    (Fail f, ts2) \<Rightarrow> (Fail f, ts2)
                  | (Ok s, ts2) \<Rightarrow>
                      ParseGarminTrackPointExtension_loop L
                        (e\<lparr>Cadence := word_of_int (fst (Atoi L s))\<rparr>) ts2)
               else if Local n = ''atemp'' then
                 (case consumeString (SliceTokener ts) of
                    (Fail f, ts2) \<Rightarrow> (Fail f, ts2)
                  | (Ok s, ts2) \<Rightarrow>
                      ParseGarminTrackPointExtension_loop L
                        (e\<lparr>ATemp := fst (ParseFloat L s)\<rparr>) ts2)
               else if Local n = ''wtemp'' then
                 (case consumeString (SliceTokener ts) of
                    (Fail f, ts2) \<Rightarrow> (Fail f, ts2)
                  | (Ok s, ts2) \<Rightarrow>
                      ParseGarminTrackPointExtension_loop L
                        (e\<lparr>WTemp := fst (ParseFloat L s)\<rparr>) ts2)
               else if Local n = ''depth'' then
                 (case consumeString (SliceTokener ts) of
                    (Fail f, ts2) \<Rightarrow> (Fail f, ts2)
                  | (Ok s, ts2) \<Rightarrow>
                      ParseGarminTrackPointExtension_loop L
                        (e\<lparr>Depth := fst (ParseFloat L s)\<rparr>) ts2)
               else
                 (case skipTag (SliceTokener ts) of
                    (Fail Panic, ts2) \<Rightarrow> (Fail Panic, ts2)
                  | (r, ts2) \<Rightarrow> ParseGarminTrackPointExtension_loop L e ts2)
           | EndElement n \<Rightarrow> (Ok e, (SliceTokener ts))
           | _ \<Rightarrow> ParseGarminTrackPointExtension_loop L e (SliceTokener ts))"
  by (simp add: ParseGarminTrackPointExtension_loop.simps [of L e "SliceTokener (Some tok # ts)"])


lemma findExtension_SliceTokener_Nil [simp]:
  "findExtension (SliceTokener []) space local = (Fail Panic, SliceTokener [])"
  by (simp add: findExtension.simps [of "SliceTokener []" space local])

lemma findExtension_SliceTokener_None [simp]:
  "findExtension (SliceTokener (None # ts)) space local = (Ok False, SliceTokener (None # ts))"
  by (simp add: findExtension.simps [of "SliceTokener (None # ts)" space local])

lemma findExtension_SliceTokener_Some [simp]:
  "findExtension (SliceTokener (Some tok # ts)) space local =
     (case tok of
        StartElement n as \<Rightarrow>
          if Space n = space \<and> Local n = local then (Ok True, SliceTokener ts)
          else
            (case skipTag (SliceTokener ts) of
               (Fail Panic, ts2) \<Rightarrow> (Fail Panic, ts2)
             | (r, ts2) \<Rightarrow> findExtension ts2 space local)
      | EndElement n \<Rightarrow> (Ok False, SliceTokener ts)
      | _ \<Rightarrow> findExtension (SliceTokener ts) space local)"
  by (simp add: findExtension.simps [of "SliceTokener (Some tok # ts)" space local])

section \<open>The loops on the flattening of a tree\<close>

text \<open>
  A balanced run of tokens is skipped or copied as a whole, a leaf is read as the
  concatenation of its character data, and each loop of the decoder, run on the tokens
  of a list of nodes, does to its variable what the tree reading of the loop says.
\<close>

lemma skipTag_loop_tokensOf:
  "skipTag_loop lvl (XMLDecoder (tokensOf node @ rest) e) = skipTag_loop lvl (XMLDecoder rest e)"
proof (induction node arbitrary: lvl rest)
  case (Element n as cs)
  have children: "skipTag_loop l (XMLDecoder (concat (map tokensOf cs) @ r) e)
      = skipTag_loop l (XMLDecoder r e)" for l r
    using Element.IH by (induction cs) simp_all
  show ?case by (simp add: children)
qed simp_all

lemma skipTag_loop_tokensOfList:
  "skipTag_loop lvl (XMLDecoder (tokensOfList cs @ rest) e) = skipTag_loop lvl (XMLDecoder rest e)"
  unfolding tokensOfList_def by (induction cs) (simp_all add: skipTag_loop_tokensOf)

lemma skipTag_element:
  "skipTag (XMLDecoder (tokensOfList cs @ EndElement m # rest) e) = (Ok (), XMLDecoder rest e)"
  by (simp add: skipTag_def skipTag_loop_tokensOfList)

lemma skipTag_loop_tokensOf_slice:
  "skipTag_loop lvl (SliceTokener (map Some (tokensOf node) @ rest))
    = skipTag_loop lvl (SliceTokener rest)"
proof (induction node arbitrary: lvl rest)
  case (Element n as cs)
  have children: "skipTag_loop l (SliceTokener (map Some (concat (map tokensOf cs)) @ r))
      = skipTag_loop l (SliceTokener r)" for l r
    using Element.IH by (induction cs) simp_all
  show ?case by (simp add: children)
qed simp_all

lemma consumeExtensions_loop_tokensOf:
  "consumeExtensions_loop lvl tokens (XMLDecoder (tokensOf node @ rest) e)
    = consumeExtensions_loop lvl (tokens @ tokensOf node) (XMLDecoder rest e)"
proof (induction node arbitrary: lvl tokens rest)
  case (Element n as cs)
  have children: "consumeExtensions_loop l acc (XMLDecoder (concat (map tokensOf cs) @ r) e)
      = consumeExtensions_loop l (acc @ concat (map tokensOf cs)) (XMLDecoder r e)" for l acc r
    using Element.IH by (induction cs arbitrary: acc) simp_all
  show ?case by (simp add: children)
qed simp_all

lemma consumeExtensions_loop_tokensOfList:
  "consumeExtensions_loop lvl tokens (XMLDecoder (tokensOfList cs @ rest) e)
    = consumeExtensions_loop lvl (tokens @ tokensOfList cs) (XMLDecoder rest e)"
  unfolding tokensOfList_def
  by (induction cs arbitrary: tokens) (simp_all add: consumeExtensions_loop_tokensOf)

lemma consumeExtensions_element:
  "consumeExtensions se (XMLDecoder (tokensOfList cs @ EndElement m # rest) e)
    = (Ok (tokensOfList cs), XMLDecoder rest e)"
  by (simp add: consumeExtensions_def consumeExtensions_loop_tokensOfList)


lemma fst_propagate_Fail:
  "fst p = Fail f \<Longrightarrow>
    fst (case p of (Fail f, ts) \<Rightarrow> (Fail f, ts) | (Ok v, ts) \<Rightarrow> g v ts) = Fail f"
  by (cases p) auto

lemma tokensOfList_simps [simp]:
  "tokensOfList [] = []"
  "tokensOfList (c # cs) = tokensOf c @ tokensOfList cs"
  "tokensOfList (cs @ ds) = tokensOfList cs @ tokensOfList ds"
  by (simp_all add: tokensOfList_def)

lemma leafText_Some_tokens:
  "leafText cs = Some t \<Longrightarrow>
    consumeString_loop s (XMLDecoder (tokensOfList cs @ EndElement m # rest) e)
      = (Ok (s @ t), XMLDecoder rest e)"
proof (induction cs arbitrary: s t)
  case Nil
  then show ?case by simp
next
  case (Cons c cs)
  then show ?case by (cases c) (auto split: option.splits)
qed

lemma leafText_None_tokens:
  "leafText cs = None \<Longrightarrow>
    fst (consumeString_loop s (XMLDecoder (tokensOfList cs @ rest) e))
      = Fail (Error ErrUnexpectedElement)"
proof (induction cs arbitrary: s)
  case Nil
  then show ?case by simp
next
  case (Cons c cs)
  then show ?case by (cases c) (auto split: option.splits)
qed

lemma consumeFloat_leaf_Ok:
  "leafFloat L cs = Ok v \<Longrightarrow>
    consumeFloat L (XMLDecoder (tokensOfList cs @ EndElement m # rest) e)
      = (Ok v, XMLDecoder rest e)"
  by (auto simp: leafFloat_def consumeFloat_def consumeString_def leafText_Some_tokens
      split: option.splits prod.splits)

lemma consumeFloat_leaf_Fail:
  "leafFloat L cs = Fail f \<Longrightarrow>
    fst (consumeFloat L (XMLDecoder (tokensOfList cs @ EndElement m # rest) e)) = Fail f"
proof (cases "leafText cs")
  case None
  assume "leafFloat L cs = Fail f"
  with None have f: "f = Error ErrUnexpectedElement" by (simp add: leafFloat_def)
  obtain r ts where c: "consumeString (XMLDecoder (tokensOfList cs @ EndElement m # rest) e) = (r, ts)"
    by (cases "consumeString (XMLDecoder (tokensOfList cs @ EndElement m # rest) e)")
  with leafText_None_tokens [OF None, of "[]" "EndElement m # rest" e]
  have "r = Fail (Error ErrUnexpectedElement)" by (simp add: consumeString_def)
  with c f show ?thesis by (simp add: consumeFloat_def)
next
  case (Some s)
  assume "leafFloat L cs = Fail f"
  with Some show ?thesis
    by (auto simp: leafFloat_def consumeFloat_def consumeString_def leafText_Some_tokens
        split: option.splits prod.splits)
qed

lemma consumeTime_leaf_Ok:
  "leafTime L cs = Ok v \<Longrightarrow>
    consumeTime L (XMLDecoder (tokensOfList cs @ EndElement m # rest) e)
      = (Ok v, XMLDecoder rest e)"
  by (auto simp: leafTime_def consumeTime_def consumeString_def leafText_Some_tokens
      split: option.splits prod.splits)

lemma consumeTime_leaf_Fail:
  "leafTime L cs = Fail f \<Longrightarrow>
    fst (consumeTime L (XMLDecoder (tokensOfList cs @ EndElement m # rest) e)) = Fail f"
proof (cases "leafText cs")
  case None
  assume "leafTime L cs = Fail f"
  with None have f: "f = Error ErrUnexpectedElement" by (simp add: leafTime_def)
  obtain r ts where c: "consumeString (XMLDecoder (tokensOfList cs @ EndElement m # rest) e) = (r, ts)"
    by (cases "consumeString (XMLDecoder (tokensOfList cs @ EndElement m # rest) e)")
  with leafText_None_tokens [OF None, of "[]" "EndElement m # rest" e]
  have "r = Fail (Error ErrUnexpectedElement)" by (simp add: consumeString_def)
  with c f show ?thesis by (simp add: consumeTime_def)
next
  case (Some s)
  assume "leafTime L cs = Fail f"
  with Some show ?thesis
    by (auto simp: leafTime_def consumeTime_def consumeString_def leafText_Some_tokens
        split: option.splits prod.splits)
qed

lemma consumePoint_loop_node_Ok:
  "pointChild L point c = Ok point' \<Longrightarrow>
    consumePoint_loop L point (XMLDecoder (tokensOf c @ rest) e)
      = consumePoint_loop L point' (XMLDecoder rest e)"
proof (cases c)
  case (Element n as cs)
  assume "pointChild L point c = Ok point'"
  with Element show ?thesis
    by (auto simp: consumeFloat_leaf_Ok consumeTime_leaf_Ok consumeExtensions_element
        skipTag_element tokensOfList_def [symmetric] split: if_splits result.splits)
qed auto

lemma consumePoint_loop_node_Fail:
  "pointChild L point c = Fail f \<Longrightarrow>
    fst (consumePoint_loop L point (XMLDecoder (tokensOf c @ rest) e)) = Fail f"
proof (cases c)
  case (Element n as cs)
  assume "pointChild L point c = Fail f"
  with Element show ?thesis
    by (auto simp: consumeFloat_leaf_Fail consumeTime_leaf_Fail fst_propagate_Fail
        tokensOfList_def [symmetric] split: if_splits result.splits)
qed auto

lemma consumePoint_loop_nodes_Ok:
  "foldNodes (pointChild L) point cs = Ok point' \<Longrightarrow>
    consumePoint_loop L point (XMLDecoder (tokensOfList cs @ rest) e)
      = consumePoint_loop L point' (XMLDecoder rest e)"
  by (induction cs arbitrary: point)
     (auto simp: consumePoint_loop_node_Ok split: result.splits)

lemma consumePoint_loop_nodes_Fail:
  "foldNodes (pointChild L) point cs = Fail f \<Longrightarrow>
    fst (consumePoint_loop L point (XMLDecoder (tokensOfList cs @ rest) e)) = Fail f"
  by (induction cs arbitrary: point)
     (auto simp: consumePoint_loop_node_Ok consumePoint_loop_node_Fail split: result.splits)

lemma consumePoint_element_Ok:
  "pointOfElement L strict as cs = Ok point \<Longrightarrow>
    consumePoint L strict (n, as) (XMLDecoder (tokensOfList cs @ EndElement m # rest) e)
      = (Ok point, XMLDecoder rest e)"
  by (auto simp: pointOfElement_def consumePoint_def consumePoint_loop_nodes_Ok
      split: result.splits)

lemma consumePoint_element_Fail:
  "pointOfElement L strict as cs = Fail f \<Longrightarrow>
    fst (consumePoint L strict (n, as) (XMLDecoder (tokensOfList cs @ EndElement m # rest) e))
      = Fail f"
  by (auto simp: pointOfElement_def consumePoint_def consumePoint_loop_nodes_Fail
      split: result.splits)


lemma consumeSegment_loop_node_Ok:
  "segmentChild L strict seg c = Ok seg' \<Longrightarrow>
    consumeSegment_loop L strict seg (XMLDecoder (tokensOf c @ rest) e)
      = consumeSegment_loop L strict seg' (XMLDecoder rest e)"
proof (cases c)
  case (Element n as cs)
  assume "segmentChild L strict seg c = Ok seg'"
  with Element show ?thesis
    by (auto simp: consumePoint_element_Ok skipTag_element 
        tokensOfList_def [symmetric] split: if_splits result.splits)
qed auto

lemma consumeSegment_loop_node_Fail:
  "segmentChild L strict seg c = Fail f \<Longrightarrow>
    fst (consumeSegment_loop L strict seg (XMLDecoder (tokensOf c @ rest) e)) = Fail f"
proof (cases c)
  case (Element n as cs)
  assume "segmentChild L strict seg c = Fail f"
  with Element show ?thesis
    by (auto simp: consumePoint_element_Fail fst_propagate_Fail 
        tokensOfList_def [symmetric] split: if_splits result.splits)
qed auto

lemma consumeSegment_loop_nodes_Ok:
  "foldNodes (segmentChild L strict) seg cs = Ok seg' \<Longrightarrow>
    consumeSegment_loop L strict seg (XMLDecoder (tokensOfList cs @ rest) e)
      = consumeSegment_loop L strict seg' (XMLDecoder rest e)"
  by (induction cs arbitrary: seg)
     (auto simp: consumeSegment_loop_node_Ok split: result.splits)

lemma consumeSegment_loop_nodes_Fail:
  "foldNodes (segmentChild L strict) seg cs = Fail f \<Longrightarrow>
    fst (consumeSegment_loop L strict seg (XMLDecoder (tokensOfList cs @ rest) e)) = Fail f"
  by (induction cs arbitrary: seg)
     (auto simp: consumeSegment_loop_node_Ok consumeSegment_loop_node_Fail split: result.splits)

lemma consumeSegment_element_Ok:
  "foldNodes (segmentChild L strict) Segment0 cs = Ok seg \<Longrightarrow>
    consumeSegment L strict se (XMLDecoder (tokensOfList cs @ EndElement m # rest) e)
      = (Ok seg, XMLDecoder rest e)"
  by (simp add: consumeSegment_def consumeSegment_loop_nodes_Ok)

lemma consumeSegment_element_Fail:
  "foldNodes (segmentChild L strict) Segment0 cs = Fail f \<Longrightarrow>
    fst (consumeSegment L strict se (XMLDecoder (tokensOfList cs @ EndElement m # rest) e))
      = Fail f"
  by (simp add: consumeSegment_def consumeSegment_loop_nodes_Fail)

lemma consumeTrack_loop_node_Ok:
  "trackChild L strict track c = Ok track' \<Longrightarrow>
    consumeTrack_loop L strict track (XMLDecoder (tokensOf c @ rest) e)
      = consumeTrack_loop L strict track' (XMLDecoder rest e)"
proof (cases c)
  case (Element n as cs)
  assume "trackChild L strict track c = Ok track'"
  with Element show ?thesis
    by (auto simp: consumeSegment_element_Ok skipTag_element 
        tokensOfList_def [symmetric] split: if_splits result.splits)
qed auto

lemma consumeTrack_loop_node_Fail:
  "trackChild L strict track c = Fail f \<Longrightarrow>
    fst (consumeTrack_loop L strict track (XMLDecoder (tokensOf c @ rest) e)) = Fail f"
proof (cases c)
  case (Element n as cs)
  assume "trackChild L strict track c = Fail f"
  with Element show ?thesis
    by (auto simp: consumeSegment_element_Fail fst_propagate_Fail 
        tokensOfList_def [symmetric] split: if_splits result.splits)
qed auto

lemma consumeTrack_loop_nodes_Ok:
  "foldNodes (trackChild L strict) track cs = Ok track' \<Longrightarrow>
    consumeTrack_loop L strict track (XMLDecoder (tokensOfList cs @ rest) e)
      = consumeTrack_loop L strict track' (XMLDecoder rest e)"
  by (induction cs arbitrary: track)
     (auto simp: consumeTrack_loop_node_Ok split: result.splits)

lemma consumeTrack_loop_nodes_Fail:
  "foldNodes (trackChild L strict) track cs = Fail f \<Longrightarrow>
    fst (consumeTrack_loop L strict track (XMLDecoder (tokensOfList cs @ rest) e)) = Fail f"
  by (induction cs arbitrary: track)
     (auto simp: consumeTrack_loop_node_Ok consumeTrack_loop_node_Fail split: result.splits)

lemma consumeTrack_element_Ok:
  "foldNodes (trackChild L strict) Track0 cs = Ok track \<Longrightarrow>
    consumeTrack L strict se (XMLDecoder (tokensOfList cs @ EndElement m # rest) e)
      = (Ok track, XMLDecoder rest e)"
  by (simp add: consumeTrack_def consumeTrack_loop_nodes_Ok)

lemma consumeTrack_element_Fail:
  "foldNodes (trackChild L strict) Track0 cs = Fail f \<Longrightarrow>
    fst (consumeTrack L strict se (XMLDecoder (tokensOfList cs @ EndElement m # rest) e))
      = Fail f"
  by (simp add: consumeTrack_def consumeTrack_loop_nodes_Fail)

lemma consumeMetadata_loop_node_Ok:
  "metadataChild L metadata c = Ok metadata' \<Longrightarrow>
    consumeMetadata_loop L metadata (XMLDecoder (tokensOf c @ rest) e)
      = consumeMetadata_loop L metadata' (XMLDecoder rest e)"
proof (cases c)
  case (Element n as cs)
  assume "metadataChild L metadata c = Ok metadata'"
  with Element show ?thesis
    by (auto simp: consumeTime_leaf_Ok skipTag_element 
        tokensOfList_def [symmetric] split: if_splits result.splits)
qed auto

lemma consumeMetadata_loop_node_Fail:
  "metadataChild L metadata c = Fail f \<Longrightarrow>
    fst (consumeMetadata_loop L metadata (XMLDecoder (tokensOf c @ rest) e)) = Fail f"
proof (cases c)
  case (Element n as cs)
  assume "metadataChild L metadata c = Fail f"
  with Element show ?thesis
    by (auto simp: consumeTime_leaf_Fail fst_propagate_Fail 
        tokensOfList_def [symmetric] split: if_splits result.splits)
qed auto

lemma consumeMetadata_loop_nodes_Ok:
  "foldNodes (metadataChild L) metadata cs = Ok metadata' \<Longrightarrow>
    consumeMetadata_loop L metadata (XMLDecoder (tokensOfList cs @ rest) e)
      = consumeMetadata_loop L metadata' (XMLDecoder rest e)"
  by (induction cs arbitrary: metadata)
     (auto simp: consumeMetadata_loop_node_Ok split: result.splits)

lemma consumeMetadata_loop_nodes_Fail:
  "foldNodes (metadataChild L) metadata cs = Fail f \<Longrightarrow>
    fst (consumeMetadata_loop L metadata (XMLDecoder (tokensOfList cs @ rest) e)) = Fail f"
  by (induction cs arbitrary: metadata)
     (auto simp: consumeMetadata_loop_node_Ok consumeMetadata_loop_node_Fail split: result.splits)

lemma consumeMetadata_element_Ok:
  "foldNodes (metadataChild L) (Metadata0 L) cs = Ok metadata \<Longrightarrow>
    consumeMetadata L strict se (XMLDecoder (tokensOfList cs @ EndElement m # rest) e)
      = (Ok metadata, XMLDecoder rest e)"
  by (simp add: consumeMetadata_def consumeMetadata_loop_nodes_Ok)

lemma consumeMetadata_element_Fail:
  "foldNodes (metadataChild L) (Metadata0 L) cs = Fail f \<Longrightarrow>
    fst (consumeMetadata L strict se (XMLDecoder (tokensOfList cs @ EndElement m # rest) e))
      = Fail f"
  by (simp add: consumeMetadata_def consumeMetadata_loop_nodes_Fail)

lemma consumeGPX_loop_node_Ok:
  "gpxChild L strict doc c = Ok doc' \<Longrightarrow>
    consumeGPX_loop L strict doc (XMLDecoder (tokensOf c @ rest) e)
      = consumeGPX_loop L strict doc' (XMLDecoder rest e)"
proof (cases c)
  case (Element n as cs)
  assume "gpxChild L strict doc c = Ok doc'"
  with Element show ?thesis
    by (auto simp: consumeTrack_element_Ok consumeMetadata_element_Ok skipTag_element 
        tokensOfList_def [symmetric] split: if_splits result.splits)
qed auto

lemma consumeGPX_loop_node_Fail:
  "gpxChild L strict doc c = Fail f \<Longrightarrow>
    fst (consumeGPX_loop L strict doc (XMLDecoder (tokensOf c @ rest) e)) = Fail f"
proof (cases c)
  case (Element n as cs)
  assume "gpxChild L strict doc c = Fail f"
  with Element show ?thesis
    by (auto simp: consumeTrack_element_Fail consumeMetadata_element_Fail fst_propagate_Fail 
        tokensOfList_def [symmetric] split: if_splits result.splits)
qed auto

lemma consumeGPX_loop_nodes_Ok:
  "foldNodes (gpxChild L strict) doc cs = Ok doc' \<Longrightarrow>
    consumeGPX_loop L strict doc (XMLDecoder (tokensOfList cs @ rest) e)
      = consumeGPX_loop L strict doc' (XMLDecoder rest e)"
  by (induction cs arbitrary: doc)
     (auto simp: consumeGPX_loop_node_Ok split: result.splits)

lemma consumeGPX_loop_nodes_Fail:
  "foldNodes (gpxChild L strict) doc cs = Fail f \<Longrightarrow>
    fst (consumeGPX_loop L strict doc (XMLDecoder (tokensOfList cs @ rest) e)) = Fail f"
  by (induction cs arbitrary: doc)
     (auto simp: consumeGPX_loop_node_Ok consumeGPX_loop_node_Fail split: result.splits)

lemma findGPX_prefix:
  "\<forall>tok \<in> set pre. \<not> isStartElement tok \<Longrightarrow>
    findGPX (XMLDecoder (pre @ rest) e) = findGPX (XMLDecoder rest e)"
proof (induction pre)
  case Nil
  then show ?case by simp
next
  case (Cons tok pre)
  then show ?case by (cases tok) simp_all
qed

lemma Decode_element:
  assumes "\<forall>tok \<in> set pre. \<not> isStartElement tok"
  shows "Decode L strict (pre @ tokensOf (Element n as cs) @ rest) e
    = documentOfElement L strict n as cs"
proof (cases "Local n = ''gpx'' \<and> Space n = nsGPX11")
  case False
  then show ?thesis
    by (auto simp: Decode_def findGPX_prefix [OF assms] documentOfElement_def)
next
  case True
  let ?doc0 = "consumeGPX_attrs as (Document0 L) :: ('a, 'b) Document"
  show ?thesis
  proof (cases "foldNodes (gpxChild L strict) ?doc0 cs")
    case (Ok doc)
    with True show ?thesis
      by (simp add: Decode_def findGPX_prefix [OF assms] documentOfElement_def consumeGPX_def
          tokensOfList_def [symmetric] consumeGPX_loop_nodes_Ok)
  next
    case (Fail f)
    with True show ?thesis
      by (simp add: Decode_def findGPX_prefix [OF assms] documentOfElement_def consumeGPX_def
          tokensOfList_def [symmetric] consumeGPX_loop_nodes_Fail)
  qed
qed

section \<open>The extension parser without its envelope\<close>

lemma skipTag_loop_tokensOfList_slice:
  "skipTag_loop lvl (SliceTokener (map Some (tokensOfList cs) @ rest))
    = skipTag_loop lvl (SliceTokener rest)"
  by (induction cs) (simp_all add: skipTag_loop_tokensOf_slice)

lemma skipTag_element_slice:
  "skipTag (SliceTokener (map Some (tokensOfList cs) @ Some (EndElement m) # rest))
    = (Ok (), SliceTokener rest)"
  by (simp add: skipTag_def skipTag_loop_tokensOfList_slice)

lemma findExtension_node_absent:
  "\<not> isEnvelope c \<Longrightarrow>
    findExtension (SliceTokener (map Some (tokensOf c) @ rest)) GarminTrackPointExtensionNS
        ''TrackPointExtension''
      = findExtension (SliceTokener rest) GarminTrackPointExtensionNS ''TrackPointExtension''"
proof (cases c)
  case (Element n as cs)
  assume "\<not> isEnvelope c"
  with Element show ?thesis
    by (auto simp: skipTag_element_slice tokensOfList_def [symmetric])
qed auto

lemma findExtension_nodes_absent:
  "\<forall>c \<in> set cs. \<not> isEnvelope c \<Longrightarrow>
    findExtension (SliceTokener (map Some (tokensOfList cs) @ rest)) GarminTrackPointExtensionNS
        ''TrackPointExtension''
      = findExtension (SliceTokener rest) GarminTrackPointExtensionNS ''TrackPointExtension''"
  by (induction cs) (simp_all add: findExtension_node_absent)

text \<open>
  Claim C2 says that \<^verbatim>\<open>ParseGarminTrackPointExtension\<close> returns \<^verbatim>\<open>ErrNoSuchExtension\<close>
  for a nil or empty buffer and for every captured buffer without the envelope at its
  top level. The code does not: a captured buffer is the flattening of a list of nodes,
  \<^verbatim>\<open>findExtension\<close> skips every node that is not the envelope, and when the slice is
  used up the next \<^verbatim>\<open>sliceTokener.Token\<close> indexes an empty slice. For every balanced
  buffer without a top-level envelope, the empty one included, the call panics.
\<close>

theorem ParseGarminTrackPointExtension_absent_panics:
  assumes "\<forall>c \<in> set cs. \<not> isEnvelope c"
  shows "ParseGarminTrackPointExtension L (map Some (tokensOfList cs)) = Fail Panic"
  using findExtension_nodes_absent [OF assms, of "[]"]
  by (simp add: ParseGarminTrackPointExtension_def)

theorem ParseGarminTrackPointExtension_absent_panics_witness:
  "\<not> isEnvelope (Element (Name ''urn:example'' ''speed'') [] [Text ''3''])
   \<and> ParseGarminTrackPointExtension exampleLib
       [Some (StartElement (Name ''urn:example'' ''speed'') []), Some (CharData ''3''),
        Some (EndElement (Name ''urn:example'' ''speed''))] = Fail Panic"
  using ParseGarminTrackPointExtension_absent_panics
    [of "[Element (Name ''urn:example'' ''speed'') [] [Text ''3'']]" exampleLib]
  by simp

section \<open>The root element\<close>

text \<open>
  Claim C4 says that a root element in another namespace makes \<^verbatim>\<open>Decode\<close> fail with
  \<^verbatim>\<open>ErrGPX11Only\<close> whatever its local name. \<^verbatim>\<open>findGPX\<close> tests the local name first: a
  root that is not called \<^verbatim>\<open>gpx\<close> gives \<^verbatim>\<open>ErrBadRootTag\<close>, also in a foreign namespace.
\<close>

theorem Decode_other_namespace_counterexample:
  "Space (Name ''http://www.topografix.com/GPX/1/0'' ''track'') \<noteq> nsGPX11
   \<and> Decode exampleLib True
       [StartElement (Name ''http://www.topografix.com/GPX/1/0'' ''track'') [],
        EndElement (Name ''http://www.topografix.com/GPX/1/0'' ''track'')] EOF
     = Fail (Error ErrBadRootTag)
   \<and> Decode exampleLib True
       [StartElement (Name ''http://www.topografix.com/GPX/1/0'' ''track'') [],
        EndElement (Name ''http://www.topografix.com/GPX/1/0'' ''track'')] EOF
     \<noteq> Fail (Error ErrGPX11Only)"
  by (simp add: Decode_def nsGPX11_def)

text \<open>
  Claim C4, amended: when the first start tag of the input is called \<^verbatim>\<open>gpx\<close> and its
  namespace is not the GPX 1.1 namespace, \<^verbatim>\<open>Decode\<close> fails with \<^verbatim>\<open>ErrGPX11Only\<close>, whatever
  precedes the tag (no start tag does), whatever its attributes, whatever follows it
  and whatever the strictness.
\<close>

theorem Decode_other_namespace:
  assumes "\<forall>tok \<in> set pre. \<not> isStartElement tok"
    and "Local n = ''gpx''" and "Space n \<noteq> nsGPX11"
  shows "Decode L strict (pre @ StartElement n as # rest) e = Fail (Error ErrGPX11Only)"
  using assms(2,3) by (simp add: Decode_def findGPX_prefix [OF assms(1)])

theorem Decode_other_namespace_witness:
  "\<not> isStartElement (ProcInst ''xml'' ''version=1.0'')
   \<and> Local (Name ''http://www.topografix.com/GPX/1/0'' ''gpx'') = ''gpx''
   \<and> Space (Name ''http://www.topografix.com/GPX/1/0'' ''gpx'') \<noteq> nsGPX11
   \<and> Decode exampleLib True
       [ProcInst ''xml'' ''version=1.0'',
        StartElement (Name ''http://www.topografix.com/GPX/1/0'' ''gpx'')
          [Attr (Name [] ''version'') ''1.0''],
        EndElement (Name ''http://www.topografix.com/GPX/1/0'' ''gpx'')] EOF
     = Fail (Error ErrGPX11Only)"
  using Decode_other_namespace
    [of "[ProcInst ''xml'' ''version=1.0'']" "Name ''http://www.topografix.com/GPX/1/0'' ''gpx''"
      exampleLib True "[Attr (Name [] ''version'') ''1.0'']"
      "[EndElement (Name ''http://www.topografix.com/GPX/1/0'' ''gpx'')]" EOF]
  by (simp add: nsGPX11_def)

section \<open>Strictness and the elevation\<close>

text \<open>The definitions that a closed example has to unfold.\<close>

lemmas example_defs =
  Decode_def consumeGPX_def consumeTrack_def consumeSegment_def consumePoint_def
  consumeMetadata_def consumeExtensions_def consumeFloat_def consumeTime_def consumeString_def
  skipTag_def Document0_def Metadata0_def Track0_def Segment0_def Point0_def nsGPX11_def
  exampleLib_def decimalFloat_def utcTime_def splitSign_def isDigit_def digitsVal_def

text \<open>
  Claim C1 says that an \<^verbatim>\<open>ele\<close> text that does not parse fails the decode only when
  \<^verbatim>\<open>Strict\<close> is true, and that with \<^verbatim>\<open>Strict\<close> false the decode succeeds with elevation 0.
  In the token-stream revision \<^verbatim>\<open>consumePoint\<close> returns the error of \<^verbatim>\<open>consumeFloat\<close>
  without looking at \<^verbatim>\<open>d.Strict\<close>: the decode fails with the parse error whatever the
  strictness, here on a track with one point whose \<^verbatim>\<open>ele\<close> holds the text \<open>s\<close>.
\<close>

theorem Decode_unparsable_ele_fails:
  assumes "snd (ParseFloat L s) = Some err"
  shows "Decode L strict
      ([StartElement (Name nsGPX11 ''gpx'') ga, StartElement (Name nsGPX11 ''trk'') ta,
        StartElement (Name nsGPX11 ''trkseg'') sa, StartElement (Name nsGPX11 ''trkpt'') [],
        StartElement (Name nsGPX11 ''ele'') ea, CharData s, EndElement (Name nsGPX11 ''ele'')]
       @ rest) e
    = Fail (Error err)"
  using assms
  by (cases "ParseFloat L s")
     (simp add: Decode_def consumeGPX_def consumeTrack_def consumeSegment_def consumePoint_def
        consumeFloat_def consumeString_def)

theorem Decode_unparsable_ele_fails_witness:
  "snd (ParseFloat exampleLib ''not-a-number'') = Some (NumError ''not-a-number'')
   \<and> Decode exampleLib False
      [StartElement (Name nsGPX11 ''gpx'') [Attr (Name [] ''version'') ''1.1''],
       StartElement (Name nsGPX11 ''trk'') [],
       StartElement (Name nsGPX11 ''trkseg'') [], StartElement (Name nsGPX11 ''trkpt'') [],
       StartElement (Name nsGPX11 ''ele'') [], CharData ''not-a-number'',
       EndElement (Name nsGPX11 ''ele''), EndElement (Name nsGPX11 ''trkpt''),
       EndElement (Name nsGPX11 ''trkseg''), EndElement (Name nsGPX11 ''trk''),
       EndElement (Name nsGPX11 ''gpx'')] EOF
    = Fail (Error (NumError ''not-a-number''))"
proof -
  have h: "snd (ParseFloat exampleLib ''not-a-number'') = Some (NumError ''not-a-number'')"
    by (simp add: exampleLib_def decimalFloat_def splitSign_def isDigit_def)
  from Decode_unparsable_ele_fails [OF h, of False "[Attr (Name [] ''version'') ''1.1'']"
      "[]" "[]" "[]"
      "[EndElement (Name nsGPX11 ''trkpt''),
       EndElement (Name nsGPX11 ''trkseg''), EndElement (Name nsGPX11 ''trk''),
       EndElement (Name nsGPX11 ''gpx'')]" EOF] h
  show ?thesis by simp
qed

section \<open>Failure inside a leaf (token-stream revision)\<close>

lemma foldNodes_append:
  "foldNodes f a (xs @ ys) = (case foldNodes f a xs of Fail e \<Rightarrow> Fail e | Ok b \<Rightarrow> foldNodes f b ys)"
  by (induction xs arbitrary: a) (auto split: result.splits)

lemma foldNodes_snoc_Ok:
  "foldNodes f a (xs @ [c]) = Ok r \<Longrightarrow> \<exists>b. foldNodes f a xs = Ok b \<and> f b c = Ok r"
  by (auto simp: foldNodes_append split: result.splits)

lemma consumeString_loop_nested:
  "\<forall>tok \<in> set mid. \<not> isEndElement tok \<Longrightarrow>
    fst (consumeString_loop s (XMLDecoder (mid @ StartElement x xa # rest) e))
      = Fail (Error ErrUnexpectedElement)"
proof (induction mid arbitrary: s)
  case Nil
  then show ?case by simp
next
  case (Cons tok mid)
  then show ?case by (cases tok) simp_all
qed

lemma consumeFloat_nested:
  "\<forall>tok \<in> set mid. \<not> isEndElement tok \<Longrightarrow>
    fst (consumeFloat L (XMLDecoder (mid @ StartElement x xa # rest) e))
      = Fail (Error ErrUnexpectedElement)"
  using consumeString_loop_nested [of mid "[]" x xa rest e]
  by (cases "consumeString_loop [] (XMLDecoder (mid @ StartElement x xa # rest) e)")
     (simp add: consumeFloat_def consumeString_def)

lemma consumeTime_nested:
  "\<forall>tok \<in> set mid. \<not> isEndElement tok \<Longrightarrow>
    fst (consumeTime L (XMLDecoder (mid @ StartElement x xa # rest) e))
      = Fail (Error ErrUnexpectedElement)"
  using consumeString_loop_nested [of mid "[]" x xa rest e]
  by (cases "consumeString_loop [] (XMLDecoder (mid @ StartElement x xa # rest) e)")
     (simp add: consumeTime_def consumeString_def)

lemma consumePoint_loop_enter_Fail:
  "Local l = ''ele'' \<Longrightarrow> fst (consumeFloat L (XMLDecoder A e)) = Fail f \<Longrightarrow>
    fst (consumePoint_loop L point (XMLDecoder (StartElement l la # A) e)) = Fail f"
  "Local l = ''time'' \<Longrightarrow> fst (consumeTime L (XMLDecoder A e)) = Fail f \<Longrightarrow>
    fst (consumePoint_loop L point (XMLDecoder (StartElement l la # A) e)) = Fail f"
  by (simp_all add: fst_propagate_Fail)

lemma consumeSegment_loop_enter_Fail:
  "Local p = ''trkpt'' \<Longrightarrow> fst (consumePoint L strict (p, pa) (XMLDecoder A e)) = Fail f \<Longrightarrow>
    fst (consumeSegment_loop L strict seg (XMLDecoder (StartElement p pa # A) e)) = Fail f"
  by (simp add: fst_propagate_Fail)

lemma consumeTrack_loop_enter_Fail:
  "Local s = ''trkseg'' \<Longrightarrow> fst (consumeSegment L strict (s, sa) (XMLDecoder A e)) = Fail f \<Longrightarrow>
    fst (consumeTrack_loop L strict track (XMLDecoder (StartElement s sa # A) e)) = Fail f"
  by (simp add: fst_propagate_Fail)

lemma consumeMetadata_loop_enter_Fail:
  "Local l = ''time'' \<Longrightarrow> fst (consumeTime L (XMLDecoder A e)) = Fail f \<Longrightarrow>
    fst (consumeMetadata_loop L metadata (XMLDecoder (StartElement l la # A) e)) = Fail f"
  by (simp add: fst_propagate_Fail)

lemma consumeGPX_loop_enter_Fail:
  "Local t = ''trk'' \<Longrightarrow> fst (consumeTrack L strict (t, ta) (XMLDecoder A e)) = Fail f \<Longrightarrow>
    fst (consumeGPX_loop L strict doc (XMLDecoder (StartElement t ta # A) e)) = Fail f"
  "Local m = ''metadata'' \<Longrightarrow> fst (consumeMetadata L strict (m, ma) (XMLDecoder A e)) = Fail f \<Longrightarrow>
    fst (consumeGPX_loop L strict doc (XMLDecoder (StartElement m ma # A) e)) = Fail f"
  by (auto simp add: fst_propagate_Fail)

text \<open>Failure inside the point at the end of a path of first-level elements.\<close>

lemma Decode_path_point_Fail:
  assumes pre: "\<forall>tok \<in> set pre. \<not> isStartElement tok"
    and names: "Local t = ''trk''" "Local s = ''trkseg''" "Local p = ''trkpt''"
    and before: "Decode L strict
        (pre @ StartElement g ga # tokensOfList gs @ StartElement t ta # tokensOfList ts
          @ StartElement s sa # tokensOfList ss @ StartElement p pa # tokensOfList ps
          @ [EndElement p, EndElement s, EndElement t, EndElement g]) e = Ok doc0"
    and inner: "\<And>point. fst (consumePoint_loop L point (XMLDecoder A e)) = Fail f"
  shows "Decode L strict
        (pre @ StartElement g ga # tokensOfList gs @ StartElement t ta # tokensOfList ts
          @ StartElement s sa # tokensOfList ss @ StartElement p pa # tokensOfList ps @ A) e
      = Fail f"
proof -
  let ?P = "Element p pa ps"
  let ?S = "Element s sa (ss @ [?P])"
  let ?T = "Element t ta (ts @ [?S])"
  have "Decode L strict (pre @ tokensOf (Element g ga (gs @ [?T])) @ []) e = Ok doc0"
    using before by (simp add: tokensOfList_def)
  then have root: "documentOfElement L strict g ga (gs @ [?T]) = Ok doc0"
    by (simp only: Decode_element [OF pre])
  then have g: "Local g = ''gpx''" "Space g = nsGPX11"
    by (auto simp: documentOfElement_def split: if_splits)
  from root g obtain d1 where
    d1: "foldNodes (gpxChild L strict) (consumeGPX_attrs ga (Document0 L)) gs = Ok d1"
    and "gpxChild L strict d1 ?T = Ok doc0"
    by (auto simp: documentOfElement_def dest: foldNodes_snoc_Ok)
  with names obtain tr where "foldNodes (trackChild L strict) Track0 (ts @ [?S]) = Ok tr"
    by (auto split: result.splits)
  then obtain t1 where t1: "foldNodes (trackChild L strict) Track0 ts = Ok t1"
    and "trackChild L strict t1 ?S = Ok tr"
    by (auto dest: foldNodes_snoc_Ok)
  with names obtain sg where "foldNodes (segmentChild L strict) Segment0 (ss @ [?P]) = Ok sg"
    by (auto split: result.splits)
  then obtain s1 where s1: "foldNodes (segmentChild L strict) Segment0 ss = Ok s1"
    and "segmentChild L strict s1 ?P = Ok sg"
    by (auto dest: foldNodes_snoc_Ok)
  with names obtain pt where "pointOfElement L strict pa ps = Ok pt"
    by (auto split: result.splits)
  then obtain p0 where p0: "consumePoint_attrs L strict pa (Point0 L) = Ok p0"
    and p1: "foldNodes (pointChild L) p0 ps = Ok pt"
    by (auto simp: pointOfElement_def split: result.splits)
  have "fst (consumePoint L strict (p, pa) (XMLDecoder (tokensOfList ps @ A) e)) = Fail f"
    by (simp add: consumePoint_def p0 consumePoint_loop_nodes_Ok [OF p1] inner)
  then have "fst (consumeSegment L strict (s, sa)
      (XMLDecoder (tokensOfList ss @ StartElement p pa # tokensOfList ps @ A) e)) = Fail f"
    unfolding consumeSegment_def consumeSegment_loop_nodes_Ok [OF s1]
    by (rule consumeSegment_loop_enter_Fail [OF names(3)])
  then have "fst (consumeTrack L strict (t, ta)
      (XMLDecoder (tokensOfList ts @ StartElement s sa # tokensOfList ss @ StartElement p pa
        # tokensOfList ps @ A) e)) = Fail f"
    unfolding consumeTrack_def consumeTrack_loop_nodes_Ok [OF t1]
    by (rule consumeTrack_loop_enter_Fail [OF names(2)])
  then have "fst (consumeGPX L strict (g, ga)
      (XMLDecoder (tokensOfList gs @ StartElement t ta # tokensOfList ts @ StartElement s sa
        # tokensOfList ss @ StartElement p pa # tokensOfList ps @ A) e)) = Fail f"
    unfolding consumeGPX_def snd_conv consumeGPX_loop_nodes_Ok [OF d1]
    by (rule consumeGPX_loop_enter_Fail(1) [OF names(1)])
  then show ?thesis
    using g by (simp add: Decode_def findGPX_prefix [OF pre])
qed


lemma Decode_path_metadata_Fail:
  assumes pre: "\<forall>tok \<in> set pre. \<not> isStartElement tok"
    and names: "Local m = ''metadata''"
    and before: "Decode L strict
        (pre @ StartElement g ga # tokensOfList gs @ StartElement m ma # tokensOfList ms
          @ [EndElement m, EndElement g]) e = Ok doc0"
    and inner: "\<And>metadata. fst (consumeMetadata_loop L metadata (XMLDecoder A e)) = Fail f"
  shows "Decode L strict
        (pre @ StartElement g ga # tokensOfList gs @ StartElement m ma # tokensOfList ms @ A) e
      = Fail f"
proof -
  let ?M = "Element m ma ms"
  have "Decode L strict (pre @ tokensOf (Element g ga (gs @ [?M])) @ []) e = Ok doc0"
    using before by (simp add: tokensOfList_def)
  then have root: "documentOfElement L strict g ga (gs @ [?M]) = Ok doc0"
    by (simp only: Decode_element [OF pre])
  then have g: "Local g = ''gpx''" "Space g = nsGPX11"
    by (auto simp: documentOfElement_def split: if_splits)
  from root g obtain d1 where
    d1: "foldNodes (gpxChild L strict) (consumeGPX_attrs ga (Document0 L)) gs = Ok d1"
    and "gpxChild L strict d1 ?M = Ok doc0"
    by (auto simp: documentOfElement_def dest: foldNodes_snoc_Ok)
  with names obtain md where m1: "foldNodes (metadataChild L) (Metadata0 L) ms = Ok md"
    by (auto split: result.splits)
  have "fst (consumeMetadata L strict (m, ma) (XMLDecoder (tokensOfList ms @ A) e)) = Fail f"
    by (simp add: consumeMetadata_def consumeMetadata_loop_nodes_Ok [OF m1] inner)
  then have "fst (consumeGPX L strict (g, ga)
      (XMLDecoder (tokensOfList gs @ StartElement m ma # tokensOfList ms @ A) e)) = Fail f"
    unfolding consumeGPX_def snd_conv consumeGPX_loop_nodes_Ok [OF d1]
    by (rule consumeGPX_loop_enter_Fail(2) [OF names])
  then show ?thesis
    using g by (simp add: Decode_def findGPX_prefix [OF pre])
qed

section \<open>The captured extensions\<close>

lemma consumePoint_attrs_Extensions:
  "consumePoint_attrs L strict as point = Ok point' \<Longrightarrow> Extensions point' = Extensions point"
  by (induction as arbitrary: point) (auto split: if_splits prod.splits option.splits)

lemma pointChild_Extensions:
  "pointChild L point c = Ok point' \<Longrightarrow>
    Extensions point' =
      (if isElementNamed ''extensions'' c then tokensOfList (childNodes c) else Extensions point)"
  by (cases c) (auto split: if_splits result.splits)

lemma foldNodes_pointChild_Extensions:
  "foldNodes (pointChild L) point cs = Ok point' \<Longrightarrow>
    Extensions point' =
      (case filter (isElementNamed ''extensions'') cs of
         [] \<Rightarrow> Extensions point
       | es \<Rightarrow> tokensOfList (childNodes (last es)))"
proof (induction cs arbitrary: point)
  case Nil
  then show ?case by simp
next
  case (Cons c cs)
  then obtain p1 where p1: "pointChild L point c = Ok p1"
    and rest: "foldNodes (pointChild L) p1 cs = Ok point'"
    by (auto split: result.splits)
  from Cons.IH [OF rest] pointChild_Extensions [OF p1] show ?case
    by (auto split: list.splits)
qed

lemma length_by_kind:
  "length toks = length (filter isStartElement toks) + length (filter isEndElement toks)
     + length (filter isCharData toks) + length (filter isOtherToken toks)"
proof (induction toks)
  case Nil
  then show ?case by simp
next
  case (Cons tok toks)
  then show ?case by (cases tok) simp_all
qed

lemma consumePoint_element_result:
  "fst (consumePoint L strict (n, as) (XMLDecoder (tokensOfList cs @ EndElement m # rest) e))
    = pointOfElement L strict as cs"
proof (cases "pointOfElement L strict as cs")
  case (Ok point)
  then show ?thesis by (simp add: consumePoint_element_Ok)
next
  case (Fail f)
  then show ?thesis by (simp add: consumePoint_element_Fail)
qed

text \<open>
  Claim C6 says that the buffer of a point holds the tokens between the \<^verbatim>\<open>extensions\<close>
  start tag and its end tag and that its length is the number of start tags, end tags and
  text tokens there. \<^verbatim>\<open>consumeExtensions\<close> appends every token it reads, of any kind: a
  comment inside \<^verbatim>\<open>extensions\<close> is in the buffer and is none of the three.
\<close>

theorem Extensions_length_counterexample:
  "Decode exampleLib True
      [StartElement (Name nsGPX11 ''gpx'') [], StartElement (Name nsGPX11 ''trk'') [],
       StartElement (Name nsGPX11 ''trkseg'') [], StartElement (Name nsGPX11 ''trkpt'') [],
       StartElement (Name nsGPX11 ''extensions'') [], Comment ''c'',
       EndElement (Name nsGPX11 ''extensions''), EndElement (Name nsGPX11 ''trkpt''),
       EndElement (Name nsGPX11 ''trkseg''), EndElement (Name nsGPX11 ''trk''),
       EndElement (Name nsGPX11 ''gpx'')] EOF
    = Ok \<lparr>Version = [], Metadata = \<lparr>Metadata.Time = []\<rparr>,
        Tracks = [\<lparr>Segments = [\<lparr>Points = [\<lparr>Latitude = 0, Longitude = 0, Elevation = 0,
          Time = [], Extensions = [Comment ''c'']\<rparr>]\<rparr>]\<rparr>]\<rparr>
   \<and> length [Comment ''c''] \<noteq>
       length (filter isStartElement [Comment ''c''])
       + length (filter isEndElement [Comment ''c''])
       + length (filter isCharData [Comment ''c''])"
  by (simp add: example_defs)

text \<open>
  Claim C6, amended: when \<^verbatim>\<open>consumePoint\<close> succeeds on a \<^verbatim>\<open>trkpt\<close> element with the
  children \<open>cs\<close>, the buffer of the point is empty if no child is called \<^verbatim>\<open>extensions\<close>,
  and otherwise it is exactly the token sequence of the children of the last such child,
  without its start and end tag: the flattening of a list of nodes, hence balanced. Its
  length is the number of all tokens there: start tags, end tags, text, and comments,
  processing instructions and directives. Values are copied in the model, so that the
  buffer shares no storage with the parser is not a statement of the model.
\<close>

theorem consumePoint_Extensions:
  assumes "fst (consumePoint L strict (n, as)
      (XMLDecoder (tokensOfList cs @ EndElement m # rest) e)) = Ok point"
  shows "Extensions point =
      (case filter (isElementNamed ''extensions'') cs of
         [] \<Rightarrow> []
       | es \<Rightarrow> tokensOfList (childNodes (last es)))
    \<and> length (Extensions point) =
        length (filter isStartElement (Extensions point))
        + length (filter isEndElement (Extensions point))
        + length (filter isCharData (Extensions point))
        + length (filter isOtherToken (Extensions point))"
proof
  from assms have "pointOfElement L strict as cs = Ok point"
    by (simp add: consumePoint_element_result)
  then obtain p0 where p0: "consumePoint_attrs L strict as (Point0 L) = Ok p0"
    and p1: "foldNodes (pointChild L) p0 cs = Ok point"
    by (auto simp: pointOfElement_def split: result.splits)
  from consumePoint_attrs_Extensions [OF p0] have "Extensions p0 = []"
    by (simp add: Point0_def)
  with foldNodes_pointChild_Extensions [OF p1]
  show "Extensions point =
      (case filter (isElementNamed ''extensions'') cs of
         [] \<Rightarrow> []
       | es \<Rightarrow> tokensOfList (childNodes (last es)))"
    by (simp split: list.splits)
  show "length (Extensions point) =
        length (filter isStartElement (Extensions point))
        + length (filter isEndElement (Extensions point))
        + length (filter isCharData (Extensions point))
        + length (filter isOtherToken (Extensions point))"
    by (rule length_by_kind)
qed

theorem consumePoint_Extensions_witness:
  "fst (consumePoint exampleLib True (Name nsGPX11 ''trkpt'', [])
      (XMLDecoder
        [StartElement (Name nsGPX11 ''extensions'') [],
         StartElement (Name ''urn:example'' ''speed'') [], CharData ''3'',
         EndElement (Name ''urn:example'' ''speed''), Comment ''c'',
         EndElement (Name nsGPX11 ''extensions''),
         EndElement (Name nsGPX11 ''trkpt'')] EOF))
    = Ok \<lparr>Latitude = 0, Longitude = 0, Elevation = 0, Time = [],
        Extensions = [StartElement (Name ''urn:example'' ''speed'') [], CharData ''3'',
          EndElement (Name ''urn:example'' ''speed''), Comment ''c'']\<rparr>
   \<and> length [StartElement (Name ''urn:example'' ''speed'') [], CharData ''3'',
          EndElement (Name ''urn:example'' ''speed''), Comment ''c''] = 1 + 1 + 1 + (1::nat)"
proof -
  let ?cs = "[Element (Name nsGPX11 ''extensions'') []
      [Element (Name ''urn:example'' ''speed'') [] [Text ''3''], CommentNode ''c'']]"
  let ?p = "\<lparr>Latitude = 0, Longitude = 0, Elevation = 0, Time = [],
        Extensions = [StartElement (Name ''urn:example'' ''speed'') [], CharData ''3'',
          EndElement (Name ''urn:example'' ''speed''), Comment ''c'']\<rparr> :: (rat, string) Point"
  have h: "fst (consumePoint exampleLib True (Name nsGPX11 ''trkpt'', [])
      (XMLDecoder (tokensOfList ?cs @ EndElement (Name nsGPX11 ''trkpt'') # []) EOF)) = Ok ?p"
    by (simp add: example_defs)
  from consumePoint_Extensions [OF h] h show ?thesis by simp
qed

section \<open>The extension parser on its envelope\<close>

lemma leafText_Some_tokens_slice:
  "leafText cs = Some t \<Longrightarrow>
    consumeString_loop s (SliceTokener (map Some (tokensOfList cs) @ Some (EndElement m) # rest))
      = (Ok (s @ t), SliceTokener rest)"
proof (induction cs arbitrary: s t)
  case Nil
  then show ?case by simp
next
  case (Cons c cs)
  then show ?case by (cases c) (auto split: option.splits)
qed

lemma leafText_None_tokens_slice:
  "leafText cs = None \<Longrightarrow>
    fst (consumeString_loop s (SliceTokener (map Some (tokensOfList cs) @ rest)))
      = Fail (Error ErrUnexpectedElement)"
proof (induction cs arbitrary: s)
  case Nil
  then show ?case by simp
next
  case (Cons c cs)
  then show ?case by (cases c) (auto split: option.splits)
qed

lemma consumeString_leaf_slice_Ok:
  "leafText cs = Some t \<Longrightarrow>
    consumeString (SliceTokener (map Some (tokensOfList cs) @ Some (EndElement m) # rest))
      = (Ok t, SliceTokener rest)"
  by (simp add: consumeString_def leafText_Some_tokens_slice)

lemma consumeString_leaf_slice_Fail:
  "leafText cs = None \<Longrightarrow>
    fst (consumeString (SliceTokener (map Some (tokensOfList cs) @ rest)))
      = Fail (Error ErrUnexpectedElement)"
  by (simp add: consumeString_def leafText_None_tokens_slice)

lemma ParseGarminTrackPointExtension_loop_node_Ok:
  "garminChild L ext c = Ok ext' \<Longrightarrow>
    ParseGarminTrackPointExtension_loop L ext (SliceTokener (map Some (tokensOf c) @ rest))
      = ParseGarminTrackPointExtension_loop L ext' (SliceTokener rest)"
proof (cases c)
  case (Element n as cs)
  assume "garminChild L ext c = Ok ext'"
  with Element show ?thesis
    by (auto simp: consumeString_leaf_slice_Ok skipTag_element_slice
        tokensOfList_def [symmetric] split: if_splits option.splits)
qed auto

lemma ParseGarminTrackPointExtension_loop_node_Fail:
  "garminChild L ext c = Fail f \<Longrightarrow>
    fst (ParseGarminTrackPointExtension_loop L ext (SliceTokener (map Some (tokensOf c) @ rest)))
      = Fail f"
proof (cases c)
  case (Element n as cs)
  assume "garminChild L ext c = Fail f"
  with Element show ?thesis
    by (auto simp: consumeString_leaf_slice_Fail fst_propagate_Fail
        tokensOfList_def [symmetric] split: if_splits option.splits)
qed auto

lemma ParseGarminTrackPointExtension_loop_nodes_Ok:
  "foldNodes (garminChild L) ext cs = Ok ext' \<Longrightarrow>
    ParseGarminTrackPointExtension_loop L ext (SliceTokener (map Some (tokensOfList cs) @ rest))
      = ParseGarminTrackPointExtension_loop L ext' (SliceTokener rest)"
  by (induction cs arbitrary: ext)
     (auto simp: ParseGarminTrackPointExtension_loop_node_Ok split: result.splits)

lemma ParseGarminTrackPointExtension_loop_nodes_Fail:
  "foldNodes (garminChild L) ext cs = Fail f \<Longrightarrow>
    fst (ParseGarminTrackPointExtension_loop L ext
          (SliceTokener (map Some (tokensOfList cs) @ rest))) = Fail f"
  by (induction cs arbitrary: ext)
     (auto simp: ParseGarminTrackPointExtension_loop_node_Ok
        ParseGarminTrackPointExtension_loop_node_Fail split: result.splits)

text \<open>
  Claim C7 says that a numeric parse failure in a recognised field leaves the field at
  its zero value. The code drops the error and stores the value that came with it:
  for a text beyond the range of \<^verbatim>\<open>int\<close>, \<^verbatim>\<open>strconv.Atoi\<close> returns the largest \<^verbatim>\<open>int\<close> next to
  its error, and that is what \<^verbatim>\<open>HeartRate\<close> becomes.
\<close>

theorem ParseGarminTrackPointExtension_range_counterexample:
  "snd (Atoi exampleLib ''99999999999999999999'') = Some (NumError ''99999999999999999999'')
   \<and> ParseGarminTrackPointExtension exampleLib
       [Some (StartElement (Name GarminTrackPointExtensionNS ''TrackPointExtension'') []),
        Some (StartElement (Name GarminTrackPointExtensionNS ''hr'') []),
        Some (CharData ''99999999999999999999''),
        Some (EndElement (Name GarminTrackPointExtensionNS ''hr'')),
        Some (EndElement (Name GarminTrackPointExtensionNS ''TrackPointExtension''))]
     = Ok \<lparr>ATemp = 0, WTemp = 0, Depth = 0, HeartRate = 9223372036854775807, Cadence = 0\<rparr>
   \<and> (9223372036854775807 :: 64 word) \<noteq> 0"
  by (simp add: ParseGarminTrackPointExtension_def consumeString_def
      GarminTrackPointExtension0_def GarminTrackPointExtensionNS_def exampleLib_def
      go_Atoi_def splitSign_def isDigit_def digitsVal_def)

text \<open>
  Claim C7, amended: for every buffer that holds, after top-level nodes that are not the
  envelope, the envelope with the children \<open>cs\<close>, the call returns what \<open>garminChild\<close>
  folds over \<open>cs\<close>: a child outside Garmin's namespace or with an unrecognised name
  changes nothing; a recognised child (\<^verbatim>\<open>hr\<close>, \<^verbatim>\<open>cad\<close>, \<^verbatim>\<open>atemp\<close>, \<^verbatim>\<open>wtemp\<close>, \<^verbatim>\<open>depth\<close>) that
  holds only character data sets its field to the value the parser returns for the
  text, whether or not the parser also returns an error, and the parse goes on with the
  next child; only a recognised child that holds something else than character data
  ends the call, with the error of \<^verbatim>\<open>consumeString\<close>. The witness is the example of
  the claim: \<^verbatim>\<open>hr\<close> 142 and \<^verbatim>\<open>cad\<close> 90.
\<close>

theorem ParseGarminTrackPointExtension_envelope:
  assumes "\<forall>c \<in> set pre. \<not> isEnvelope c" and "isEnvelope (Element n as cs)"
  shows "ParseGarminTrackPointExtension L
      (map Some (tokensOfList pre @ tokensOf (Element n as cs)) @ rest)
    = foldNodes (garminChild L) (GarminTrackPointExtension0 L) cs"
proof -
  have found: "findExtension
      (SliceTokener (map Some (tokensOfList pre @ tokensOf (Element n as cs)) @ rest))
      GarminTrackPointExtensionNS ''TrackPointExtension''
    = (Ok True, SliceTokener (map Some (tokensOfList cs) @ Some (EndElement n) # rest))"
    using assms(2) findExtension_nodes_absent [OF assms(1)]
    by (simp add: tokensOfList_def [symmetric])
  show ?thesis
  proof (cases "foldNodes (garminChild L) (GarminTrackPointExtension0 L) cs")
    case (Ok ext)
    then show ?thesis
      unfolding ParseGarminTrackPointExtension_def found
      by (simp add: ParseGarminTrackPointExtension_loop_nodes_Ok)
  next
    case (Fail f)
    then show ?thesis
      unfolding ParseGarminTrackPointExtension_def found
      by (simp add: ParseGarminTrackPointExtension_loop_nodes_Fail)
  qed
qed

theorem ParseGarminTrackPointExtension_envelope_witness:
  "\<not> isEnvelope (Element (Name ''urn:example'' ''speed'') [] [Text ''3''])
   \<and> isEnvelope (Element (Name GarminTrackPointExtensionNS ''TrackPointExtension'') []
        [Element (Name GarminTrackPointExtensionNS ''hr'') [] [Text ''142''],
         Element (Name GarminTrackPointExtensionNS ''cad'') [] [Text ''90'']])
   \<and> ParseGarminTrackPointExtension exampleLib
       [Some (StartElement (Name ''urn:example'' ''speed'') []), Some (CharData ''3''),
        Some (EndElement (Name ''urn:example'' ''speed'')),
        Some (StartElement (Name GarminTrackPointExtensionNS ''TrackPointExtension'') []),
        Some (StartElement (Name GarminTrackPointExtensionNS ''hr'') []),
        Some (CharData ''142''),
        Some (EndElement (Name GarminTrackPointExtensionNS ''hr'')),
        Some (StartElement (Name GarminTrackPointExtensionNS ''cad'') []),
        Some (CharData ''90''),
        Some (EndElement (Name GarminTrackPointExtensionNS ''cad'')),
        Some (EndElement (Name GarminTrackPointExtensionNS ''TrackPointExtension''))]
     = Ok \<lparr>ATemp = 0, WTemp = 0, Depth = 0, HeartRate = 142, Cadence = 90\<rparr>"
proof -
  have h1: "\<forall>c \<in> set [Element (Name ''urn:example'' ''speed'') [] [Text ''3'']].
      \<not> isEnvelope c"
    by simp
  have h2: "isEnvelope (Element (Name GarminTrackPointExtensionNS ''TrackPointExtension'') []
        [Element (Name GarminTrackPointExtensionNS ''hr'') [] [Text ''142''],
         Element (Name GarminTrackPointExtensionNS ''cad'') [] [Text ''90'']])"
    by simp
  from ParseGarminTrackPointExtension_envelope [OF h1 h2, of exampleLib "[]"] h2
  show ?thesis
    by (simp add: GarminTrackPointExtension0_def GarminTrackPointExtensionNS_def exampleLib_def
        go_Atoi_def splitSign_def isDigit_def digitsVal_def)
qed

section \<open>Tracks, segments and points in document order\<close>

lemma segmentChild_Points:
  "segmentChild L strict seg c = Ok seg' \<Longrightarrow>
    (if isElementNamed ''trkpt'' c
     then \<exists>point. pointOfElement L strict (snd (startOf c)) (childNodes c) = Ok point
            \<and> Points seg' = Points seg @ [point]
     else Points seg' = Points seg)"
  by (cases c) (auto split: if_splits result.splits)

lemma foldNodes_segmentChild_Points:
  "foldNodes (segmentChild L strict) seg cs = Ok seg' \<Longrightarrow>
    \<exists>ps. Points seg' = Points seg @ ps
      \<and> list_all2 (\<lambda>point c. pointOfElement L strict (snd (startOf c)) (childNodes c) = Ok point)
            ps (elementsNamed ''trkpt'' cs)"
proof (induction cs arbitrary: seg)
  case Nil
  then show ?case by (simp add: elementsNamed_def)
next
  case (Cons c cs)
  then obtain s1 where s1: "segmentChild L strict seg c = Ok s1"
    and rest: "foldNodes (segmentChild L strict) s1 cs = Ok seg'"
    by (auto split: result.splits)
  from Cons.IH [OF rest] obtain ps where ps: "Points seg' = Points s1 @ ps"
    "list_all2 (\<lambda>point c. pointOfElement L strict (snd (startOf c)) (childNodes c) = Ok point)
        ps (elementsNamed ''trkpt'' cs)"
    by blast
  show ?case
  proof (cases "isElementNamed ''trkpt'' c")
    case True
    with segmentChild_Points [OF s1] obtain point where
      "pointOfElement L strict (snd (startOf c)) (childNodes c) = Ok point"
      "Points s1 = Points seg @ [point]"
      by auto
    with ps True show ?thesis
      by (intro exI [of _ "point # ps"]) (simp add: elementsNamed_def)
  next
    case False
    with segmentChild_Points [OF s1] ps show ?thesis
      by (intro exI [of _ ps]) (simp add: elementsNamed_def)
  qed
qed

lemma trackChild_Segments:
  "trackChild L strict track c = Ok track' \<Longrightarrow>
    (if isElementNamed ''trkseg'' c
     then \<exists>seg. foldNodes (segmentChild L strict) Segment0 (childNodes c) = Ok seg
            \<and> Segments track' = Segments track @ [seg]
     else Segments track' = Segments track)"
  by (cases c) (auto split: if_splits result.splits)

lemma foldNodes_trackChild_Segments:
  "foldNodes (trackChild L strict) track cs = Ok track' \<Longrightarrow>
    \<exists>ss. Segments track' = Segments track @ ss
      \<and> list_all2 (\<lambda>seg c. foldNodes (segmentChild L strict) Segment0 (childNodes c) = Ok seg)
            ss (elementsNamed ''trkseg'' cs)"
proof (induction cs arbitrary: track)
  case Nil
  then show ?case by (simp add: elementsNamed_def)
next
  case (Cons c cs)
  then obtain t1 where t1: "trackChild L strict track c = Ok t1"
    and rest: "foldNodes (trackChild L strict) t1 cs = Ok track'"
    by (auto split: result.splits)
  from Cons.IH [OF rest] obtain ss where ss: "Segments track' = Segments t1 @ ss"
    "list_all2 (\<lambda>seg c. foldNodes (segmentChild L strict) Segment0 (childNodes c) = Ok seg)
        ss (elementsNamed ''trkseg'' cs)"
    by blast
  show ?case
  proof (cases "isElementNamed ''trkseg'' c")
    case True
    with trackChild_Segments [OF t1] obtain seg where
      "foldNodes (segmentChild L strict) Segment0 (childNodes c) = Ok seg"
      "Segments t1 = Segments track @ [seg]"
      by auto
    with ss True show ?thesis
      by (intro exI [of _ "seg # ss"]) (simp add: elementsNamed_def)
  next
    case False
    with trackChild_Segments [OF t1] ss show ?thesis
      by (intro exI [of _ ss]) (simp add: elementsNamed_def)
  qed
qed

lemma gpxChild_Tracks:
  "gpxChild L strict doc c = Ok doc' \<Longrightarrow>
    (if isElementNamed ''trk'' c
     then \<exists>track. foldNodes (trackChild L strict) Track0 (childNodes c) = Ok track
            \<and> Tracks doc' = Tracks doc @ [track]
     else Tracks doc' = Tracks doc)"
  by (cases c) (auto split: if_splits result.splits)

lemma foldNodes_gpxChild_Tracks:
  "foldNodes (gpxChild L strict) doc cs = Ok doc' \<Longrightarrow>
    \<exists>ts. Tracks doc' = Tracks doc @ ts
      \<and> list_all2 (\<lambda>track c. foldNodes (trackChild L strict) Track0 (childNodes c) = Ok track)
            ts (elementsNamed ''trk'' cs)"
proof (induction cs arbitrary: doc)
  case Nil
  then show ?case by (simp add: elementsNamed_def)
next
  case (Cons c cs)
  then obtain d1 where d1: "gpxChild L strict doc c = Ok d1"
    and rest: "foldNodes (gpxChild L strict) d1 cs = Ok doc'"
    by (auto split: result.splits)
  from Cons.IH [OF rest] obtain ts where ts: "Tracks doc' = Tracks d1 @ ts"
    "list_all2 (\<lambda>track c. foldNodes (trackChild L strict) Track0 (childNodes c) = Ok track)
        ts (elementsNamed ''trk'' cs)"
    by blast
  show ?case
  proof (cases "isElementNamed ''trk'' c")
    case True
    with gpxChild_Tracks [OF d1] obtain track where
      "foldNodes (trackChild L strict) Track0 (childNodes c) = Ok track"
      "Tracks d1 = Tracks doc @ [track]"
      by auto
    with ts True show ?thesis
      by (intro exI [of _ "track # ts"]) (simp add: elementsNamed_def)
  next
    case False
    with gpxChild_Tracks [OF d1] ts show ?thesis
      by (intro exI [of _ ts]) (simp add: elementsNamed_def)
  qed
qed

lemma consumeGPX_attrs_Tracks: "Tracks (consumeGPX_attrs as doc) = Tracks doc"
  by (induction as arbitrary: doc) simp_all

lemma pointDecodedFrom_pointOfElement:
  "pointOfElement L strict (snd (startOf c)) (childNodes c) = Ok point \<Longrightarrow>
    pointDecodedFrom L strict point c"
  using consumePoint_element_Ok [of L strict "snd (startOf c)" "childNodes c" point
      "fst (startOf c)" "fst (startOf c)" "[]" EOF]
  by (simp add: pointDecodedFrom_def)

text \<open>
  Claim C3: when \<^verbatim>\<open>Decode\<close> returns a document for an input whose root element has the
  children \<open>cs\<close>, the tracks of the document correspond one to one and in order to the
  children of the root called \<^verbatim>\<open>trk\<close>, the segments of each track to the children of its
  element called \<^verbatim>\<open>trkseg\<close>, and the points of each segment to the children of its
  element called \<^verbatim>\<open>trkpt\<close>, each point being the one decoded from its element
  (\<open>list_all2\<close> holds of two lists of the same length, element by element). The elements
  counted are those at their place in the grammar; a \<^verbatim>\<open>trk\<close> inside an unknown element or
  inside \<^verbatim>\<open>extensions\<close> is skipped or captured with its parent. A decode that fails
  returns no document.
\<close>

theorem Decode_tracks_segments_points:
  assumes "\<forall>tok \<in> set pre. \<not> isStartElement tok"
    and "Decode L strict (pre @ tokensOf (Element n as cs) @ rest) e = Ok doc"
  shows "list_all2
      (\<lambda>track trk.
        list_all2
          (\<lambda>seg trkseg.
            list_all2 (pointDecodedFrom L strict) (Points seg)
              (elementsNamed ''trkpt'' (childNodes trkseg)))
          (Segments track) (elementsNamed ''trkseg'' (childNodes trk)))
      (Tracks doc) (elementsNamed ''trk'' cs)"
proof -
  from assms(2) have "documentOfElement L strict n as cs = Ok doc"
    by (simp only: Decode_element [OF assms(1)])
  then have "foldNodes (gpxChild L strict) (consumeGPX_attrs as (Document0 L)) cs = Ok doc"
    by (auto simp: documentOfElement_def split: if_splits)
  from foldNodes_gpxChild_Tracks [OF this]
  have tracks: "list_all2
      (\<lambda>track c. foldNodes (trackChild L strict) Track0 (childNodes c) = Ok track)
      (Tracks doc) (elementsNamed ''trk'' cs)"
    by (simp add: consumeGPX_attrs_Tracks Document0_def)
  have points: "list_all2 (pointDecodedFrom L strict) (Points seg)
      (elementsNamed ''trkpt'' (childNodes trkseg))"
    if "foldNodes (segmentChild L strict) Segment0 (childNodes trkseg) = Ok seg"
    for seg trkseg
  proof -
    from foldNodes_segmentChild_Points [OF that]
    have "list_all2
        (\<lambda>point c. pointOfElement L strict (snd (startOf c)) (childNodes c) = Ok point)
        (Points seg) (elementsNamed ''trkpt'' (childNodes trkseg))"
      by (simp add: Segment0_def)
    then show ?thesis
      by (rule list_all2_mono) (rule pointDecodedFrom_pointOfElement)
  qed
  have segments: "list_all2
      (\<lambda>seg trkseg. list_all2 (pointDecodedFrom L strict) (Points seg)
          (elementsNamed ''trkpt'' (childNodes trkseg)))
      (Segments track) (elementsNamed ''trkseg'' (childNodes trk))"
    if "foldNodes (trackChild L strict) Track0 (childNodes trk) = Ok track"
    for track trk
  proof -
    from foldNodes_trackChild_Segments [OF that]
    have "list_all2
        (\<lambda>seg c. foldNodes (segmentChild L strict) Segment0 (childNodes c) = Ok seg)
        (Segments track) (elementsNamed ''trkseg'' (childNodes trk))"
      by (simp add: Track0_def)
    then show ?thesis
      by (rule list_all2_mono) (rule points)
  qed
  from tracks show ?thesis
    by (rule list_all2_mono) (rule segments)
qed

theorem Decode_tracks_segments_points_witness:
  "Decode exampleLib True
      [ProcInst ''xml'' ''version=1.0'',
       StartElement (Name nsGPX11 ''gpx'') [Attr (Name [] ''version'') ''1.1''],
       StartElement (Name nsGPX11 ''trk'') [],
       StartElement (Name nsGPX11 ''trkseg'') [],
       StartElement (Name nsGPX11 ''trkpt'') [Attr (Name [] ''lat'') ''49.0''],
       EndElement (Name nsGPX11 ''trkpt''),
       StartElement (Name nsGPX11 ''trkpt'') [Attr (Name [] ''lat'') ''49.1''],
       EndElement (Name nsGPX11 ''trkpt''),
       EndElement (Name nsGPX11 ''trkseg''),
       EndElement (Name nsGPX11 ''trk''),
       StartElement (Name nsGPX11 ''wpt'') [], EndElement (Name nsGPX11 ''wpt''),
       EndElement (Name nsGPX11 ''gpx'')] EOF
    = Ok \<lparr>Version = ''1.1'', Metadata = \<lparr>Metadata.Time = []\<rparr>,
        Tracks = [\<lparr>Segments = [\<lparr>Points =
          [\<lparr>Latitude = 49, Longitude = 0, Elevation = 0, Time = [], Extensions = []\<rparr>,
           \<lparr>Latitude = 491 / 10, Longitude = 0, Elevation = 0, Time = [],
             Extensions = []\<rparr>]\<rparr>]\<rparr>]\<rparr>
   \<and> list_all2
      (\<lambda>track trk.
        list_all2
          (\<lambda>seg trkseg.
            list_all2 (pointDecodedFrom exampleLib True) (Points seg)
              (elementsNamed ''trkpt'' (childNodes trkseg)))
          (Segments track) (elementsNamed ''trkseg'' (childNodes trk)))
      [\<lparr>Segments = [\<lparr>Points =
          [\<lparr>Latitude = 49, Longitude = 0, Elevation = 0, Time = [], Extensions = []\<rparr>,
           \<lparr>Latitude = 491 / 10, Longitude = 0, Elevation = 0, Time = [],
             Extensions = []\<rparr>]\<rparr>]\<rparr>]
      (elementsNamed ''trk''
        [Element (Name nsGPX11 ''trk'') []
           [Element (Name nsGPX11 ''trkseg'') []
              [Element (Name nsGPX11 ''trkpt'') [Attr (Name [] ''lat'') ''49.0''] [],
               Element (Name nsGPX11 ''trkpt'') [Attr (Name [] ''lat'') ''49.1''] []]],
         Element (Name nsGPX11 ''wpt'') [] []])"
proof -
  let ?cs = "[Element (Name nsGPX11 ''trk'') []
           [Element (Name nsGPX11 ''trkseg'') []
              [Element (Name nsGPX11 ''trkpt'') [Attr (Name [] ''lat'') ''49.0''] [],
               Element (Name nsGPX11 ''trkpt'') [Attr (Name [] ''lat'') ''49.1''] []]],
         Element (Name nsGPX11 ''wpt'') [] []]"
  let ?doc = "\<lparr>Version = ''1.1'', Metadata = \<lparr>Metadata.Time = []\<rparr>,
        Tracks = [\<lparr>Segments = [\<lparr>Points =
          [\<lparr>Latitude = 49, Longitude = 0, Elevation = 0, Time = [], Extensions = []\<rparr>,
           \<lparr>Latitude = 491 / 10, Longitude = 0, Elevation = 0, Time = [],
             Extensions = []\<rparr>]\<rparr>]\<rparr>]\<rparr> :: (rat, string) Document"
  have h1: "\<forall>tok \<in> set [ProcInst ''xml'' ''version=1.0'']. \<not> isStartElement tok" by simp
  have h2: "Decode exampleLib True
      ([ProcInst ''xml'' ''version=1.0'']
        @ tokensOf (Element (Name nsGPX11 ''gpx'') [Attr (Name [] ''version'') ''1.1''] ?cs)
        @ []) EOF = Ok ?doc"
    by (simp add: example_defs)
  from Decode_tracks_segments_points [OF h1 h2] h2 show ?thesis by simp
qed

section \<open>Unknown elements\<close>

lemma foldNodes_skip:
  assumes "\<And>a. f a u = Ok a"
  shows "foldNodes f acc (xs @ u # ys) = foldNodes f acc (xs @ ys)"
  by (simp add: foldNodes_append assms split: result.splits)

lemma foldNodes_replace:
  assumes "\<And>a. f a c = f a c'"
  shows "foldNodes f acc (xs @ c # ys) = foldNodes f acc (xs @ c' # ys)"
  by (simp add: foldNodes_append assms split: result.splits)

lemma documentOfElement_replace:
  assumes "\<And>d. gpxChild L strict d c = gpxChild L strict d c'"
  shows "documentOfElement L strict g ga (gs1 @ c # gs2)
    = documentOfElement L strict g ga (gs1 @ c' # gs2)"
  unfolding documentOfElement_def using foldNodes_replace [of "gpxChild L strict" c c', OF assms]
  by simp

text \<open>
  Claim C5: an element \<open>Element u ua uc\<close> whose name is not read at a grammar level, with
  any nodes \<open>uc\<close> as content, inserted anywhere among the children of the root, of a
  \<^verbatim>\<open>metadata\<close>, a \<^verbatim>\<open>trk\<close>, a \<^verbatim>\<open>trkseg\<close> or a \<^verbatim>\<open>trkpt\<close> element, leaves the result of \<^verbatim>\<open>Decode\<close>
  as it is without the element: the same document, or the same failure. The five parts
  are the five levels; the lists with index 1 and 2 are the siblings before and after.
\<close>

theorem Decode_unknown_element:
  assumes "\<forall>tok \<in> set pre. \<not> isStartElement tok"
  shows
    "(Local u \<noteq> ''trk'' \<and> Local u \<noteq> ''metadata''
      \<longrightarrow> Decode L strict (pre @ tokensOf (Element g ga (gs1 @ Element u ua uc # gs2)) @ rest) e
        = Decode L strict (pre @ tokensOf (Element g ga (gs1 @ gs2)) @ rest) e)
     \<and> (Local m = ''metadata'' \<and> Local u \<noteq> ''time''
      \<longrightarrow> Decode L strict
            (pre @ tokensOf (Element g ga
              (gs1 @ Element m ma (ms1 @ Element u ua uc # ms2) # gs2)) @ rest) e
        = Decode L strict
            (pre @ tokensOf (Element g ga (gs1 @ Element m ma (ms1 @ ms2) # gs2)) @ rest) e)
     \<and> (Local t = ''trk'' \<and> Local u \<noteq> ''trkseg''
      \<longrightarrow> Decode L strict
            (pre @ tokensOf (Element g ga
              (gs1 @ Element t ta (ts1 @ Element u ua uc # ts2) # gs2)) @ rest) e
        = Decode L strict
            (pre @ tokensOf (Element g ga (gs1 @ Element t ta (ts1 @ ts2) # gs2)) @ rest) e)
     \<and> (Local t = ''trk'' \<and> Local s = ''trkseg'' \<and> Local u \<noteq> ''trkpt''
      \<longrightarrow> Decode L strict
            (pre @ tokensOf (Element g ga
              (gs1 @ Element t ta
                (ts1 @ Element s sa (ss1 @ Element u ua uc # ss2) # ts2) # gs2)) @ rest) e
        = Decode L strict
            (pre @ tokensOf (Element g ga
              (gs1 @ Element t ta (ts1 @ Element s sa (ss1 @ ss2) # ts2) # gs2)) @ rest) e)
     \<and> (Local t = ''trk'' \<and> Local s = ''trkseg'' \<and> Local p = ''trkpt''
          \<and> Local u \<noteq> ''ele'' \<and> Local u \<noteq> ''time'' \<and> Local u \<noteq> ''extensions''
      \<longrightarrow> Decode L strict
            (pre @ tokensOf (Element g ga
              (gs1 @ Element t ta
                (ts1 @ Element s sa
                  (ss1 @ Element p pa (ps1 @ Element u ua uc # ps2) # ss2) # ts2) # gs2))
              @ rest) e
        = Decode L strict
            (pre @ tokensOf (Element g ga
              (gs1 @ Element t ta
                (ts1 @ Element s sa (ss1 @ Element p pa (ps1 @ ps2) # ss2) # ts2) # gs2))
              @ rest) e)"
proof (intro conjI impI)
  assume "Local u \<noteq> ''trk'' \<and> Local u \<noteq> ''metadata''"
  then have "gpxChild L strict d (Element u ua uc) = Ok d" for d :: "('a, 'b) Document"
    by simp
  then show "Decode L strict (pre @ tokensOf (Element g ga (gs1 @ Element u ua uc # gs2)) @ rest) e
      = Decode L strict (pre @ tokensOf (Element g ga (gs1 @ gs2)) @ rest) e"
    unfolding Decode_element [OF assms] documentOfElement_def
    by (simp add: foldNodes_skip)
next
  assume a: "Local m = ''metadata'' \<and> Local u \<noteq> ''time''"
  then have "metadataChild L md (Element u ua uc) = Ok md" for md :: "'b Metadata"
    by simp
  then have "foldNodes (metadataChild L) md (ms1 @ Element u ua uc # ms2)
      = foldNodes (metadataChild L) md (ms1 @ ms2)" for md :: "'b Metadata"
    by (rule foldNodes_skip)
  with a have "gpxChild L strict d (Element m ma (ms1 @ Element u ua uc # ms2))
      = gpxChild L strict d (Element m ma (ms1 @ ms2))" for d :: "('a, 'b) Document"
    by simp
  then show "Decode L strict
        (pre @ tokensOf (Element g ga
          (gs1 @ Element m ma (ms1 @ Element u ua uc # ms2) # gs2)) @ rest) e
      = Decode L strict
        (pre @ tokensOf (Element g ga (gs1 @ Element m ma (ms1 @ ms2) # gs2)) @ rest) e"
    unfolding Decode_element [OF assms] by (rule documentOfElement_replace)
next
  assume a: "Local t = ''trk'' \<and> Local u \<noteq> ''trkseg''"
  then have "trackChild L strict tr (Element u ua uc) = Ok tr" for tr :: "('a, 'b) Track"
    by simp
  then have "foldNodes (trackChild L strict) tr (ts1 @ Element u ua uc # ts2)
      = foldNodes (trackChild L strict) tr (ts1 @ ts2)" for tr :: "('a, 'b) Track"
    by (rule foldNodes_skip)
  with a have "gpxChild L strict d (Element t ta (ts1 @ Element u ua uc # ts2))
      = gpxChild L strict d (Element t ta (ts1 @ ts2))" for d :: "('a, 'b) Document"
    by simp
  then show "Decode L strict
        (pre @ tokensOf (Element g ga
          (gs1 @ Element t ta (ts1 @ Element u ua uc # ts2) # gs2)) @ rest) e
      = Decode L strict
        (pre @ tokensOf (Element g ga (gs1 @ Element t ta (ts1 @ ts2) # gs2)) @ rest) e"
    unfolding Decode_element [OF assms] by (rule documentOfElement_replace)
next
  assume a: "Local t = ''trk'' \<and> Local s = ''trkseg'' \<and> Local u \<noteq> ''trkpt''"
  then have "segmentChild L strict sg (Element u ua uc) = Ok sg" for sg :: "('a, 'b) Segment"
    by simp
  then have "foldNodes (segmentChild L strict) sg (ss1 @ Element u ua uc # ss2)
      = foldNodes (segmentChild L strict) sg (ss1 @ ss2)" for sg :: "('a, 'b) Segment"
    by (rule foldNodes_skip)
  with a have "trackChild L strict tr (Element s sa (ss1 @ Element u ua uc # ss2))
      = trackChild L strict tr (Element s sa (ss1 @ ss2))" for tr :: "('a, 'b) Track"
    by simp
  then have "foldNodes (trackChild L strict) tr
        (ts1 @ Element s sa (ss1 @ Element u ua uc # ss2) # ts2)
      = foldNodes (trackChild L strict) tr (ts1 @ Element s sa (ss1 @ ss2) # ts2)"
    for tr :: "('a, 'b) Track"
    by (rule foldNodes_replace)
  with a have "gpxChild L strict d
        (Element t ta (ts1 @ Element s sa (ss1 @ Element u ua uc # ss2) # ts2))
      = gpxChild L strict d (Element t ta (ts1 @ Element s sa (ss1 @ ss2) # ts2))"
    for d :: "('a, 'b) Document"
    by simp
  then show "Decode L strict
        (pre @ tokensOf (Element g ga
          (gs1 @ Element t ta
            (ts1 @ Element s sa (ss1 @ Element u ua uc # ss2) # ts2) # gs2)) @ rest) e
      = Decode L strict
        (pre @ tokensOf (Element g ga
          (gs1 @ Element t ta (ts1 @ Element s sa (ss1 @ ss2) # ts2) # gs2)) @ rest) e"
    unfolding Decode_element [OF assms] by (rule documentOfElement_replace)
next
  assume a: "Local t = ''trk'' \<and> Local s = ''trkseg'' \<and> Local p = ''trkpt''
      \<and> Local u \<noteq> ''ele'' \<and> Local u \<noteq> ''time'' \<and> Local u \<noteq> ''extensions''"
  then have "pointChild L pt (Element u ua uc) = Ok pt" for pt :: "('a, 'b) Point"
    by simp
  then have "foldNodes (pointChild L) pt (ps1 @ Element u ua uc # ps2)
      = foldNodes (pointChild L) pt (ps1 @ ps2)" for pt :: "('a, 'b) Point"
    by (rule foldNodes_skip)
  then have "pointOfElement L strict pa (ps1 @ Element u ua uc # ps2)
      = pointOfElement L strict pa (ps1 @ ps2)"
    by (simp add: pointOfElement_def split: result.splits)
  with a have "segmentChild L strict sg (Element p pa (ps1 @ Element u ua uc # ps2))
      = segmentChild L strict sg (Element p pa (ps1 @ ps2))" for sg :: "('a, 'b) Segment"
    by simp
  then have "foldNodes (segmentChild L strict) sg
        (ss1 @ Element p pa (ps1 @ Element u ua uc # ps2) # ss2)
      = foldNodes (segmentChild L strict) sg (ss1 @ Element p pa (ps1 @ ps2) # ss2)"
    for sg :: "('a, 'b) Segment"
    by (rule foldNodes_replace)
  with a have "trackChild L strict tr
        (Element s sa (ss1 @ Element p pa (ps1 @ Element u ua uc # ps2) # ss2))
      = trackChild L strict tr (Element s sa (ss1 @ Element p pa (ps1 @ ps2) # ss2))"
    for tr :: "('a, 'b) Track"
    by simp
  then have "foldNodes (trackChild L strict) tr
        (ts1 @ Element s sa (ss1 @ Element p pa (ps1 @ Element u ua uc # ps2) # ss2) # ts2)
      = foldNodes (trackChild L strict) tr
        (ts1 @ Element s sa (ss1 @ Element p pa (ps1 @ ps2) # ss2) # ts2)"
    for tr :: "('a, 'b) Track"
    by (rule foldNodes_replace)
  with a have "gpxChild L strict d
        (Element t ta
          (ts1 @ Element s sa (ss1 @ Element p pa (ps1 @ Element u ua uc # ps2) # ss2) # ts2))
      = gpxChild L strict d
        (Element t ta (ts1 @ Element s sa (ss1 @ Element p pa (ps1 @ ps2) # ss2) # ts2))"
    for d :: "('a, 'b) Document"
    by simp
  then show "Decode L strict
        (pre @ tokensOf (Element g ga
          (gs1 @ Element t ta
            (ts1 @ Element s sa
              (ss1 @ Element p pa (ps1 @ Element u ua uc # ps2) # ss2) # ts2) # gs2))
          @ rest) e
      = Decode L strict
        (pre @ tokensOf (Element g ga
          (gs1 @ Element t ta
            (ts1 @ Element s sa (ss1 @ Element p pa (ps1 @ ps2) # ss2) # ts2) # gs2))
          @ rest) e"
    unfolding Decode_element [OF assms] by (rule documentOfElement_replace)
qed

theorem Decode_unknown_element_witness:
  "Decode exampleLib True
      [StartElement (Name nsGPX11 ''gpx'') [],
       StartElement (Name nsGPX11 ''trk'') [],
       StartElement (Name nsGPX11 ''trkseg'') [],
       StartElement (Name nsGPX11 ''trkpt'') [],
       StartElement (Name nsGPX11 ''sat'') [],
       StartElement (Name nsGPX11 ''ele'') [], CharData ''7'', EndElement (Name nsGPX11 ''ele''),
       EndElement (Name nsGPX11 ''sat''),
       StartElement (Name nsGPX11 ''ele'') [], CharData ''350.5'',
       EndElement (Name nsGPX11 ''ele''),
       EndElement (Name nsGPX11 ''trkpt''),
       EndElement (Name nsGPX11 ''trkseg''),
       EndElement (Name nsGPX11 ''trk''),
       EndElement (Name nsGPX11 ''gpx'')] EOF
    = Ok \<lparr>Version = [], Metadata = \<lparr>Metadata.Time = []\<rparr>,
        Tracks = [\<lparr>Segments = [\<lparr>Points =
          [\<lparr>Latitude = 0, Longitude = 0, Elevation = 701 / 2, Time = [],
             Extensions = []\<rparr>]\<rparr>]\<rparr>]\<rparr>
   \<and> Decode exampleLib True
      [StartElement (Name nsGPX11 ''gpx'') [],
       StartElement (Name nsGPX11 ''trk'') [],
       StartElement (Name nsGPX11 ''trkseg'') [],
       StartElement (Name nsGPX11 ''trkpt'') [],
       StartElement (Name nsGPX11 ''ele'') [], CharData ''350.5'',
       EndElement (Name nsGPX11 ''ele''),
       EndElement (Name nsGPX11 ''trkpt''),
       EndElement (Name nsGPX11 ''trkseg''),
       EndElement (Name nsGPX11 ''trk''),
       EndElement (Name nsGPX11 ''gpx'')] EOF
    = Ok \<lparr>Version = [], Metadata = \<lparr>Metadata.Time = []\<rparr>,
        Tracks = [\<lparr>Segments = [\<lparr>Points =
          [\<lparr>Latitude = 0, Longitude = 0, Elevation = 701 / 2, Time = [],
             Extensions = []\<rparr>]\<rparr>]\<rparr>]\<rparr>"
proof -
  have h1: "\<forall>tok \<in> set ([] :: xml_Token list). \<not> isStartElement tok" by simp
  note inst = Decode_unknown_element [OF h1,
      where L = exampleLib and strict = True and e = EOF and rest = "[]"
        and g = "Name nsGPX11 ''gpx''" and ga = "[]" and ?gs1.0 = "[]" and ?gs2.0 = "[]"
        and t = "Name nsGPX11 ''trk''" and ta = "[]" and ?ts1.0 = "[]" and ?ts2.0 = "[]"
        and s = "Name nsGPX11 ''trkseg''" and sa = "[]" and ?ss1.0 = "[]" and ?ss2.0 = "[]"
        and p = "Name nsGPX11 ''trkpt''" and pa = "[]" and ?ps1.0 = "[]"
        and ?ps2.0 = "[Element (Name nsGPX11 ''ele'') [] [Text ''350.5'']]"
        and u = "Name nsGPX11 ''sat''" and ua = "[]"
        and uc = "[Element (Name nsGPX11 ''ele'') [] [Text ''7'']]"]
  have without: "Decode exampleLib True
      [StartElement (Name nsGPX11 ''gpx'') [],
       StartElement (Name nsGPX11 ''trk'') [],
       StartElement (Name nsGPX11 ''trkseg'') [],
       StartElement (Name nsGPX11 ''trkpt'') [],
       StartElement (Name nsGPX11 ''ele'') [], CharData ''350.5'',
       EndElement (Name nsGPX11 ''ele''),
       EndElement (Name nsGPX11 ''trkpt''),
       EndElement (Name nsGPX11 ''trkseg''),
       EndElement (Name nsGPX11 ''trk''),
       EndElement (Name nsGPX11 ''gpx'')] EOF
    = Ok \<lparr>Version = [], Metadata = \<lparr>Metadata.Time = []\<rparr>,
        Tracks = [\<lparr>Segments = [\<lparr>Points =
          [\<lparr>Latitude = 0, Longitude = 0, Elevation = 701 / 2, Time = [],
             Extensions = []\<rparr>]\<rparr>]\<rparr>]\<rparr>"
    by (simp add: example_defs)
  from inst without show ?thesis by simp
qed

section \<open>Names are matched by their local part\<close>

lemma respace_simps [simp]:
  "Local (respace h n) = Local n" "Space (respace h n) = h n"
  "Local (Attr_Name (respaceAttr h a)) = Local (Attr_Name a)"
  "Value (respaceAttr h a) = Value a"
  by (simp_all add: respace_def respaceAttr_def)





lemma respaced_simps [simp]:
  "respaced h g (Ok x, T) = (Ok (g x), respaceTokener h T)"
  "respaced h g (Fail f, T) = (Fail f, respaceTokener h T)"
  by (simp_all add: respaced_def)






























section \<open>The two revisions compared\<close>

lemma isFail_propagate:
  "isFail (fst p) \<Longrightarrow>
    isFail (fst (case p of (Fail f, ts) \<Rightarrow> (Fail f, ts) | (Ok v, ts) \<Rightarrow> g v ts))"
  by (cases p; cases "fst p") auto

lemma simpleFloatLeaf_cases:
  assumes "simpleFloatLeaf L strict cs"
  obtains s where "cs = [Text s]" and "strict \<or> snd (ParseFloat L s) = None"
  using assms by (induction L strict cs rule: simpleFloatLeaf.induct) auto

lemma simpleTimeLeaf_cases:
  assumes "simpleTimeLeaf L strict cs"
  obtains s where "cs = [Text s]" and "strict \<or> snd (time_Parse L s) = None"
  using assms by (induction L strict cs rule: simpleTimeLeaf.induct) auto

lemma consumeEle_lc_leaf_Ok:
  assumes "simpleFloatLeaf L strict cs" and "leafFloat L cs = Ok v"
  shows "consumeEle_lc L strict se (XMLDecoder (tokensOfList cs @ EndElement m # rest) e)
      = (Ok v, XMLDecoder rest e)"
proof -
  from assms(1) obtain s where "cs = [Text s]" by (rule simpleFloatLeaf_cases)
  with assms(2) show ?thesis
    by (auto simp: leafFloat_def consumeEle_lc_def split: prod.splits option.splits)
qed

lemma consumeEle_lc_leaf_Fail:
  assumes "simpleFloatLeaf L strict cs" and "leafFloat L cs = Fail f"
  shows "isFail (fst (consumeEle_lc L strict se
      (XMLDecoder (tokensOfList cs @ EndElement m # rest) e)))"
proof -
  from assms(1) obtain s where "cs = [Text s]" "strict \<or> snd (ParseFloat L s) = None"
    by (rule simpleFloatLeaf_cases)
  with assms(2) show ?thesis
    by (auto simp: leafFloat_def consumeEle_lc_def split: prod.splits option.splits)
qed

lemma consumeTime_lc_leaf_Ok:
  assumes "simpleTimeLeaf L strict cs" and "leafTime L cs = Ok v"
  shows "consumeTime_lc L strict se (XMLDecoder (tokensOfList cs @ EndElement m # rest) e)
      = (Ok v, XMLDecoder rest e)"
proof -
  from assms(1) obtain s where "cs = [Text s]" by (rule simpleTimeLeaf_cases)
  with assms(2) show ?thesis
    by (auto simp: leafTime_def consumeTime_lc_def split: prod.splits option.splits)
qed

lemma consumeTime_lc_leaf_Fail:
  assumes "simpleTimeLeaf L strict cs" and "leafTime L cs = Fail f"
  shows "isFail (fst (consumeTime_lc L strict se
      (XMLDecoder (tokensOfList cs @ EndElement m # rest) e)))"
proof -
  from assms(1) obtain s where "cs = [Text s]" "strict \<or> snd (time_Parse L s) = None"
    by (rule simpleTimeLeaf_cases)
  with assms(2) show ?thesis
    by (auto simp: leafTime_def consumeTime_lc_def split: prod.splits option.splits)
qed

lemma consumeExtensions_lc_loop_tokensOf:
  "0 \<le> lvl \<Longrightarrow>
    consumeExtensions_lc_loop lvl tokens (XMLDecoder (tokensOf node @ rest) e)
      = consumeExtensions_lc_loop lvl (tokens @ tokensOf node) (XMLDecoder rest e)"
proof (induction node arbitrary: lvl tokens rest)
  case (Element n as cs)
  have children: "consumeExtensions_lc_loop l acc (XMLDecoder (concat (map tokensOf cs) @ r) e)
      = consumeExtensions_lc_loop l (acc @ concat (map tokensOf cs)) (XMLDecoder r e)"
    if "0 \<le> l" for l acc r
    using Element.IH that by (induction cs arbitrary: acc) simp_all
  from Element.prems show ?case by (simp add: children)
qed simp_all

lemma consumeExtensions_lc_loop_tokensOfList:
  "0 \<le> lvl \<Longrightarrow>
    consumeExtensions_lc_loop lvl tokens (XMLDecoder (tokensOfList cs @ rest) e)
      = consumeExtensions_lc_loop lvl (tokens @ tokensOfList cs) (XMLDecoder rest e)"
  by (induction cs arbitrary: tokens) (simp_all add: consumeExtensions_lc_loop_tokensOf)

lemma consumeExtensions_lc_element:
  "Local m = ''extensions'' \<Longrightarrow>
    consumeExtensions_lc se (XMLDecoder (tokensOfList cs @ EndElement m # rest) e)
      = (Ok (tokensOfList cs), XMLDecoder rest e)"
  by (simp add: consumeExtensions_lc_def consumeExtensions_lc_loop_tokensOfList)

lemma consumePoint_lc_loop_skip:
  "0 < lvl \<Longrightarrow>
    consumePoint_lc_loop L strict lvl point (XMLDecoder (tokensOf node @ rest) e)
      = consumePoint_lc_loop L strict lvl point (XMLDecoder rest e)"
proof (induction node arbitrary: lvl rest)
  case (Element n as cs)
  have children: "consumePoint_lc_loop L strict l point
        (XMLDecoder (concat (map tokensOf cs) @ r) e)
      = consumePoint_lc_loop L strict l point (XMLDecoder r e)"
    if "0 < l" for l r
    using Element.IH that by (induction cs) simp_all
  from Element.prems show ?case by (simp add: children)
qed simp_all

lemma consumePoint_lc_loop_skip_list:
  "0 < lvl \<Longrightarrow>
    consumePoint_lc_loop L strict lvl point (XMLDecoder (tokensOfList cs @ rest) e)
      = consumePoint_lc_loop L strict lvl point (XMLDecoder rest e)"
  by (induction cs) (simp_all add: consumePoint_lc_loop_skip)

lemma consumePoint_lc_loop_node_Ok:
  "pointLeaves L strict c \<Longrightarrow> pointChild L point c = Ok point' \<Longrightarrow>
    consumePoint_lc_loop L strict 0 point (XMLDecoder (tokensOf c @ rest) e)
      = consumePoint_lc_loop L strict 0 point' (XMLDecoder rest e)"
proof (cases c)
  case (Element n as cs)
  assume "pointLeaves L strict c" "pointChild L point c = Ok point'"
  with Element show ?thesis
    by (auto simp: consumeEle_lc_leaf_Ok consumeTime_lc_leaf_Ok consumeExtensions_lc_element
        consumePoint_lc_loop_skip_list tokensOfList_def [symmetric]
        split: if_splits result.splits)
qed auto

lemma consumePoint_lc_loop_node_Fail:
  "pointLeaves L strict c \<Longrightarrow> pointChild L point c = Fail f \<Longrightarrow>
    isFail (fst (consumePoint_lc_loop L strict 0 point (XMLDecoder (tokensOf c @ rest) e)))"
proof (cases c)
  case (Element n as cs)
  assume "pointLeaves L strict c" "pointChild L point c = Fail f"
  with Element show ?thesis
    by (auto simp: consumeEle_lc_leaf_Fail consumeTime_lc_leaf_Fail isFail_propagate
        tokensOfList_def [symmetric] split: if_splits result.splits)
qed auto

lemma consumePoint_lc_loop_nodes_Ok:
  "list_all (pointLeaves L strict) cs \<Longrightarrow> foldNodes (pointChild L) point cs = Ok point' \<Longrightarrow>
    consumePoint_lc_loop L strict 0 point (XMLDecoder (tokensOfList cs @ rest) e)
      = consumePoint_lc_loop L strict 0 point' (XMLDecoder rest e)"
  by (induction cs arbitrary: point)
     (auto simp: consumePoint_lc_loop_node_Ok split: result.splits)

lemma consumePoint_lc_loop_nodes_Fail:
  "list_all (pointLeaves L strict) cs \<Longrightarrow> foldNodes (pointChild L) point cs = Fail f \<Longrightarrow>
    isFail (fst (consumePoint_lc_loop L strict 0 point
      (XMLDecoder (tokensOfList cs @ rest) e)))"
  by (induction cs arbitrary: point)
     (auto simp: consumePoint_lc_loop_node_Ok consumePoint_lc_loop_node_Fail
        split: result.splits)

lemma consumePoint_lc_element_Ok:
  "list_all (pointLeaves L strict) cs \<Longrightarrow> Local m = ''trkpt'' \<Longrightarrow>
    pointOfElement L strict as cs = Ok point \<Longrightarrow>
    consumePoint_lc L strict (n, as) (XMLDecoder (tokensOfList cs @ EndElement m # rest) e)
      = (Ok point, XMLDecoder rest e)"
  by (auto simp: pointOfElement_def consumePoint_lc_def consumePoint_lc_loop_nodes_Ok
      split: result.splits)

lemma consumePoint_lc_element_Fail:
  "list_all (pointLeaves L strict) cs \<Longrightarrow> Local m = ''trkpt'' \<Longrightarrow>
    pointOfElement L strict as cs = Fail f \<Longrightarrow>
    isFail (fst (consumePoint_lc L strict (n, as)
      (XMLDecoder (tokensOfList cs @ EndElement m # rest) e)))"
  by (auto simp: pointOfElement_def consumePoint_lc_def consumePoint_lc_loop_nodes_Fail
      split: result.splits)


lemma consumeSegment_lc_loop_skip:
  "0 < lvl \<Longrightarrow>
    consumeSegment_lc_loop L strict lvl seg (XMLDecoder (tokensOf node @ rest) e)
      = consumeSegment_lc_loop L strict lvl seg (XMLDecoder rest e)"
proof (induction node arbitrary: lvl rest)
  case (Element n as cs)
  have children: "consumeSegment_lc_loop L strict l seg
        (XMLDecoder (concat (map tokensOf cs) @ r) e)
      = consumeSegment_lc_loop L strict l seg (XMLDecoder r e)"
    if "0 < l" for l r
    using Element.IH that by (induction cs) simp_all
  from Element.prems show ?case by (simp add: children)
qed simp_all

lemma consumeSegment_lc_loop_skip_list:
  "0 < lvl \<Longrightarrow>
    consumeSegment_lc_loop L strict lvl seg (XMLDecoder (tokensOfList cs @ rest) e)
      = consumeSegment_lc_loop L strict lvl seg (XMLDecoder rest e)"
  by (induction cs) (simp_all add: consumeSegment_lc_loop_skip)

lemma consumeSegment_lc_loop_node_Ok:
  "segmentLeaves L strict c \<Longrightarrow> segmentChild L strict seg c = Ok seg' \<Longrightarrow>
    consumeSegment_lc_loop L strict 0 seg (XMLDecoder (tokensOf c @ rest) e)
      = consumeSegment_lc_loop L strict 0 seg' (XMLDecoder rest e)"
proof (cases c)
  case (Element n as cs)
  assume "segmentLeaves L strict c" "segmentChild L strict seg c = Ok seg'"
  with Element show ?thesis
    by (auto simp: consumePoint_lc_element_Ok consumeSegment_lc_loop_skip_list tokensOfList_def [symmetric]
        split: if_splits result.splits)
qed auto

lemma consumeSegment_lc_loop_node_Fail:
  "segmentLeaves L strict c \<Longrightarrow> segmentChild L strict seg c = Fail f \<Longrightarrow>
    isFail (fst (consumeSegment_lc_loop L strict 0 seg (XMLDecoder (tokensOf c @ rest) e)))"
proof (cases c)
  case (Element n as cs)
  assume "segmentLeaves L strict c" "segmentChild L strict seg c = Fail f"
  with Element show ?thesis
    by (auto simp: consumePoint_lc_element_Fail isFail_propagate tokensOfList_def [symmetric]
        split: if_splits result.splits)
qed auto

lemma consumeSegment_lc_loop_nodes_Ok:
  "list_all (segmentLeaves L strict) cs \<Longrightarrow> foldNodes (segmentChild L strict) seg cs = Ok seg' \<Longrightarrow>
    consumeSegment_lc_loop L strict 0 seg (XMLDecoder (tokensOfList cs @ rest) e)
      = consumeSegment_lc_loop L strict 0 seg' (XMLDecoder rest e)"
  by (induction cs arbitrary: seg)
     (auto simp: consumeSegment_lc_loop_node_Ok split: result.splits)

lemma consumeSegment_lc_loop_nodes_Fail:
  "list_all (segmentLeaves L strict) cs \<Longrightarrow> foldNodes (segmentChild L strict) seg cs = Fail f \<Longrightarrow>
    isFail (fst (consumeSegment_lc_loop L strict 0 seg (XMLDecoder (tokensOfList cs @ rest) e)))"
  by (induction cs arbitrary: seg)
     (auto simp: consumeSegment_lc_loop_node_Ok consumeSegment_lc_loop_node_Fail split: result.splits)

lemma consumeSegment_lc_element_Ok:
  "list_all (segmentLeaves L strict) cs \<Longrightarrow> Local m = ''trkseg'' \<Longrightarrow>
    foldNodes (segmentChild L strict) Segment0 cs = Ok seg \<Longrightarrow>
    consumeSegment_lc L strict se (XMLDecoder (tokensOfList cs @ EndElement m # rest) e)
      = (Ok seg, XMLDecoder rest e)"
  by (simp add: consumeSegment_lc_def consumeSegment_lc_loop_nodes_Ok)

lemma consumeSegment_lc_element_Fail:
  "list_all (segmentLeaves L strict) cs \<Longrightarrow> Local m = ''trkseg'' \<Longrightarrow>
    foldNodes (segmentChild L strict) Segment0 cs = Fail f \<Longrightarrow>
    isFail (fst (consumeSegment_lc L strict se
      (XMLDecoder (tokensOfList cs @ EndElement m # rest) e)))"
  by (simp add: consumeSegment_lc_def consumeSegment_lc_loop_nodes_Fail)

lemma consumeTrack_lc_loop_skip:
  "0 < lvl \<Longrightarrow>
    consumeTrack_lc_loop L strict lvl track (XMLDecoder (tokensOf node @ rest) e)
      = consumeTrack_lc_loop L strict lvl track (XMLDecoder rest e)"
proof (induction node arbitrary: lvl rest)
  case (Element n as cs)
  have children: "consumeTrack_lc_loop L strict l track
        (XMLDecoder (concat (map tokensOf cs) @ r) e)
      = consumeTrack_lc_loop L strict l track (XMLDecoder r e)"
    if "0 < l" for l r
    using Element.IH that by (induction cs) simp_all
  from Element.prems show ?case by (simp add: children)
qed simp_all

lemma consumeTrack_lc_loop_skip_list:
  "0 < lvl \<Longrightarrow>
    consumeTrack_lc_loop L strict lvl track (XMLDecoder (tokensOfList cs @ rest) e)
      = consumeTrack_lc_loop L strict lvl track (XMLDecoder rest e)"
  by (induction cs) (simp_all add: consumeTrack_lc_loop_skip)

lemma consumeTrack_lc_loop_node_Ok:
  "trackLeaves L strict c \<Longrightarrow> trackChild L strict track c = Ok track' \<Longrightarrow>
    consumeTrack_lc_loop L strict 0 track (XMLDecoder (tokensOf c @ rest) e)
      = consumeTrack_lc_loop L strict 0 track' (XMLDecoder rest e)"
proof (cases c)
  case (Element n as cs)
  assume "trackLeaves L strict c" "trackChild L strict track c = Ok track'"
  with Element show ?thesis
    by (auto simp: consumeSegment_lc_element_Ok consumeTrack_lc_loop_skip_list tokensOfList_def [symmetric]
        split: if_splits result.splits)
qed auto

lemma consumeTrack_lc_loop_node_Fail:
  "trackLeaves L strict c \<Longrightarrow> trackChild L strict track c = Fail f \<Longrightarrow>
    isFail (fst (consumeTrack_lc_loop L strict 0 track (XMLDecoder (tokensOf c @ rest) e)))"
proof (cases c)
  case (Element n as cs)
  assume "trackLeaves L strict c" "trackChild L strict track c = Fail f"
  with Element show ?thesis
    by (auto simp: consumeSegment_lc_element_Fail isFail_propagate tokensOfList_def [symmetric]
        split: if_splits result.splits)
qed auto

lemma consumeTrack_lc_loop_nodes_Ok:
  "list_all (trackLeaves L strict) cs \<Longrightarrow> foldNodes (trackChild L strict) track cs = Ok track' \<Longrightarrow>
    consumeTrack_lc_loop L strict 0 track (XMLDecoder (tokensOfList cs @ rest) e)
      = consumeTrack_lc_loop L strict 0 track' (XMLDecoder rest e)"
  by (induction cs arbitrary: track)
     (auto simp: consumeTrack_lc_loop_node_Ok split: result.splits)

lemma consumeTrack_lc_loop_nodes_Fail:
  "list_all (trackLeaves L strict) cs \<Longrightarrow> foldNodes (trackChild L strict) track cs = Fail f \<Longrightarrow>
    isFail (fst (consumeTrack_lc_loop L strict 0 track (XMLDecoder (tokensOfList cs @ rest) e)))"
  by (induction cs arbitrary: track)
     (auto simp: consumeTrack_lc_loop_node_Ok consumeTrack_lc_loop_node_Fail split: result.splits)

lemma consumeTrack_lc_element_Ok:
  "list_all (trackLeaves L strict) cs \<Longrightarrow> Local m = ''trk'' \<Longrightarrow>
    foldNodes (trackChild L strict) Track0 cs = Ok track \<Longrightarrow>
    consumeTrack_lc L strict se (XMLDecoder (tokensOfList cs @ EndElement m # rest) e)
      = (Ok track, XMLDecoder rest e)"
  by (simp add: consumeTrack_lc_def consumeTrack_lc_loop_nodes_Ok)

lemma consumeTrack_lc_element_Fail:
  "list_all (trackLeaves L strict) cs \<Longrightarrow> Local m = ''trk'' \<Longrightarrow>
    foldNodes (trackChild L strict) Track0 cs = Fail f \<Longrightarrow>
    isFail (fst (consumeTrack_lc L strict se
      (XMLDecoder (tokensOfList cs @ EndElement m # rest) e)))"
  by (simp add: consumeTrack_lc_def consumeTrack_lc_loop_nodes_Fail)

lemma consumeMetadata_lc_loop_skip:
  "0 < lvl \<Longrightarrow>
    consumeMetadata_lc_loop L strict lvl metadata (XMLDecoder (tokensOf node @ rest) e)
      = consumeMetadata_lc_loop L strict lvl metadata (XMLDecoder rest e)"
proof (induction node arbitrary: lvl rest)
  case (Element n as cs)
  have children: "consumeMetadata_lc_loop L strict l metadata
        (XMLDecoder (concat (map tokensOf cs) @ r) e)
      = consumeMetadata_lc_loop L strict l metadata (XMLDecoder r e)"
    if "0 < l" for l r
    using Element.IH that by (induction cs) simp_all
  from Element.prems show ?case by (simp add: children)
qed simp_all

lemma consumeMetadata_lc_loop_skip_list:
  "0 < lvl \<Longrightarrow>
    consumeMetadata_lc_loop L strict lvl metadata (XMLDecoder (tokensOfList cs @ rest) e)
      = consumeMetadata_lc_loop L strict lvl metadata (XMLDecoder rest e)"
  by (induction cs) (simp_all add: consumeMetadata_lc_loop_skip)

lemma consumeMetadata_lc_loop_node_Ok:
  "metadataLeaves L strict c \<Longrightarrow> metadataChild L metadata c = Ok metadata' \<Longrightarrow>
    consumeMetadata_lc_loop L strict 0 metadata (XMLDecoder (tokensOf c @ rest) e)
      = consumeMetadata_lc_loop L strict 0 metadata' (XMLDecoder rest e)"
proof (cases c)
  case (Element n as cs)
  assume "metadataLeaves L strict c" "metadataChild L metadata c = Ok metadata'"
  with Element show ?thesis
    by (auto simp: consumeTime_lc_leaf_Ok consumeMetadata_lc_loop_skip_list tokensOfList_def [symmetric]
        split: if_splits result.splits)
qed auto

lemma consumeMetadata_lc_loop_node_Fail:
  "metadataLeaves L strict c \<Longrightarrow> metadataChild L metadata c = Fail f \<Longrightarrow>
    isFail (fst (consumeMetadata_lc_loop L strict 0 metadata (XMLDecoder (tokensOf c @ rest) e)))"
proof (cases c)
  case (Element n as cs)
  assume "metadataLeaves L strict c" "metadataChild L metadata c = Fail f"
  with Element show ?thesis
    by (auto simp: consumeTime_lc_leaf_Fail isFail_propagate tokensOfList_def [symmetric]
        split: if_splits result.splits)
qed auto

lemma consumeMetadata_lc_loop_nodes_Ok:
  "list_all (metadataLeaves L strict) cs \<Longrightarrow> foldNodes (metadataChild L) metadata cs = Ok metadata' \<Longrightarrow>
    consumeMetadata_lc_loop L strict 0 metadata (XMLDecoder (tokensOfList cs @ rest) e)
      = consumeMetadata_lc_loop L strict 0 metadata' (XMLDecoder rest e)"
  by (induction cs arbitrary: metadata)
     (auto simp: consumeMetadata_lc_loop_node_Ok split: result.splits)

lemma consumeMetadata_lc_loop_nodes_Fail:
  "list_all (metadataLeaves L strict) cs \<Longrightarrow> foldNodes (metadataChild L) metadata cs = Fail f \<Longrightarrow>
    isFail (fst (consumeMetadata_lc_loop L strict 0 metadata (XMLDecoder (tokensOfList cs @ rest) e)))"
  by (induction cs arbitrary: metadata)
     (auto simp: consumeMetadata_lc_loop_node_Ok consumeMetadata_lc_loop_node_Fail split: result.splits)

lemma consumeMetadata_lc_element_Ok:
  "list_all (metadataLeaves L strict) cs \<Longrightarrow> Local m = ''metadata'' \<Longrightarrow>
    foldNodes (metadataChild L) (Metadata0 L) cs = Ok metadata \<Longrightarrow>
    consumeMetadata_lc L strict se (XMLDecoder (tokensOfList cs @ EndElement m # rest) e)
      = (Ok metadata, XMLDecoder rest e)"
  by (simp add: consumeMetadata_lc_def consumeMetadata_lc_loop_nodes_Ok)

lemma consumeMetadata_lc_element_Fail:
  "list_all (metadataLeaves L strict) cs \<Longrightarrow> Local m = ''metadata'' \<Longrightarrow>
    foldNodes (metadataChild L) (Metadata0 L) cs = Fail f \<Longrightarrow>
    isFail (fst (consumeMetadata_lc L strict se
      (XMLDecoder (tokensOfList cs @ EndElement m # rest) e)))"
  by (simp add: consumeMetadata_lc_def consumeMetadata_lc_loop_nodes_Fail)

lemma consumeGPX_lc_loop_skip:
  "0 < lvl \<Longrightarrow>
    consumeGPX_lc_loop L strict lvl doc (XMLDecoder (tokensOf node @ rest) e)
      = consumeGPX_lc_loop L strict lvl doc (XMLDecoder rest e)"
proof (induction node arbitrary: lvl rest)
  case (Element n as cs)
  have children: "consumeGPX_lc_loop L strict l doc
        (XMLDecoder (concat (map tokensOf cs) @ r) e)
      = consumeGPX_lc_loop L strict l doc (XMLDecoder r e)"
    if "0 < l" for l r
    using Element.IH that by (induction cs) simp_all
  from Element.prems show ?case by (simp add: children)
qed simp_all

lemma consumeGPX_lc_loop_skip_list:
  "0 < lvl \<Longrightarrow>
    consumeGPX_lc_loop L strict lvl doc (XMLDecoder (tokensOfList cs @ rest) e)
      = consumeGPX_lc_loop L strict lvl doc (XMLDecoder rest e)"
  by (induction cs) (simp_all add: consumeGPX_lc_loop_skip)

lemma consumeGPX_lc_loop_node_Ok:
  "gpxLeaves L strict c \<Longrightarrow> gpxChild L strict doc c = Ok doc' \<Longrightarrow>
    consumeGPX_lc_loop L strict 0 doc (XMLDecoder (tokensOf c @ rest) e)
      = consumeGPX_lc_loop L strict 0 doc' (XMLDecoder rest e)"
proof (cases c)
  case (Element n as cs)
  assume "gpxLeaves L strict c" "gpxChild L strict doc c = Ok doc'"
  with Element show ?thesis
    by (auto simp: consumeTrack_lc_element_Ok consumeMetadata_lc_element_Ok consumeGPX_lc_loop_skip_list tokensOfList_def [symmetric]
        split: if_splits result.splits)
qed auto

lemma consumeGPX_lc_loop_node_Fail:
  "gpxLeaves L strict c \<Longrightarrow> gpxChild L strict doc c = Fail f \<Longrightarrow>
    isFail (fst (consumeGPX_lc_loop L strict 0 doc (XMLDecoder (tokensOf c @ rest) e)))"
proof (cases c)
  case (Element n as cs)
  assume "gpxLeaves L strict c" "gpxChild L strict doc c = Fail f"
  with Element show ?thesis
    by (auto simp: consumeTrack_lc_element_Fail consumeMetadata_lc_element_Fail isFail_propagate tokensOfList_def [symmetric]
        split: if_splits result.splits)
qed auto

lemma consumeGPX_lc_loop_nodes_Ok:
  "list_all (gpxLeaves L strict) cs \<Longrightarrow> foldNodes (gpxChild L strict) doc cs = Ok doc' \<Longrightarrow>
    consumeGPX_lc_loop L strict 0 doc (XMLDecoder (tokensOfList cs @ rest) e)
      = consumeGPX_lc_loop L strict 0 doc' (XMLDecoder rest e)"
  by (induction cs arbitrary: doc)
     (auto simp: consumeGPX_lc_loop_node_Ok split: result.splits)

lemma consumeGPX_lc_loop_nodes_Fail:
  "list_all (gpxLeaves L strict) cs \<Longrightarrow> foldNodes (gpxChild L strict) doc cs = Fail f \<Longrightarrow>
    isFail (fst (consumeGPX_lc_loop L strict 0 doc (XMLDecoder (tokensOfList cs @ rest) e)))"
  by (induction cs arbitrary: doc)
     (auto simp: consumeGPX_lc_loop_node_Ok consumeGPX_lc_loop_node_Fail split: result.splits)

lemma Decode_lc_element:
  assumes "\<forall>tok \<in> set pre. \<not> isStartElement tok"
    and "list_all (gpxLeaves L strict) cs"
  shows "sameOutcome (Decode_lc L strict (pre @ tokensOf (Element n as cs) @ rest) e)
    (documentOfElement L strict n as cs)"
proof (cases "Local n = ''gpx'' \<and> Space n = nsGPX11")
  case False
  then show ?thesis
    by (auto simp: Decode_lc_def findGPX_prefix [OF assms(1)] documentOfElement_def
        sameOutcome_def)
next
  case True
  let ?doc0 = "consumeGPX_attrs as (Document0 L) :: ('a, 'b) Document"
  show ?thesis
  proof (cases "foldNodes (gpxChild L strict) ?doc0 cs")
    case (Ok doc)
    with True show ?thesis
      by (simp add: Decode_lc_def findGPX_prefix [OF assms(1)] documentOfElement_def
          consumeGPX_lc_def tokensOfList_def [symmetric]
          consumeGPX_lc_loop_nodes_Ok [OF assms(2)] sameOutcome_def)
  next
    case (Fail f)
    from consumeGPX_lc_loop_nodes_Fail [OF assms(2) Fail, of "EndElement n # rest" e]
    obtain f' where "fst (consumeGPX_lc_loop L strict 0 ?doc0
        (XMLDecoder (tokensOfList cs @ EndElement n # rest) e)) = Fail f'"
      by (cases "fst (consumeGPX_lc_loop L strict 0 ?doc0
        (XMLDecoder (tokensOfList cs @ EndElement n # rest) e))") auto
    with True Fail show ?thesis
      by (simp add: Decode_lc_def findGPX_prefix [OF assms(1)] documentOfElement_def
          consumeGPX_lc_def tokensOfList_def [symmetric] sameOutcome_def)
  qed
qed

lemmas example_lc_defs =
  Decode_lc_def consumeGPX_lc_def consumeTrack_lc_def consumeSegment_lc_def
  consumePoint_lc_def consumeMetadata_lc_def consumeExtensions_lc_def consumeEle_lc_def
  consumeTime_lc_def

text \<open>
  Claim C9 says that the level-counting revision and the token-stream revision return
  equal documents and fail on the same inputs, for every input and strictness. They do
  not. On four inputs, in this order: with \<^verbatim>\<open>Strict\<close> false and an \<^verbatim>\<open>ele\<close> text that does not
  parse the first succeeds and the second fails; in strict mode on an empty \<^verbatim>\<open>ele\<close> the
  first returns the zero elevation and the second fails on the empty text; on a comment
  before the text the first ignores the comment and the second fails; and on character
  data delivered in two tokens the first keeps the value of the last token while the
  second parses the concatenation.
\<close>

theorem Decode_lc_differs_counterexample:
  "Decode_lc exampleLib False
      [StartElement (Name nsGPX11 ''gpx'') [], StartElement (Name nsGPX11 ''trk'') [],
       StartElement (Name nsGPX11 ''trkseg'') [], StartElement (Name nsGPX11 ''trkpt'') [],
       StartElement (Name nsGPX11 ''ele'') [], CharData ''not-a-number'',
       EndElement (Name nsGPX11 ''ele''), EndElement (Name nsGPX11 ''trkpt''),
       EndElement (Name nsGPX11 ''trkseg''), EndElement (Name nsGPX11 ''trk''),
       EndElement (Name nsGPX11 ''gpx'')] EOF
    = Ok \<lparr>Version = [], Metadata = \<lparr>Metadata.Time = []\<rparr>,
        Tracks = [\<lparr>Segments = [\<lparr>Points = [\<lparr>Latitude = 0, Longitude = 0, Elevation = 0,
          Time = [], Extensions = []\<rparr>]\<rparr>]\<rparr>]\<rparr>
   \<and> Decode exampleLib False
      [StartElement (Name nsGPX11 ''gpx'') [], StartElement (Name nsGPX11 ''trk'') [],
       StartElement (Name nsGPX11 ''trkseg'') [], StartElement (Name nsGPX11 ''trkpt'') [],
       StartElement (Name nsGPX11 ''ele'') [], CharData ''not-a-number'',
       EndElement (Name nsGPX11 ''ele''), EndElement (Name nsGPX11 ''trkpt''),
       EndElement (Name nsGPX11 ''trkseg''), EndElement (Name nsGPX11 ''trk''),
       EndElement (Name nsGPX11 ''gpx'')] EOF
    = Fail (Error (NumError ''not-a-number''))
   \<and> Decode_lc exampleLib True
      [StartElement (Name nsGPX11 ''gpx'') [], StartElement (Name nsGPX11 ''trk'') [],
       StartElement (Name nsGPX11 ''trkseg'') [], StartElement (Name nsGPX11 ''trkpt'') [],
       StartElement (Name nsGPX11 ''ele'') [],
       EndElement (Name nsGPX11 ''ele''), EndElement (Name nsGPX11 ''trkpt''),
       EndElement (Name nsGPX11 ''trkseg''), EndElement (Name nsGPX11 ''trk''),
       EndElement (Name nsGPX11 ''gpx'')] EOF
    = Ok \<lparr>Version = [], Metadata = \<lparr>Metadata.Time = []\<rparr>,
        Tracks = [\<lparr>Segments = [\<lparr>Points = [\<lparr>Latitude = 0, Longitude = 0, Elevation = 0,
          Time = [], Extensions = []\<rparr>]\<rparr>]\<rparr>]\<rparr>
   \<and> Decode exampleLib True
      [StartElement (Name nsGPX11 ''gpx'') [], StartElement (Name nsGPX11 ''trk'') [],
       StartElement (Name nsGPX11 ''trkseg'') [], StartElement (Name nsGPX11 ''trkpt'') [],
       StartElement (Name nsGPX11 ''ele'') [],
       EndElement (Name nsGPX11 ''ele''), EndElement (Name nsGPX11 ''trkpt''),
       EndElement (Name nsGPX11 ''trkseg''), EndElement (Name nsGPX11 ''trk''),
       EndElement (Name nsGPX11 ''gpx'')] EOF
    = Fail (Error (NumError []))
   \<and> Decode_lc exampleLib True
      [StartElement (Name nsGPX11 ''gpx'') [], StartElement (Name nsGPX11 ''trk'') [],
       StartElement (Name nsGPX11 ''trkseg'') [], StartElement (Name nsGPX11 ''trkpt'') [],
       StartElement (Name nsGPX11 ''ele'') [], Comment ''metres'', CharData ''350.5'',
       EndElement (Name nsGPX11 ''ele''), EndElement (Name nsGPX11 ''trkpt''),
       EndElement (Name nsGPX11 ''trkseg''), EndElement (Name nsGPX11 ''trk''),
       EndElement (Name nsGPX11 ''gpx'')] EOF
    = Ok \<lparr>Version = [], Metadata = \<lparr>Metadata.Time = []\<rparr>,
        Tracks = [\<lparr>Segments = [\<lparr>Points = [\<lparr>Latitude = 0, Longitude = 0,
          Elevation = 701 / 2, Time = [], Extensions = []\<rparr>]\<rparr>]\<rparr>]\<rparr>
   \<and> Decode exampleLib True
      [StartElement (Name nsGPX11 ''gpx'') [], StartElement (Name nsGPX11 ''trk'') [],
       StartElement (Name nsGPX11 ''trkseg'') [], StartElement (Name nsGPX11 ''trkpt'') [],
       StartElement (Name nsGPX11 ''ele'') [], Comment ''metres'', CharData ''350.5'',
       EndElement (Name nsGPX11 ''ele''), EndElement (Name nsGPX11 ''trkpt''),
       EndElement (Name nsGPX11 ''trkseg''), EndElement (Name nsGPX11 ''trk''),
       EndElement (Name nsGPX11 ''gpx'')] EOF
    = Fail (Error ErrUnexpectedElement)
   \<and> Decode_lc exampleLib True
      [StartElement (Name nsGPX11 ''gpx'') [], StartElement (Name nsGPX11 ''trk'') [],
       StartElement (Name nsGPX11 ''trkseg'') [], StartElement (Name nsGPX11 ''trkpt'') [],
       StartElement (Name nsGPX11 ''ele'') [], CharData ''35'', CharData ''0.5'',
       EndElement (Name nsGPX11 ''ele''), EndElement (Name nsGPX11 ''trkpt''),
       EndElement (Name nsGPX11 ''trkseg''), EndElement (Name nsGPX11 ''trk''),
       EndElement (Name nsGPX11 ''gpx'')] EOF
    = Ok \<lparr>Version = [], Metadata = \<lparr>Metadata.Time = []\<rparr>,
        Tracks = [\<lparr>Segments = [\<lparr>Points = [\<lparr>Latitude = 0, Longitude = 0,
          Elevation = 1 / 2, Time = [], Extensions = []\<rparr>]\<rparr>]\<rparr>]\<rparr>
   \<and> Decode exampleLib True
      [StartElement (Name nsGPX11 ''gpx'') [], StartElement (Name nsGPX11 ''trk'') [],
       StartElement (Name nsGPX11 ''trkseg'') [], StartElement (Name nsGPX11 ''trkpt'') [],
       StartElement (Name nsGPX11 ''ele'') [], CharData ''35'', CharData ''0.5'',
       EndElement (Name nsGPX11 ''ele''), EndElement (Name nsGPX11 ''trkpt''),
       EndElement (Name nsGPX11 ''trkseg''), EndElement (Name nsGPX11 ''trk''),
       EndElement (Name nsGPX11 ''gpx'')] EOF
    = Ok \<lparr>Version = [], Metadata = \<lparr>Metadata.Time = []\<rparr>,
        Tracks = [\<lparr>Segments = [\<lparr>Points = [\<lparr>Latitude = 0, Longitude = 0,
          Elevation = 701 / 2, Time = [], Extensions = []\<rparr>]\<rparr>]\<rparr>]\<rparr>"
  by (simp add: example_defs example_lc_defs)

text \<open>
  Claim C9, amended: on a well-formed input in which every leaf that the decoder reads
  holds exactly one character-data token and nothing else, and in strict mode or when
  every such text parses, the two revisions agree: both fail, or both return the same
  document. (When both fail the error values may differ: the level-counting revision
  wraps a parse error.)
\<close>

theorem Decode_lc_agrees_with_Decode:
  assumes "\<forall>tok \<in> set pre. \<not> isStartElement tok"
    and "list_all (gpxLeaves L strict) cs"
  shows "sameOutcome (Decode_lc L strict (pre @ tokensOf (Element n as cs) @ rest) e)
    (Decode L strict (pre @ tokensOf (Element n as cs) @ rest) e)"
  using Decode_lc_element [OF assms] by (simp only: Decode_element [OF assms(1)])

theorem Decode_lc_agrees_with_Decode_witness:
  "list_all (gpxLeaves exampleLib True)
      [Element (Name nsGPX11 ''metadata'') []
         [Element (Name nsGPX11 ''time'') [] [Text ''2015-12-13T18:35:18Z'']],
       Element (Name nsGPX11 ''trk'') []
         [Element (Name nsGPX11 ''name'') [] [Text ''Running''],
          Element (Name nsGPX11 ''trkseg'') []
            [Element (Name nsGPX11 ''trkpt'') [Attr (Name [] ''lat'') ''49.0'']
               [Element (Name nsGPX11 ''ele'') [] [Text ''350.5''],
                Element (Name nsGPX11 ''extensions'') [] [CommentNode ''c'']]]]]
   \<and> Decode exampleLib True
      [StartElement (Name nsGPX11 ''gpx'') [],
       StartElement (Name nsGPX11 ''metadata'') [],
       StartElement (Name nsGPX11 ''time'') [], CharData ''2015-12-13T18:35:18Z'',
       EndElement (Name nsGPX11 ''time''),
       EndElement (Name nsGPX11 ''metadata''),
       StartElement (Name nsGPX11 ''trk'') [],
       StartElement (Name nsGPX11 ''name'') [], CharData ''Running'',
       EndElement (Name nsGPX11 ''name''),
       StartElement (Name nsGPX11 ''trkseg'') [],
       StartElement (Name nsGPX11 ''trkpt'') [Attr (Name [] ''lat'') ''49.0''],
       StartElement (Name nsGPX11 ''ele'') [], CharData ''350.5'',
       EndElement (Name nsGPX11 ''ele''),
       StartElement (Name nsGPX11 ''extensions'') [], Comment ''c'',
       EndElement (Name nsGPX11 ''extensions''),
       EndElement (Name nsGPX11 ''trkpt''),
       EndElement (Name nsGPX11 ''trkseg''),
       EndElement (Name nsGPX11 ''trk''),
       EndElement (Name nsGPX11 ''gpx'')] EOF
    = Ok \<lparr>Version = [], Metadata = \<lparr>Metadata.Time = ''2015-12-13T18:35:18Z''\<rparr>,
        Tracks = [\<lparr>Segments = [\<lparr>Points = [\<lparr>Latitude = 49, Longitude = 0,
          Elevation = 701 / 2, Time = [], Extensions = [Comment ''c'']\<rparr>]\<rparr>]\<rparr>]\<rparr>
   \<and> Decode_lc exampleLib True
      [StartElement (Name nsGPX11 ''gpx'') [],
       StartElement (Name nsGPX11 ''metadata'') [],
       StartElement (Name nsGPX11 ''time'') [], CharData ''2015-12-13T18:35:18Z'',
       EndElement (Name nsGPX11 ''time''),
       EndElement (Name nsGPX11 ''metadata''),
       StartElement (Name nsGPX11 ''trk'') [],
       StartElement (Name nsGPX11 ''name'') [], CharData ''Running'',
       EndElement (Name nsGPX11 ''name''),
       StartElement (Name nsGPX11 ''trkseg'') [],
       StartElement (Name nsGPX11 ''trkpt'') [Attr (Name [] ''lat'') ''49.0''],
       StartElement (Name nsGPX11 ''ele'') [], CharData ''350.5'',
       EndElement (Name nsGPX11 ''ele''),
       StartElement (Name nsGPX11 ''extensions'') [], Comment ''c'',
       EndElement (Name nsGPX11 ''extensions''),
       EndElement (Name nsGPX11 ''trkpt''),
       EndElement (Name nsGPX11 ''trkseg''),
       EndElement (Name nsGPX11 ''trk''),
       EndElement (Name nsGPX11 ''gpx'')] EOF
    = Ok \<lparr>Version = [], Metadata = \<lparr>Metadata.Time = ''2015-12-13T18:35:18Z''\<rparr>,
        Tracks = [\<lparr>Segments = [\<lparr>Points = [\<lparr>Latitude = 49, Longitude = 0,
          Elevation = 701 / 2, Time = [], Extensions = [Comment ''c'']\<rparr>]\<rparr>]\<rparr>]\<rparr>"
proof -
  let ?cs = "[Element (Name nsGPX11 ''metadata'') []
         [Element (Name nsGPX11 ''time'') [] [Text ''2015-12-13T18:35:18Z'']],
       Element (Name nsGPX11 ''trk'') []
         [Element (Name nsGPX11 ''name'') [] [Text ''Running''],
          Element (Name nsGPX11 ''trkseg'') []
            [Element (Name nsGPX11 ''trkpt'') [Attr (Name [] ''lat'') ''49.0'']
               [Element (Name nsGPX11 ''ele'') [] [Text ''350.5''],
                Element (Name nsGPX11 ''extensions'') [] [CommentNode ''c'']]]]]"
  have h1: "\<forall>tok \<in> set ([] :: xml_Token list). \<not> isStartElement tok" by simp
  have h2: "list_all (gpxLeaves exampleLib True) ?cs" by simp
  have ts: "Decode exampleLib True
      ([] @ tokensOf (Element (Name nsGPX11 ''gpx'') [] ?cs) @ []) EOF
    = Ok \<lparr>Version = [], Metadata = \<lparr>Metadata.Time = ''2015-12-13T18:35:18Z''\<rparr>,
        Tracks = [\<lparr>Segments = [\<lparr>Points = [\<lparr>Latitude = 49, Longitude = 0,
          Elevation = 701 / 2, Time = [], Extensions = [Comment ''c'']\<rparr>]\<rparr>]\<rparr>]\<rparr>"
    by (simp add: example_defs)
  from Decode_lc_agrees_with_Decode [OF h1 h2, of "Name nsGPX11 ''gpx''" "[]" "[]" EOF]
  have "Decode_lc exampleLib True
      ([] @ tokensOf (Element (Name nsGPX11 ''gpx'') [] ?cs) @ []) EOF
    = Ok \<lparr>Version = [], Metadata = \<lparr>Metadata.Time = ''2015-12-13T18:35:18Z''\<rparr>,
        Tracks = [\<lparr>Segments = [\<lparr>Points = [\<lparr>Latitude = 49, Longitude = 0,
          Elevation = 701 / 2, Time = [], Extensions = [Comment ''c'']\<rparr>]\<rparr>]\<rparr>]\<rparr>"
    unfolding ts by (auto simp: sameOutcome_def split: result.splits)
  with ts h2 show ?thesis by simp
qed

section \<open>A nested element in a leaf\<close>

text \<open>
  The loops of the level-counting revision on a list of nodes followed by any tokens:
  either they fail inside the nodes, whatever follows, or they go on after the nodes with
  a loop variable that does not depend on what follows.
\<close>

lemma fst_propagate_Ok:
  "fst (case p of (Fail f, ts) \<Rightarrow> (Fail f, ts) | (Ok v, ts) \<Rightarrow> g v ts) = Ok r
    \<Longrightarrow> \<exists>v. fst p = Ok v"
  by (cases p; cases "fst p") auto

lemma prefix_step:
  assumes "(\<exists>f. \<forall>rest. fst (F rest) = Fail f)
      \<or> (\<exists>v. \<forall>rest. F rest = (Ok v, XMLDecoder rest e))"
    and "\<And>rest. G rest = (case F rest of (Fail f, ts) \<Rightarrow> (Fail f, ts) | (Ok v, ts) \<Rightarrow> K v ts)"
  shows "(\<exists>f. \<forall>rest. fst (G rest) = Fail f)
      \<or> (\<exists>v. \<forall>rest. G rest = K v (XMLDecoder rest e))"
  using assms(1)
proof
  assume "\<exists>f. \<forall>rest. fst (F rest) = Fail f"
  then obtain f where "\<And>rest. fst (F rest) = Fail f" by blast
  then have "fst (G rest) = Fail f" for rest by (simp add: assms(2) fst_propagate_Fail)
  then show ?thesis by blast
next
  assume "\<exists>v. \<forall>rest. F rest = (Ok v, XMLDecoder rest e)"
  then obtain v where "\<And>rest. F rest = (Ok v, XMLDecoder rest e)" by blast
  then have "G rest = K v (XMLDecoder rest e)" for rest by (simp add: assms(2))
  then show ?thesis by blast
qed

lemma prefix_nodes:
  fixes loop :: "'a \<Rightarrow> xml_Token list \<Rightarrow> 'b result \<times> tokener"
  assumes "\<And>acc c. (\<exists>f. \<forall>rest. fst (loop acc (tokensOf c @ rest)) = Fail f)
      \<or> (\<exists>acc'. \<forall>rest. loop acc (tokensOf c @ rest) = loop acc' rest)"
  shows "(\<exists>f. \<forall>rest. fst (loop acc (tokensOfList cs @ rest)) = Fail f)
      \<or> (\<exists>acc'. \<forall>rest. loop acc (tokensOfList cs @ rest) = loop acc' rest)"
proof (induction cs arbitrary: acc)
  case Nil
  show ?case by (intro disjI2 exI [of _ acc]) simp
next
  case (Cons c cs)
  from assms [of acc c] show ?case
  proof
    assume "\<exists>f. \<forall>rest. fst (loop acc (tokensOf c @ rest)) = Fail f"
    then obtain f where "\<And>rest. fst (loop acc (tokensOf c @ rest)) = Fail f" by blast
    then have "fst (loop acc (tokensOfList (c # cs) @ rest)) = Fail f" for rest by simp
    then show ?thesis by blast
  next
    assume "\<exists>acc'. \<forall>rest. loop acc (tokensOf c @ rest) = loop acc' rest"
    then obtain acc' where "\<And>rest. loop acc (tokensOf c @ rest) = loop acc' rest" by blast
    with Cons.IH [of acc'] show ?thesis by simp
  qed
qed

lemma consumeEle_lc_loop_children:
  "(\<exists>f. \<forall>rest. fst (consumeEle_lc_loop L strict v
        (XMLDecoder (tokensOfList cs @ EndElement m # rest) e)) = Fail f)
   \<or> (\<exists>w. \<forall>rest. consumeEle_lc_loop L strict v
        (XMLDecoder (tokensOfList cs @ EndElement m # rest) e) = (Ok w, XMLDecoder rest e))"
proof (induction cs arbitrary: v)
  case Nil
  show ?case by simp
next
  case (Cons c cs)
  show ?case
  proof (cases c)
    case (Element n as ds)
    then show ?thesis by simp
  next
    case (Text s)
    obtain w eo where "ParseFloat L s = (w, eo)" by (cases "ParseFloat L s")
    with Text Cons.IH [of w] show ?thesis by (cases eo) auto
  qed (use Cons.IH [of v] in simp_all)
qed

lemma consumeTime_lc_loop_children:
  "(\<exists>f. \<forall>rest. fst (consumeTime_lc_loop L strict v
        (XMLDecoder (tokensOfList cs @ EndElement m # rest) e)) = Fail f)
   \<or> (\<exists>w. \<forall>rest. consumeTime_lc_loop L strict v
        (XMLDecoder (tokensOfList cs @ EndElement m # rest) e) = (Ok w, XMLDecoder rest e))"
proof (induction cs arbitrary: v)
  case Nil
  show ?case by simp
next
  case (Cons c cs)
  show ?case
  proof (cases c)
    case (Element n as ds)
    then show ?thesis by simp
  next
    case (Text s)
    obtain w eo where "time_Parse L s = (w, eo)" by (cases "time_Parse L s")
    with Text Cons.IH [of w] show ?thesis by (cases eo) auto
  qed (use Cons.IH [of v] in simp_all)
qed

lemma consumePoint_lc_loop_node:
  "(\<exists>f. \<forall>rest. fst (consumePoint_lc_loop L strict 0 point
        (XMLDecoder (tokensOf c @ rest) e)) = Fail f)
   \<or> (\<exists>point'. \<forall>rest. consumePoint_lc_loop L strict 0 point
        (XMLDecoder (tokensOf c @ rest) e)
      = consumePoint_lc_loop L strict 0 point' (XMLDecoder rest e))"
proof -
  have known: ?thesis if "pointLeaves L strict c" and "pointChild L point c = Ok point'"
    for point'
    using consumePoint_lc_loop_node_Ok [OF that] by blast
  show ?thesis
  proof (cases c)
    case (Element n as cs)
    consider (ele) "Local n = ''ele''" | (time) "Local n \<noteq> ''ele''" "Local n = ''time''"
      | (other) "Local n \<noteq> ''ele''" "Local n \<noteq> ''time''"
      by blast
    then show ?thesis
    proof cases
      case ele
      have "(\<exists>f. \<forall>rest. fst (consumePoint_lc_loop L strict 0 point
            (XMLDecoder (tokensOf c @ rest) e)) = Fail f)
        \<or> (\<exists>v. \<forall>rest. consumePoint_lc_loop L strict 0 point
            (XMLDecoder (tokensOf c @ rest) e)
          = consumePoint_lc_loop L strict 0 (point\<lparr>Elevation := v\<rparr>) (XMLDecoder rest e))"
        by (rule prefix_step [where F = "\<lambda>rest. consumeEle_lc L strict (n, as)
              (XMLDecoder (tokensOfList cs @ EndElement n # rest) e)"])
           (simp_all add: consumeEle_lc_def consumeEle_lc_loop_children ele Element
              tokensOfList_def [symmetric])
      then show ?thesis by blast
    next
      case time
      have "(\<exists>f. \<forall>rest. fst (consumePoint_lc_loop L strict 0 point
            (XMLDecoder (tokensOf c @ rest) e)) = Fail f)
        \<or> (\<exists>v. \<forall>rest. consumePoint_lc_loop L strict 0 point
            (XMLDecoder (tokensOf c @ rest) e)
          = consumePoint_lc_loop L strict 0 (point\<lparr>Time := v\<rparr>) (XMLDecoder rest e))"
        by (rule prefix_step [where F = "\<lambda>rest. consumeTime_lc L strict (n, as)
              (XMLDecoder (tokensOfList cs @ EndElement n # rest) e)"])
           (simp_all add: consumeTime_lc_def consumeTime_lc_loop_children time Element
              tokensOfList_def [symmetric])
      then show ?thesis by blast
    next
      case other
      with Element show ?thesis
        by (intro known [of "if Local n = ''extensions''
              then point\<lparr>Extensions := tokensOfList cs\<rparr> else point"]) simp_all
    qed
  qed (intro known; simp)+
qed

lemma consumePoint_lc_loop_nodes:
  "(\<exists>f. \<forall>rest. fst (consumePoint_lc_loop L strict 0 point
        (XMLDecoder (tokensOfList cs @ rest) e)) = Fail f)
   \<or> (\<exists>point'. \<forall>rest. consumePoint_lc_loop L strict 0 point
        (XMLDecoder (tokensOfList cs @ rest) e)
      = consumePoint_lc_loop L strict 0 point' (XMLDecoder rest e))"
  by (rule prefix_nodes
      [where loop = "\<lambda>acc toks. consumePoint_lc_loop L strict 0 acc (XMLDecoder toks e)"])
     (rule consumePoint_lc_loop_node)

lemma consumePoint_lc_children:
  assumes "Local m = ''trkpt''"
  shows "(\<exists>f. \<forall>rest. fst (consumePoint_lc L strict se
        (XMLDecoder (tokensOfList cs @ EndElement m # rest) e)) = Fail f)
   \<or> (\<exists>v. \<forall>rest. consumePoint_lc L strict se
        (XMLDecoder (tokensOfList cs @ EndElement m # rest) e) = (Ok v, XMLDecoder rest e))"
proof (cases "consumePoint_attrs L strict (snd se) (Point0 L)")
  case (Fail f)
  then show ?thesis by (simp add: consumePoint_lc_def)
next
  case (Ok p0)
  from consumePoint_lc_loop_nodes [of L strict p0 cs e] show ?thesis
  proof
    assume "\<exists>f. \<forall>rest. fst (consumePoint_lc_loop L strict 0 p0
        (XMLDecoder (tokensOfList cs @ rest) e)) = Fail f"
    then obtain f where "\<And>rest. fst (consumePoint_lc_loop L strict 0 p0
        (XMLDecoder (tokensOfList cs @ rest) e)) = Fail f"
      by blast
    with Ok have "fst (consumePoint_lc L strict se
        (XMLDecoder (tokensOfList cs @ EndElement m # rest) e)) = Fail f" for rest
      by (simp add: consumePoint_lc_def)
    then show ?thesis by blast
  next
    assume "\<exists>point'. \<forall>rest. consumePoint_lc_loop L strict 0 p0
        (XMLDecoder (tokensOfList cs @ rest) e)
      = consumePoint_lc_loop L strict 0 point' (XMLDecoder rest e)"
    then obtain point' where "\<And>rest. consumePoint_lc_loop L strict 0 p0
        (XMLDecoder (tokensOfList cs @ rest) e)
      = consumePoint_lc_loop L strict 0 point' (XMLDecoder rest e)"
      by blast
    with Ok assms have "consumePoint_lc L strict se
        (XMLDecoder (tokensOfList cs @ EndElement m # rest) e)
      = (Ok point', XMLDecoder rest e)" for rest
      by (simp add: consumePoint_lc_def)
    then show ?thesis by blast
  qed
qed

lemma consumeSegment_lc_loop_node:
  "(\<exists>f. \<forall>rest. fst (consumeSegment_lc_loop L strict 0 seg
        (XMLDecoder (tokensOf c @ rest) e)) = Fail f)
   \<or> (\<exists>seg'. \<forall>rest. consumeSegment_lc_loop L strict 0 seg
        (XMLDecoder (tokensOf c @ rest) e)
      = consumeSegment_lc_loop L strict 0 seg' (XMLDecoder rest e))"
proof -
  have known: ?thesis if "segmentLeaves L strict c" and "segmentChild L strict seg c = Ok seg'"
    for seg'
    using consumeSegment_lc_loop_node_Ok [OF that] by blast
  show ?thesis
  proof (cases c)
    case (Element n as cs)
    consider (trkpt)  "Local n = ''trkpt''"
      | (other) "Local n \<noteq> ''trkpt''"
      by blast
    then show ?thesis
    proof cases
      case trkpt
      have "(\<exists>f. \<forall>rest. fst (consumeSegment_lc_loop L strict 0 seg
            (XMLDecoder (tokensOf c @ rest) e)) = Fail f)
        \<or> (\<exists>v. \<forall>rest. consumeSegment_lc_loop L strict 0 seg
            (XMLDecoder (tokensOf c @ rest) e)
          = consumeSegment_lc_loop L strict 0 (seg\<lparr>Points := Points seg @ [v]\<rparr>) (XMLDecoder rest e))"
        by (rule prefix_step [where F = "\<lambda>rest. consumePoint_lc L strict (n, as)
              (XMLDecoder (tokensOfList cs @ EndElement n # rest) e)"])
           (simp_all add: consumePoint_lc_children trkpt Element tokensOfList_def [symmetric])
      then show ?thesis by blast
    next
      case other
      with Element show ?thesis by (intro known [of seg]) simp_all
    qed
  qed (intro known; simp)+
qed

lemma consumeSegment_lc_loop_nodes:
  "(\<exists>f. \<forall>rest. fst (consumeSegment_lc_loop L strict 0 seg
        (XMLDecoder (tokensOfList cs @ rest) e)) = Fail f)
   \<or> (\<exists>seg'. \<forall>rest. consumeSegment_lc_loop L strict 0 seg
        (XMLDecoder (tokensOfList cs @ rest) e)
      = consumeSegment_lc_loop L strict 0 seg' (XMLDecoder rest e))"
  by (rule prefix_nodes
      [where loop = "\<lambda>acc toks. consumeSegment_lc_loop L strict 0 acc (XMLDecoder toks e)"])
     (rule consumeSegment_lc_loop_node)

lemma consumeSegment_lc_children:
  assumes "Local m = ''trkseg''"
  shows "(\<exists>f. \<forall>rest. fst (consumeSegment_lc L strict se
        (XMLDecoder (tokensOfList cs @ EndElement m # rest) e)) = Fail f)
   \<or> (\<exists>v. \<forall>rest. consumeSegment_lc L strict se
        (XMLDecoder (tokensOfList cs @ EndElement m # rest) e) = (Ok v, XMLDecoder rest e))"
  using consumeSegment_lc_loop_nodes [of L strict "Segment0" cs e]
proof
  assume "\<exists>f. \<forall>rest. fst (consumeSegment_lc_loop L strict 0 (Segment0)
      (XMLDecoder (tokensOfList cs @ rest) e)) = Fail f"
  then obtain f where "\<And>rest. fst (consumeSegment_lc_loop L strict 0 (Segment0)
      (XMLDecoder (tokensOfList cs @ rest) e)) = Fail f"
    by blast
  then have "fst (consumeSegment_lc L strict se
      (XMLDecoder (tokensOfList cs @ EndElement m # rest) e)) = Fail f" for rest
    by (simp add: consumeSegment_lc_def)
  then show ?thesis by blast
next
  assume "\<exists>acc'. \<forall>rest. consumeSegment_lc_loop L strict 0 (Segment0)
      (XMLDecoder (tokensOfList cs @ rest) e)
    = consumeSegment_lc_loop L strict 0 acc' (XMLDecoder rest e)"
  then obtain acc' where "\<And>rest. consumeSegment_lc_loop L strict 0 (Segment0)
      (XMLDecoder (tokensOfList cs @ rest) e)
    = consumeSegment_lc_loop L strict 0 acc' (XMLDecoder rest e)"
    by blast
  with assms have "consumeSegment_lc L strict se
      (XMLDecoder (tokensOfList cs @ EndElement m # rest) e)
    = (Ok acc', XMLDecoder rest e)" for rest
    by (simp add: consumeSegment_lc_def)
  then show ?thesis by blast
qed

lemma consumeTrack_lc_loop_node:
  "(\<exists>f. \<forall>rest. fst (consumeTrack_lc_loop L strict 0 track
        (XMLDecoder (tokensOf c @ rest) e)) = Fail f)
   \<or> (\<exists>track'. \<forall>rest. consumeTrack_lc_loop L strict 0 track
        (XMLDecoder (tokensOf c @ rest) e)
      = consumeTrack_lc_loop L strict 0 track' (XMLDecoder rest e))"
proof -
  have known: ?thesis if "trackLeaves L strict c" and "trackChild L strict track c = Ok track'"
    for track'
    using consumeTrack_lc_loop_node_Ok [OF that] by blast
  show ?thesis
  proof (cases c)
    case (Element n as cs)
    consider (trkseg)  "Local n = ''trkseg''"
      | (other) "Local n \<noteq> ''trkseg''"
      by blast
    then show ?thesis
    proof cases
      case trkseg
      have "(\<exists>f. \<forall>rest. fst (consumeTrack_lc_loop L strict 0 track
            (XMLDecoder (tokensOf c @ rest) e)) = Fail f)
        \<or> (\<exists>v. \<forall>rest. consumeTrack_lc_loop L strict 0 track
            (XMLDecoder (tokensOf c @ rest) e)
          = consumeTrack_lc_loop L strict 0 (track\<lparr>Segments := Segments track @ [v]\<rparr>) (XMLDecoder rest e))"
        by (rule prefix_step [where F = "\<lambda>rest. consumeSegment_lc L strict (n, as)
              (XMLDecoder (tokensOfList cs @ EndElement n # rest) e)"])
           (simp_all add: consumeSegment_lc_children trkseg Element tokensOfList_def [symmetric])
      then show ?thesis by blast
    next
      case other
      with Element show ?thesis by (intro known [of track]) simp_all
    qed
  qed (intro known; simp)+
qed

lemma consumeTrack_lc_loop_nodes:
  "(\<exists>f. \<forall>rest. fst (consumeTrack_lc_loop L strict 0 track
        (XMLDecoder (tokensOfList cs @ rest) e)) = Fail f)
   \<or> (\<exists>track'. \<forall>rest. consumeTrack_lc_loop L strict 0 track
        (XMLDecoder (tokensOfList cs @ rest) e)
      = consumeTrack_lc_loop L strict 0 track' (XMLDecoder rest e))"
  by (rule prefix_nodes
      [where loop = "\<lambda>acc toks. consumeTrack_lc_loop L strict 0 acc (XMLDecoder toks e)"])
     (rule consumeTrack_lc_loop_node)

lemma consumeTrack_lc_children:
  assumes "Local m = ''trk''"
  shows "(\<exists>f. \<forall>rest. fst (consumeTrack_lc L strict se
        (XMLDecoder (tokensOfList cs @ EndElement m # rest) e)) = Fail f)
   \<or> (\<exists>v. \<forall>rest. consumeTrack_lc L strict se
        (XMLDecoder (tokensOfList cs @ EndElement m # rest) e) = (Ok v, XMLDecoder rest e))"
  using consumeTrack_lc_loop_nodes [of L strict "Track0" cs e]
proof
  assume "\<exists>f. \<forall>rest. fst (consumeTrack_lc_loop L strict 0 (Track0)
      (XMLDecoder (tokensOfList cs @ rest) e)) = Fail f"
  then obtain f where "\<And>rest. fst (consumeTrack_lc_loop L strict 0 (Track0)
      (XMLDecoder (tokensOfList cs @ rest) e)) = Fail f"
    by blast
  then have "fst (consumeTrack_lc L strict se
      (XMLDecoder (tokensOfList cs @ EndElement m # rest) e)) = Fail f" for rest
    by (simp add: consumeTrack_lc_def)
  then show ?thesis by blast
next
  assume "\<exists>acc'. \<forall>rest. consumeTrack_lc_loop L strict 0 (Track0)
      (XMLDecoder (tokensOfList cs @ rest) e)
    = consumeTrack_lc_loop L strict 0 acc' (XMLDecoder rest e)"
  then obtain acc' where "\<And>rest. consumeTrack_lc_loop L strict 0 (Track0)
      (XMLDecoder (tokensOfList cs @ rest) e)
    = consumeTrack_lc_loop L strict 0 acc' (XMLDecoder rest e)"
    by blast
  with assms have "consumeTrack_lc L strict se
      (XMLDecoder (tokensOfList cs @ EndElement m # rest) e)
    = (Ok acc', XMLDecoder rest e)" for rest
    by (simp add: consumeTrack_lc_def)
  then show ?thesis by blast
qed

lemma consumeMetadata_lc_loop_node:
  "(\<exists>f. \<forall>rest. fst (consumeMetadata_lc_loop L strict 0 metadata
        (XMLDecoder (tokensOf c @ rest) e)) = Fail f)
   \<or> (\<exists>metadata'. \<forall>rest. consumeMetadata_lc_loop L strict 0 metadata
        (XMLDecoder (tokensOf c @ rest) e)
      = consumeMetadata_lc_loop L strict 0 metadata' (XMLDecoder rest e))"
proof -
  have known: ?thesis if "metadataLeaves L strict c" and "metadataChild L metadata c = Ok metadata'"
    for metadata'
    using consumeMetadata_lc_loop_node_Ok [OF that] by blast
  show ?thesis
  proof (cases c)
    case (Element n as cs)
    consider (time)  "Local n = ''time''"
      | (other) "Local n \<noteq> ''time''"
      by blast
    then show ?thesis
    proof cases
      case time
      have "(\<exists>f. \<forall>rest. fst (consumeMetadata_lc_loop L strict 0 metadata
            (XMLDecoder (tokensOf c @ rest) e)) = Fail f)
        \<or> (\<exists>v. \<forall>rest. consumeMetadata_lc_loop L strict 0 metadata
            (XMLDecoder (tokensOf c @ rest) e)
          = consumeMetadata_lc_loop L strict 0 (metadata\<lparr>Metadata.Time := v\<rparr>) (XMLDecoder rest e))"
        by (rule prefix_step [where F = "\<lambda>rest. consumeTime_lc L strict (n, as)
              (XMLDecoder (tokensOfList cs @ EndElement n # rest) e)"])
           (simp_all add: consumeTime_lc_def consumeTime_lc_loop_children time Element tokensOfList_def [symmetric])
      then show ?thesis by blast
    next
      case other
      with Element show ?thesis by (intro known [of metadata]) simp_all
    qed
  qed (intro known; simp)+
qed

lemma consumeMetadata_lc_loop_nodes:
  "(\<exists>f. \<forall>rest. fst (consumeMetadata_lc_loop L strict 0 metadata
        (XMLDecoder (tokensOfList cs @ rest) e)) = Fail f)
   \<or> (\<exists>metadata'. \<forall>rest. consumeMetadata_lc_loop L strict 0 metadata
        (XMLDecoder (tokensOfList cs @ rest) e)
      = consumeMetadata_lc_loop L strict 0 metadata' (XMLDecoder rest e))"
  by (rule prefix_nodes
      [where loop = "\<lambda>acc toks. consumeMetadata_lc_loop L strict 0 acc (XMLDecoder toks e)"])
     (rule consumeMetadata_lc_loop_node)

lemma consumeMetadata_lc_children:
  assumes "Local m = ''metadata''"
  shows "(\<exists>f. \<forall>rest. fst (consumeMetadata_lc L strict se
        (XMLDecoder (tokensOfList cs @ EndElement m # rest) e)) = Fail f)
   \<or> (\<exists>v. \<forall>rest. consumeMetadata_lc L strict se
        (XMLDecoder (tokensOfList cs @ EndElement m # rest) e) = (Ok v, XMLDecoder rest e))"
  using consumeMetadata_lc_loop_nodes [of L strict "Metadata0 L" cs e]
proof
  assume "\<exists>f. \<forall>rest. fst (consumeMetadata_lc_loop L strict 0 (Metadata0 L)
      (XMLDecoder (tokensOfList cs @ rest) e)) = Fail f"
  then obtain f where "\<And>rest. fst (consumeMetadata_lc_loop L strict 0 (Metadata0 L)
      (XMLDecoder (tokensOfList cs @ rest) e)) = Fail f"
    by blast
  then have "fst (consumeMetadata_lc L strict se
      (XMLDecoder (tokensOfList cs @ EndElement m # rest) e)) = Fail f" for rest
    by (simp add: consumeMetadata_lc_def)
  then show ?thesis by blast
next
  assume "\<exists>acc'. \<forall>rest. consumeMetadata_lc_loop L strict 0 (Metadata0 L)
      (XMLDecoder (tokensOfList cs @ rest) e)
    = consumeMetadata_lc_loop L strict 0 acc' (XMLDecoder rest e)"
  then obtain acc' where "\<And>rest. consumeMetadata_lc_loop L strict 0 (Metadata0 L)
      (XMLDecoder (tokensOfList cs @ rest) e)
    = consumeMetadata_lc_loop L strict 0 acc' (XMLDecoder rest e)"
    by blast
  with assms have "consumeMetadata_lc L strict se
      (XMLDecoder (tokensOfList cs @ EndElement m # rest) e)
    = (Ok acc', XMLDecoder rest e)" for rest
    by (simp add: consumeMetadata_lc_def)
  then show ?thesis by blast
qed

lemma consumeGPX_lc_loop_node:
  "(\<exists>f. \<forall>rest. fst (consumeGPX_lc_loop L strict 0 doc
        (XMLDecoder (tokensOf c @ rest) e)) = Fail f)
   \<or> (\<exists>doc'. \<forall>rest. consumeGPX_lc_loop L strict 0 doc
        (XMLDecoder (tokensOf c @ rest) e)
      = consumeGPX_lc_loop L strict 0 doc' (XMLDecoder rest e))"
proof -
  have known: ?thesis if "gpxLeaves L strict c" and "gpxChild L strict doc c = Ok doc'"
    for doc'
    using consumeGPX_lc_loop_node_Ok [OF that] by blast
  show ?thesis
  proof (cases c)
    case (Element n as cs)
    consider (trk)  "Local n = ''trk''"
      | (metadata) "Local n \<noteq> ''trk''" "Local n = ''metadata''"
      | (other) "Local n \<noteq> ''trk''" "Local n \<noteq> ''metadata''"
      by blast
    then show ?thesis
    proof cases
      case trk
      have "(\<exists>f. \<forall>rest. fst (consumeGPX_lc_loop L strict 0 doc
            (XMLDecoder (tokensOf c @ rest) e)) = Fail f)
        \<or> (\<exists>v. \<forall>rest. consumeGPX_lc_loop L strict 0 doc
            (XMLDecoder (tokensOf c @ rest) e)
          = consumeGPX_lc_loop L strict 0 (doc\<lparr>Tracks := Tracks doc @ [v]\<rparr>) (XMLDecoder rest e))"
        by (rule prefix_step [where F = "\<lambda>rest. consumeTrack_lc L strict (n, as)
              (XMLDecoder (tokensOfList cs @ EndElement n # rest) e)"])
           (simp_all add: consumeTrack_lc_children trk Element tokensOfList_def [symmetric])
      then show ?thesis by blast
    next
      case metadata
      have "(\<exists>f. \<forall>rest. fst (consumeGPX_lc_loop L strict 0 doc
            (XMLDecoder (tokensOf c @ rest) e)) = Fail f)
        \<or> (\<exists>v. \<forall>rest. consumeGPX_lc_loop L strict 0 doc
            (XMLDecoder (tokensOf c @ rest) e)
          = consumeGPX_lc_loop L strict 0 (doc\<lparr>Metadata := v\<rparr>) (XMLDecoder rest e))"
        by (rule prefix_step [where F = "\<lambda>rest. consumeMetadata_lc L strict (n, as)
              (XMLDecoder (tokensOfList cs @ EndElement n # rest) e)"])
           (simp_all add: consumeMetadata_lc_children metadata Element tokensOfList_def [symmetric])
      then show ?thesis by blast
    next
      case other
      with Element show ?thesis by (intro known [of doc]) simp_all
    qed
  qed (intro known; simp)+
qed

lemma consumeGPX_lc_loop_nodes:
  "(\<exists>f. \<forall>rest. fst (consumeGPX_lc_loop L strict 0 doc
        (XMLDecoder (tokensOfList cs @ rest) e)) = Fail f)
   \<or> (\<exists>doc'. \<forall>rest. consumeGPX_lc_loop L strict 0 doc
        (XMLDecoder (tokensOfList cs @ rest) e)
      = consumeGPX_lc_loop L strict 0 doc' (XMLDecoder rest e))"
  by (rule prefix_nodes
      [where loop = "\<lambda>acc toks. consumeGPX_lc_loop L strict 0 acc (XMLDecoder toks e)"])
     (rule consumeGPX_lc_loop_node)

lemma consumeEle_lc_loop_nested:
  "\<forall>tok \<in> set mid. \<not> isEndElement tok \<Longrightarrow>
    fst (consumeEle_lc_loop L strict v (XMLDecoder (mid @ StartElement x xa # rest) e))
      = Fail (Error (case firstParseError (ParseFloat L) mid of
                       Some err \<Rightarrow> if strict then ErrInvalidEle err else ErrInvalidEleElement
                     | None \<Rightarrow> ErrInvalidEleElement))"
proof (induction mid arbitrary: v)
  case Nil
  show ?case by simp
next
  case (Cons tok mid)
  show ?case
  proof (cases tok)
    case (CharData s)
    obtain w eo where "ParseFloat L s = (w, eo)" by (cases "ParseFloat L s")
    with CharData Cons.IH [of w] Cons.prems show ?thesis
      by (cases eo) (auto split: option.splits)
  qed (use Cons.IH [of v] Cons.prems in simp_all)
qed

lemma consumeTime_lc_loop_nested:
  "\<forall>tok \<in> set mid. \<not> isEndElement tok \<Longrightarrow>
    fst (consumeTime_lc_loop L strict v (XMLDecoder (mid @ StartElement x xa # rest) e))
      = Fail (Error (case firstParseError (time_Parse L) mid of
                       Some err \<Rightarrow> if strict then ErrInvalidTime err else ErrInvalidTimeElement
                     | None \<Rightarrow> ErrInvalidTimeElement))"
proof (induction mid arbitrary: v)
  case Nil
  show ?case by simp
next
  case (Cons tok mid)
  show ?case
  proof (cases tok)
    case (CharData s)
    obtain w eo where "time_Parse L s = (w, eo)" by (cases "time_Parse L s")
    with CharData Cons.IH [of w] Cons.prems show ?thesis
      by (cases eo) (auto split: option.splits)
  qed (use Cons.IH [of v] Cons.prems in simp_all)
qed

lemma consumePoint_lc_loop_enter:
  "Local l = ''ele'' \<Longrightarrow>
    consumePoint_lc_loop L strict 0 point (XMLDecoder (StartElement l la # A) e)
      = (case consumeEle_lc L strict (l, la) (XMLDecoder A e) of
           (Fail f, ts) \<Rightarrow> (Fail f, ts)
         | (Ok v, ts) \<Rightarrow> consumePoint_lc_loop L strict 0 (point\<lparr>Elevation := v\<rparr>) ts)"
  "Local l = ''time'' \<Longrightarrow>
    consumePoint_lc_loop L strict 0 point (XMLDecoder (StartElement l la # A) e)
      = (case consumeTime_lc L strict (l, la) (XMLDecoder A e) of
           (Fail f, ts) \<Rightarrow> (Fail f, ts)
         | (Ok v, ts) \<Rightarrow> consumePoint_lc_loop L strict 0 (point\<lparr>Time := v\<rparr>) ts)"
  by simp_all

lemma consumeSegment_lc_loop_enter:
  "Local p = ''trkpt'' \<Longrightarrow>
    consumeSegment_lc_loop L strict 0 seg (XMLDecoder (StartElement p pa # A) e)
      = (case consumePoint_lc L strict (p, pa) (XMLDecoder A e) of
           (Fail f, ts) \<Rightarrow> (Fail f, ts)
         | (Ok v, ts) \<Rightarrow>
             consumeSegment_lc_loop L strict 0 (seg\<lparr>Points := Points seg @ [v]\<rparr>) ts)"
  by simp

lemma consumeTrack_lc_loop_enter:
  "Local s = ''trkseg'' \<Longrightarrow>
    consumeTrack_lc_loop L strict 0 track (XMLDecoder (StartElement s sa # A) e)
      = (case consumeSegment_lc L strict (s, sa) (XMLDecoder A e) of
           (Fail f, ts) \<Rightarrow> (Fail f, ts)
         | (Ok v, ts) \<Rightarrow>
             consumeTrack_lc_loop L strict 0 (track\<lparr>Segments := Segments track @ [v]\<rparr>) ts)"
  by simp

lemma consumeMetadata_lc_loop_enter:
  "Local l = ''time'' \<Longrightarrow>
    consumeMetadata_lc_loop L strict 0 metadata (XMLDecoder (StartElement l la # A) e)
      = (case consumeTime_lc L strict (l, la) (XMLDecoder A e) of
           (Fail f, ts) \<Rightarrow> (Fail f, ts)
         | (Ok v, ts) \<Rightarrow>
             consumeMetadata_lc_loop L strict 0 (metadata\<lparr>Metadata.Time := v\<rparr>) ts)"
  by simp

lemma consumeGPX_lc_loop_enter:
  "Local t = ''trk'' \<Longrightarrow>
    consumeGPX_lc_loop L strict 0 doc (XMLDecoder (StartElement t ta # A) e)
      = (case consumeTrack_lc L strict (t, ta) (XMLDecoder A e) of
           (Fail f, ts) \<Rightarrow> (Fail f, ts)
         | (Ok v, ts) \<Rightarrow>
             consumeGPX_lc_loop L strict 0 (doc\<lparr>Tracks := Tracks doc @ [v]\<rparr>) ts)"
  "Local m = ''metadata'' \<Longrightarrow>
    consumeGPX_lc_loop L strict 0 doc (XMLDecoder (StartElement m ma # A) e)
      = (case consumeMetadata_lc L strict (m, ma) (XMLDecoder A e) of
           (Fail f, ts) \<Rightarrow> (Fail f, ts)
         | (Ok v, ts) \<Rightarrow> consumeGPX_lc_loop L strict 0 (doc\<lparr>Metadata := v\<rparr>) ts)"
  by auto

text \<open>
  A loop that returns a value on a list of nodes followed by some tokens has read the
  nodes and goes on after them, whatever follows.
\<close>

lemma prefix_Ok:
  fixes loop :: "'a \<Rightarrow> xml_Token list \<Rightarrow> 'b result \<times> tokener"
  assumes "(\<exists>f. \<forall>rest. fst (loop acc (P @ rest)) = Fail f)
      \<or> (\<exists>acc'. \<forall>rest. loop acc (P @ rest) = loop acc' rest)"
    and "fst (loop acc (P @ B)) = Ok r"
  obtains acc' where "\<And>rest. loop acc (P @ rest) = loop acc' rest"
  using assms by auto

lemma Decode_lc_path_point_Fail:
  assumes pre: "\<forall>tok \<in> set pre. \<not> isStartElement tok"
    and names: "Local t = ''trk''" "Local s = ''trkseg''" "Local p = ''trkpt''"
    and before: "Decode_lc L strict
        (pre @ StartElement g ga # tokensOfList gs @ StartElement t ta # tokensOfList ts
          @ StartElement s sa # tokensOfList ss @ StartElement p pa # tokensOfList ps
          @ [EndElement p, EndElement s, EndElement t, EndElement g]) e = Ok doc0"
    and inner: "\<And>point. fst (consumePoint_lc_loop L strict 0 point (XMLDecoder A e)) = Fail f"
  shows "Decode_lc L strict
        (pre @ StartElement g ga # tokensOfList gs @ StartElement t ta # tokensOfList ts
          @ StartElement s sa # tokensOfList ss @ StartElement p pa # tokensOfList ps @ A) e
      = Fail f"
proof -
  let ?d0 = "consumeGPX_attrs ga (Document0 L) :: ('a, 'b) Document"
  let ?C = "[EndElement p, EndElement s, EndElement t, EndElement g]"
  have g: "Local g = ''gpx''" "Space g = nsGPX11"
    using before by (auto simp: Decode_lc_def findGPX_prefix [OF pre] split: if_splits)
  have dec: "Decode_lc L strict (pre @ StartElement g ga # X) e
      = fst (consumeGPX_lc_loop L strict 0 ?d0 (XMLDecoder X e))" for X
    using g by (simp add: Decode_lc_def findGPX_prefix [OF pre] consumeGPX_lc_def)
  from before have b0: "fst (consumeGPX_lc_loop L strict 0 ?d0
      (XMLDecoder (tokensOfList gs @ StartElement t ta # tokensOfList ts
        @ StartElement s sa # tokensOfList ss @ StartElement p pa # tokensOfList ps @ ?C) e))
      = Ok doc0"
    by (simp add: dec)
  from consumeGPX_lc_loop_nodes [of L strict ?d0 gs e] b0
  obtain d1 where d1: "\<And>rest. consumeGPX_lc_loop L strict 0 ?d0
        (XMLDecoder (tokensOfList gs @ rest) e)
      = consumeGPX_lc_loop L strict 0 d1 (XMLDecoder rest e)"
    by (rule prefix_Ok
        [where loop = "\<lambda>acc toks. consumeGPX_lc_loop L strict 0 acc (XMLDecoder toks e)"]; blast)
  from b0 have "\<exists>v. fst (consumeTrack_lc L strict (t, ta)
      (XMLDecoder (tokensOfList ts @ StartElement s sa # tokensOfList ss
        @ StartElement p pa # tokensOfList ps @ ?C) e)) = Ok v"
    unfolding d1 consumeGPX_lc_loop_enter(1) [OF names(1)] by (rule fst_propagate_Ok)
  then obtain tr where b1: "fst (consumeTrack_lc L strict (t, ta)
      (XMLDecoder (tokensOfList ts @ StartElement s sa # tokensOfList ss
        @ StartElement p pa # tokensOfList ps @ ?C) e)) = Ok tr"
    by blast
  then have b1': "fst (consumeTrack_lc_loop L strict 0 Track0
      (XMLDecoder (tokensOfList ts @ StartElement s sa # tokensOfList ss
        @ StartElement p pa # tokensOfList ps @ ?C) e)) = Ok tr"
    by (simp add: consumeTrack_lc_def)
  from consumeTrack_lc_loop_nodes [of L strict Track0 ts e] b1'
  obtain t1 where t1: "\<And>rest. consumeTrack_lc_loop L strict 0 Track0
        (XMLDecoder (tokensOfList ts @ rest) e)
      = consumeTrack_lc_loop L strict 0 t1 (XMLDecoder rest e)"
    by (rule prefix_Ok
        [where loop = "\<lambda>acc toks. consumeTrack_lc_loop L strict 0 acc (XMLDecoder toks e)"]; blast)
  from b1' have "\<exists>v. fst (consumeSegment_lc L strict (s, sa)
      (XMLDecoder (tokensOfList ss @ StartElement p pa # tokensOfList ps @ ?C) e)) = Ok v"
    unfolding t1 consumeTrack_lc_loop_enter [OF names(2)] by (rule fst_propagate_Ok)
  then obtain sg where b2: "fst (consumeSegment_lc L strict (s, sa)
      (XMLDecoder (tokensOfList ss @ StartElement p pa # tokensOfList ps @ ?C) e)) = Ok sg"
    by blast
  then have b2': "fst (consumeSegment_lc_loop L strict 0 Segment0
      (XMLDecoder (tokensOfList ss @ StartElement p pa # tokensOfList ps @ ?C) e)) = Ok sg"
    by (simp add: consumeSegment_lc_def)
  from consumeSegment_lc_loop_nodes [of L strict Segment0 ss e] b2'
  obtain s1 where s1: "\<And>rest. consumeSegment_lc_loop L strict 0 Segment0
        (XMLDecoder (tokensOfList ss @ rest) e)
      = consumeSegment_lc_loop L strict 0 s1 (XMLDecoder rest e)"
    by (rule prefix_Ok
        [where loop = "\<lambda>acc toks. consumeSegment_lc_loop L strict 0 acc (XMLDecoder toks e)"]; blast)
  from b2' have "\<exists>v. fst (consumePoint_lc L strict (p, pa)
      (XMLDecoder (tokensOfList ps @ ?C) e)) = Ok v"
    unfolding s1 consumeSegment_lc_loop_enter [OF names(3)] by (rule fst_propagate_Ok)
  then obtain pt where b3: "fst (consumePoint_lc L strict (p, pa)
      (XMLDecoder (tokensOfList ps @ ?C) e)) = Ok pt"
    by blast
  then obtain p0 where p0: "consumePoint_attrs L strict pa (Point0 L) = Ok p0"
    and b3': "fst (consumePoint_lc_loop L strict 0 p0
      (XMLDecoder (tokensOfList ps @ ?C) e)) = Ok pt"
    by (auto simp: consumePoint_lc_def split: result.splits)
  from consumePoint_lc_loop_nodes [of L strict p0 ps e] b3'
  obtain p1 where p1: "\<And>rest. consumePoint_lc_loop L strict 0 p0
        (XMLDecoder (tokensOfList ps @ rest) e)
      = consumePoint_lc_loop L strict 0 p1 (XMLDecoder rest e)"
    by (rule prefix_Ok
        [where loop = "\<lambda>acc toks. consumePoint_lc_loop L strict 0 acc (XMLDecoder toks e)"]; blast)
  have "fst (consumePoint_lc L strict (p, pa) (XMLDecoder (tokensOfList ps @ A) e)) = Fail f"
    by (simp add: consumePoint_lc_def p0 p1 inner)
  then have "fst (consumeSegment_lc L strict (s, sa)
      (XMLDecoder (tokensOfList ss @ StartElement p pa # tokensOfList ps @ A) e)) = Fail f"
    unfolding consumeSegment_lc_def s1 consumeSegment_lc_loop_enter [OF names(3)]
    by (rule fst_propagate_Fail)
  then have "fst (consumeTrack_lc L strict (t, ta)
      (XMLDecoder (tokensOfList ts @ StartElement s sa # tokensOfList ss @ StartElement p pa
        # tokensOfList ps @ A) e)) = Fail f"
    unfolding consumeTrack_lc_def t1 consumeTrack_lc_loop_enter [OF names(2)]
    by (rule fst_propagate_Fail)
  then have "fst (consumeGPX_lc_loop L strict 0 ?d0
      (XMLDecoder (tokensOfList gs @ StartElement t ta # tokensOfList ts @ StartElement s sa
        # tokensOfList ss @ StartElement p pa # tokensOfList ps @ A) e)) = Fail f"
    unfolding d1 consumeGPX_lc_loop_enter(1) [OF names(1)]
    by (rule fst_propagate_Fail)
  then show ?thesis by (simp add: dec)
qed

lemma Decode_lc_path_metadata_Fail:
  assumes pre: "\<forall>tok \<in> set pre. \<not> isStartElement tok"
    and names: "Local m = ''metadata''"
    and before: "Decode_lc L strict
        (pre @ StartElement g ga # tokensOfList gs @ StartElement m ma # tokensOfList ms
          @ [EndElement m, EndElement g]) e = Ok doc0"
    and inner: "\<And>metadata. fst (consumeMetadata_lc_loop L strict 0 metadata (XMLDecoder A e))
        = Fail f"
  shows "Decode_lc L strict
        (pre @ StartElement g ga # tokensOfList gs @ StartElement m ma # tokensOfList ms @ A) e
      = Fail f"
proof -
  let ?d0 = "consumeGPX_attrs ga (Document0 L) :: ('a, 'b) Document"
  let ?C = "[EndElement m, EndElement g]"
  have g: "Local g = ''gpx''" "Space g = nsGPX11"
    using before by (auto simp: Decode_lc_def findGPX_prefix [OF pre] split: if_splits)
  have dec: "Decode_lc L strict (pre @ StartElement g ga # X) e
      = fst (consumeGPX_lc_loop L strict 0 ?d0 (XMLDecoder X e))" for X
    using g by (simp add: Decode_lc_def findGPX_prefix [OF pre] consumeGPX_lc_def)
  from before have b0: "fst (consumeGPX_lc_loop L strict 0 ?d0
      (XMLDecoder (tokensOfList gs @ StartElement m ma # tokensOfList ms @ ?C) e)) = Ok doc0"
    by (simp add: dec)
  from consumeGPX_lc_loop_nodes [of L strict ?d0 gs e] b0
  obtain d1 where d1: "\<And>rest. consumeGPX_lc_loop L strict 0 ?d0
        (XMLDecoder (tokensOfList gs @ rest) e)
      = consumeGPX_lc_loop L strict 0 d1 (XMLDecoder rest e)"
    by (rule prefix_Ok
        [where loop = "\<lambda>acc toks. consumeGPX_lc_loop L strict 0 acc (XMLDecoder toks e)"]; blast)
  from b0 have "\<exists>v. fst (consumeMetadata_lc L strict (m, ma)
      (XMLDecoder (tokensOfList ms @ ?C) e)) = Ok v"
    unfolding d1 consumeGPX_lc_loop_enter(2) [OF names] by (rule fst_propagate_Ok)
  then obtain md where b1: "fst (consumeMetadata_lc L strict (m, ma)
      (XMLDecoder (tokensOfList ms @ ?C) e)) = Ok md"
    by blast
  then have b1': "fst (consumeMetadata_lc_loop L strict 0 (Metadata0 L)
      (XMLDecoder (tokensOfList ms @ ?C) e)) = Ok md"
    by (simp add: consumeMetadata_lc_def)
  from consumeMetadata_lc_loop_nodes [of L strict "Metadata0 L" ms e] b1'
  obtain m1 where m1: "\<And>rest. consumeMetadata_lc_loop L strict 0 (Metadata0 L)
        (XMLDecoder (tokensOfList ms @ rest) e)
      = consumeMetadata_lc_loop L strict 0 m1 (XMLDecoder rest e)"
    by (rule prefix_Ok
        [where loop = "\<lambda>acc toks. consumeMetadata_lc_loop L strict 0 acc (XMLDecoder toks e)"]; blast)
  have "fst (consumeMetadata_lc L strict (m, ma) (XMLDecoder (tokensOfList ms @ A) e)) = Fail f"
    by (simp add: consumeMetadata_lc_def m1 inner)
  then have "fst (consumeGPX_lc_loop L strict 0 ?d0
      (XMLDecoder (tokensOfList gs @ StartElement m ma # tokensOfList ms @ A) e)) = Fail f"
    unfolding d1 consumeGPX_lc_loop_enter(2) [OF names]
    by (rule fst_propagate_Fail)
  then show ?thesis by (simp add: dec)
qed

text \<open>
  Claim C8: a start tag inside an \<^verbatim>\<open>ele\<close> or \<^verbatim>\<open>time\<close> leaf fails the whole decode, in strict and
  in lenient mode, in both revisions of the decoder. The leaf is a child of a \<^verbatim>\<open>trkpt\<close> in
  a \<^verbatim>\<open>trkseg\<close> in a \<^verbatim>\<open>trk\<close>, or the \<^verbatim>\<open>time\<close> of \<^verbatim>\<open>metadata\<close>; \<open>gs\<close>, \<open>ts\<close>, \<open>ss\<close>, \<open>ps\<close> and \<open>ms\<close> are
  the nodes before it at each level and \<open>mid\<close> what the leaf holds before the nested tag.
  That the decoder gets as far as the leaf is stated on the document cut off before the
  leaf and closed: it decodes without error. The strictness \<open>strict\<close> is arbitrary.

  The token-stream revision (\<^verbatim>\<open>Decode\<close>, the first two parts) fails with the error of
  \<^verbatim>\<open>consumeString\<close>: it parses the text of a leaf at the end tag only, which it does not
  reach. The level-counting revision (\<open>Decode_lc\<close>, the last three parts) fails with the
  error that \<^verbatim>\<open>consumeEle\<close> and \<^verbatim>\<open>consumeTime\<close> return on a start tag. These loops parse each
  piece of character data when they read it, so a strict decoder that finds a text that
  does not parse before the nested tag has failed already, with the error of that text,
  and does not read the tag; a lenient decoder goes on and fails at the tag.
\<close>

theorem Decode_nested_element_in_leaf:
  assumes "\<forall>tok \<in> set pre. \<not> isStartElement tok"
    and "\<forall>tok \<in> set mid. \<not> isEndElement tok"
  shows
    "(Local t = ''trk'' \<and> Local s = ''trkseg'' \<and> Local p = ''trkpt''
        \<and> (Local l = ''ele'' \<or> Local l = ''time'')
        \<and> Decode L strict
            (pre @ StartElement g ga # tokensOfList gs @ StartElement t ta # tokensOfList ts
              @ StartElement s sa # tokensOfList ss @ StartElement p pa # tokensOfList ps
              @ [EndElement p, EndElement s, EndElement t, EndElement g]) e = Ok doc0
      \<longrightarrow> Decode L strict
            (pre @ StartElement g ga # tokensOfList gs @ StartElement t ta # tokensOfList ts
              @ StartElement s sa # tokensOfList ss @ StartElement p pa # tokensOfList ps
              @ StartElement l la # mid @ StartElement x xa # rest) e
          = Fail (Error ErrUnexpectedElement))
     \<and> (Local m = ''metadata'' \<and> Local l = ''time''
        \<and> Decode L strict
            (pre @ StartElement g ga # tokensOfList gs @ StartElement m ma # tokensOfList ms
              @ [EndElement m, EndElement g]) e = Ok doc1
      \<longrightarrow> Decode L strict
            (pre @ StartElement g ga # tokensOfList gs @ StartElement m ma # tokensOfList ms
              @ StartElement l la # mid @ StartElement x xa # rest) e
          = Fail (Error ErrUnexpectedElement))
     \<and> (Local t = ''trk'' \<and> Local s = ''trkseg'' \<and> Local p = ''trkpt'' \<and> Local l = ''ele''
        \<and> Decode_lc L strict
            (pre @ StartElement g ga # tokensOfList gs @ StartElement t ta # tokensOfList ts
              @ StartElement s sa # tokensOfList ss @ StartElement p pa # tokensOfList ps
              @ [EndElement p, EndElement s, EndElement t, EndElement g]) e = Ok doc2
      \<longrightarrow> Decode_lc L strict
            (pre @ StartElement g ga # tokensOfList gs @ StartElement t ta # tokensOfList ts
              @ StartElement s sa # tokensOfList ss @ StartElement p pa # tokensOfList ps
              @ StartElement l la # mid @ StartElement x xa # rest) e
          = Fail (Error (case firstParseError (ParseFloat L) mid of
                           Some err \<Rightarrow> if strict then ErrInvalidEle err else ErrInvalidEleElement
                         | None \<Rightarrow> ErrInvalidEleElement)))
     \<and> (Local t = ''trk'' \<and> Local s = ''trkseg'' \<and> Local p = ''trkpt'' \<and> Local l = ''time''
        \<and> Decode_lc L strict
            (pre @ StartElement g ga # tokensOfList gs @ StartElement t ta # tokensOfList ts
              @ StartElement s sa # tokensOfList ss @ StartElement p pa # tokensOfList ps
              @ [EndElement p, EndElement s, EndElement t, EndElement g]) e = Ok doc3
      \<longrightarrow> Decode_lc L strict
            (pre @ StartElement g ga # tokensOfList gs @ StartElement t ta # tokensOfList ts
              @ StartElement s sa # tokensOfList ss @ StartElement p pa # tokensOfList ps
              @ StartElement l la # mid @ StartElement x xa # rest) e
          = Fail (Error (case firstParseError (time_Parse L) mid of
                           Some err \<Rightarrow> if strict then ErrInvalidTime err else ErrInvalidTimeElement
                         | None \<Rightarrow> ErrInvalidTimeElement)))
     \<and> (Local m = ''metadata'' \<and> Local l = ''time''
        \<and> Decode_lc L strict
            (pre @ StartElement g ga # tokensOfList gs @ StartElement m ma # tokensOfList ms
              @ [EndElement m, EndElement g]) e = Ok doc4
      \<longrightarrow> Decode_lc L strict
            (pre @ StartElement g ga # tokensOfList gs @ StartElement m ma # tokensOfList ms
              @ StartElement l la # mid @ StartElement x xa # rest) e
          = Fail (Error (case firstParseError (time_Parse L) mid of
                           Some err \<Rightarrow> if strict then ErrInvalidTime err else ErrInvalidTimeElement
                         | None \<Rightarrow> ErrInvalidTimeElement)))"
proof (intro conjI impI)
  assume a: "Local t = ''trk'' \<and> Local s = ''trkseg'' \<and> Local p = ''trkpt''
      \<and> (Local l = ''ele'' \<or> Local l = ''time'')
      \<and> Decode L strict
          (pre @ StartElement g ga # tokensOfList gs @ StartElement t ta # tokensOfList ts
            @ StartElement s sa # tokensOfList ss @ StartElement p pa # tokensOfList ps
            @ [EndElement p, EndElement s, EndElement t, EndElement g]) e = Ok doc0"
  have leaf: "fst (consumePoint_loop L point
      (XMLDecoder (StartElement l la # mid @ StartElement x xa # rest) e))
      = Fail (Error ErrUnexpectedElement)" for point
  proof (cases "Local l = ''ele''")
    case True
    then show ?thesis
      by (rule consumePoint_loop_enter_Fail(1)) (rule consumeFloat_nested [OF assms(2)])
  next
    case False
    with a have "Local l = ''time''" by simp
    then show ?thesis
      by (rule consumePoint_loop_enter_Fail(2)) (rule consumeTime_nested [OF assms(2)])
  qed
  from a show "Decode L strict
      (pre @ StartElement g ga # tokensOfList gs @ StartElement t ta # tokensOfList ts
        @ StartElement s sa # tokensOfList ss @ StartElement p pa # tokensOfList ps
        @ StartElement l la # mid @ StartElement x xa # rest) e
      = Fail (Error ErrUnexpectedElement)"
    by (intro Decode_path_point_Fail [OF assms(1) _ _ _ _ leaf]) simp_all
next
  assume a: "Local m = ''metadata'' \<and> Local l = ''time''
      \<and> Decode L strict
          (pre @ StartElement g ga # tokensOfList gs @ StartElement m ma # tokensOfList ms
            @ [EndElement m, EndElement g]) e = Ok doc1"
  then have "Local l = ''time''" by simp
  then have leaf: "fst (consumeMetadata_loop L metadata
      (XMLDecoder (StartElement l la # mid @ StartElement x xa # rest) e))
      = Fail (Error ErrUnexpectedElement)" for metadata
    by (rule consumeMetadata_loop_enter_Fail) (rule consumeTime_nested [OF assms(2)])
  from a show "Decode L strict
      (pre @ StartElement g ga # tokensOfList gs @ StartElement m ma # tokensOfList ms
        @ StartElement l la # mid @ StartElement x xa # rest) e
      = Fail (Error ErrUnexpectedElement)"
    by (intro Decode_path_metadata_Fail [OF assms(1) _ _ leaf]) simp_all
next
  assume a: "Local t = ''trk'' \<and> Local s = ''trkseg'' \<and> Local p = ''trkpt'' \<and> Local l = ''ele''
      \<and> Decode_lc L strict
          (pre @ StartElement g ga # tokensOfList gs @ StartElement t ta # tokensOfList ts
            @ StartElement s sa # tokensOfList ss @ StartElement p pa # tokensOfList ps
            @ [EndElement p, EndElement s, EndElement t, EndElement g]) e = Ok doc2"
  then have "Local l = ''ele''" by simp
  then have leaf: "fst (consumePoint_lc_loop L strict 0 point
      (XMLDecoder (StartElement l la # mid @ StartElement x xa # rest) e))
      = Fail (Error (case firstParseError (ParseFloat L) mid of
                       Some err \<Rightarrow> if strict then ErrInvalidEle err else ErrInvalidEleElement
                     | None \<Rightarrow> ErrInvalidEleElement))" for point
    unfolding consumePoint_lc_loop_enter(1) [OF \<open>Local l = ''ele''\<close>] consumeEle_lc_def
    by (intro fst_propagate_Fail consumeEle_lc_loop_nested [OF assms(2)])
  from a show "Decode_lc L strict
      (pre @ StartElement g ga # tokensOfList gs @ StartElement t ta # tokensOfList ts
        @ StartElement s sa # tokensOfList ss @ StartElement p pa # tokensOfList ps
        @ StartElement l la # mid @ StartElement x xa # rest) e
      = Fail (Error (case firstParseError (ParseFloat L) mid of
                       Some err \<Rightarrow> if strict then ErrInvalidEle err else ErrInvalidEleElement
                     | None \<Rightarrow> ErrInvalidEleElement))"
    by (intro Decode_lc_path_point_Fail [OF assms(1) _ _ _ _ leaf]) simp_all
next
  assume a: "Local t = ''trk'' \<and> Local s = ''trkseg'' \<and> Local p = ''trkpt'' \<and> Local l = ''time''
      \<and> Decode_lc L strict
          (pre @ StartElement g ga # tokensOfList gs @ StartElement t ta # tokensOfList ts
            @ StartElement s sa # tokensOfList ss @ StartElement p pa # tokensOfList ps
            @ [EndElement p, EndElement s, EndElement t, EndElement g]) e = Ok doc3"
  then have "Local l = ''time''" by simp
  then have leaf: "fst (consumePoint_lc_loop L strict 0 point
      (XMLDecoder (StartElement l la # mid @ StartElement x xa # rest) e))
      = Fail (Error (case firstParseError (time_Parse L) mid of
                       Some err \<Rightarrow> if strict then ErrInvalidTime err else ErrInvalidTimeElement
                     | None \<Rightarrow> ErrInvalidTimeElement))" for point
    unfolding consumePoint_lc_loop_enter(2) [OF \<open>Local l = ''time''\<close>] consumeTime_lc_def
    by (intro fst_propagate_Fail consumeTime_lc_loop_nested [OF assms(2)])
  from a show "Decode_lc L strict
      (pre @ StartElement g ga # tokensOfList gs @ StartElement t ta # tokensOfList ts
        @ StartElement s sa # tokensOfList ss @ StartElement p pa # tokensOfList ps
        @ StartElement l la # mid @ StartElement x xa # rest) e
      = Fail (Error (case firstParseError (time_Parse L) mid of
                       Some err \<Rightarrow> if strict then ErrInvalidTime err else ErrInvalidTimeElement
                     | None \<Rightarrow> ErrInvalidTimeElement))"
    by (intro Decode_lc_path_point_Fail [OF assms(1) _ _ _ _ leaf]) simp_all
next
  assume a: "Local m = ''metadata'' \<and> Local l = ''time''
      \<and> Decode_lc L strict
          (pre @ StartElement g ga # tokensOfList gs @ StartElement m ma # tokensOfList ms
            @ [EndElement m, EndElement g]) e = Ok doc4"
  then have "Local l = ''time''" by simp
  then have leaf: "fst (consumeMetadata_lc_loop L strict 0 metadata
      (XMLDecoder (StartElement l la # mid @ StartElement x xa # rest) e))
      = Fail (Error (case firstParseError (time_Parse L) mid of
                       Some err \<Rightarrow> if strict then ErrInvalidTime err else ErrInvalidTimeElement
                     | None \<Rightarrow> ErrInvalidTimeElement))" for metadata
    unfolding consumeMetadata_lc_loop_enter [OF \<open>Local l = ''time''\<close>] consumeTime_lc_def
    by (intro fst_propagate_Fail consumeTime_lc_loop_nested [OF assms(2)])
  from a show "Decode_lc L strict
      (pre @ StartElement g ga # tokensOfList gs @ StartElement m ma # tokensOfList ms
        @ StartElement l la # mid @ StartElement x xa # rest) e
      = Fail (Error (case firstParseError (time_Parse L) mid of
                       Some err \<Rightarrow> if strict then ErrInvalidTime err else ErrInvalidTimeElement
                     | None \<Rightarrow> ErrInvalidTimeElement))"
    by (intro Decode_lc_path_metadata_Fail [OF assms(1) _ _ leaf]) simp_all
qed

theorem Decode_nested_element_in_leaf_witness:
  "\<not> isStartElement (ProcInst ''xml'' ''version=1.0'')
   \<and> \<not> isEndElement (CharData ''abc'')
   \<and> Decode exampleLib False
       [ProcInst ''xml'' ''version=1.0'', StartElement (Name nsGPX11 ''gpx'') [],
       StartElement (Name nsGPX11 ''trk'') [], StartElement (Name nsGPX11 ''trkseg'') [],
       StartElement (Name nsGPX11 ''trkpt'') [], EndElement (Name nsGPX11 ''trkpt''),
       EndElement (Name nsGPX11 ''trkseg''), EndElement (Name nsGPX11 ''trk''),
       EndElement (Name nsGPX11 ''gpx'')] EOF
     = Ok \<lparr>Version = [], Metadata = \<lparr>Metadata.Time = []\<rparr>,
          Tracks = [\<lparr>Segments = [\<lparr>Points = [\<lparr>Latitude = 0, Longitude = 0, Elevation = 0,
            Time = [], Extensions = []\<rparr>]\<rparr>]\<rparr>]\<rparr>
   \<and> Decode_lc exampleLib False
       [ProcInst ''xml'' ''version=1.0'', StartElement (Name nsGPX11 ''gpx'') [],
       StartElement (Name nsGPX11 ''trk'') [], StartElement (Name nsGPX11 ''trkseg'') [],
       StartElement (Name nsGPX11 ''trkpt'') [], EndElement (Name nsGPX11 ''trkpt''),
       EndElement (Name nsGPX11 ''trkseg''), EndElement (Name nsGPX11 ''trk''),
       EndElement (Name nsGPX11 ''gpx'')] EOF
     = Ok \<lparr>Version = [], Metadata = \<lparr>Metadata.Time = []\<rparr>,
          Tracks = [\<lparr>Segments = [\<lparr>Points = [\<lparr>Latitude = 0, Longitude = 0, Elevation = 0,
            Time = [], Extensions = []\<rparr>]\<rparr>]\<rparr>]\<rparr>
   \<and> Decode_lc exampleLib True
       [ProcInst ''xml'' ''version=1.0'', StartElement (Name nsGPX11 ''gpx'') [],
       StartElement (Name nsGPX11 ''trk'') [], StartElement (Name nsGPX11 ''trkseg'') [],
       StartElement (Name nsGPX11 ''trkpt'') [], EndElement (Name nsGPX11 ''trkpt''),
       EndElement (Name nsGPX11 ''trkseg''), EndElement (Name nsGPX11 ''trk''),
       EndElement (Name nsGPX11 ''gpx'')] EOF
     = Ok \<lparr>Version = [], Metadata = \<lparr>Metadata.Time = []\<rparr>,
          Tracks = [\<lparr>Segments = [\<lparr>Points = [\<lparr>Latitude = 0, Longitude = 0, Elevation = 0,
            Time = [], Extensions = []\<rparr>]\<rparr>]\<rparr>]\<rparr>
   \<and> Decode exampleLib False
       [ProcInst ''xml'' ''version=1.0'', StartElement (Name nsGPX11 ''gpx'') [],
       StartElement (Name nsGPX11 ''metadata'') [],
       EndElement (Name nsGPX11 ''metadata''), EndElement (Name nsGPX11 ''gpx'')] EOF
     = Ok \<lparr>Version = [], Metadata = \<lparr>Metadata.Time = []\<rparr>, Tracks = []\<rparr>
   \<and> Decode_lc exampleLib False
       [ProcInst ''xml'' ''version=1.0'', StartElement (Name nsGPX11 ''gpx'') [],
       StartElement (Name nsGPX11 ''metadata'') [],
       EndElement (Name nsGPX11 ''metadata''), EndElement (Name nsGPX11 ''gpx'')] EOF
     = Ok \<lparr>Version = [], Metadata = \<lparr>Metadata.Time = []\<rparr>, Tracks = []\<rparr>
   \<and> Decode exampleLib False
       [ProcInst ''xml'' ''version=1.0'', StartElement (Name nsGPX11 ''gpx'') [],
       StartElement (Name nsGPX11 ''trk'') [], StartElement (Name nsGPX11 ''trkseg'') [],
       StartElement (Name nsGPX11 ''trkpt'') [], StartElement (Name nsGPX11 ''ele'') [],
       CharData ''abc'', StartElement (Name nsGPX11 ''b'') [],
       EndElement (Name nsGPX11 ''b''), EndElement (Name nsGPX11 ''ele''),
       EndElement (Name nsGPX11 ''trkpt''), EndElement (Name nsGPX11 ''trkseg''),
       EndElement (Name nsGPX11 ''trk''), EndElement (Name nsGPX11 ''gpx'')] EOF
     = Fail (Error ErrUnexpectedElement)
   \<and> Decode_lc exampleLib False
       [ProcInst ''xml'' ''version=1.0'', StartElement (Name nsGPX11 ''gpx'') [],
       StartElement (Name nsGPX11 ''trk'') [], StartElement (Name nsGPX11 ''trkseg'') [],
       StartElement (Name nsGPX11 ''trkpt'') [], StartElement (Name nsGPX11 ''ele'') [],
       CharData ''abc'', StartElement (Name nsGPX11 ''b'') [],
       EndElement (Name nsGPX11 ''b''), EndElement (Name nsGPX11 ''ele''),
       EndElement (Name nsGPX11 ''trkpt''), EndElement (Name nsGPX11 ''trkseg''),
       EndElement (Name nsGPX11 ''trk''), EndElement (Name nsGPX11 ''gpx'')] EOF
     = Fail (Error ErrInvalidEleElement)
   \<and> Decode_lc exampleLib True
       [ProcInst ''xml'' ''version=1.0'', StartElement (Name nsGPX11 ''gpx'') [],
       StartElement (Name nsGPX11 ''trk'') [], StartElement (Name nsGPX11 ''trkseg'') [],
       StartElement (Name nsGPX11 ''trkpt'') [], StartElement (Name nsGPX11 ''ele'') [],
       CharData ''abc'', StartElement (Name nsGPX11 ''b'') [],
       EndElement (Name nsGPX11 ''b''), EndElement (Name nsGPX11 ''ele''),
       EndElement (Name nsGPX11 ''trkpt''), EndElement (Name nsGPX11 ''trkseg''),
       EndElement (Name nsGPX11 ''trk''), EndElement (Name nsGPX11 ''gpx'')] EOF
     = Fail (Error (ErrInvalidEle (NumError ''abc'')))
   \<and> Decode exampleLib False
       [ProcInst ''xml'' ''version=1.0'', StartElement (Name nsGPX11 ''gpx'') [],
       StartElement (Name nsGPX11 ''trk'') [], StartElement (Name nsGPX11 ''trkseg'') [],
       StartElement (Name nsGPX11 ''trkpt'') [], StartElement (Name nsGPX11 ''time'') [],
       CharData ''abc'', StartElement (Name nsGPX11 ''b'') [],
       EndElement (Name nsGPX11 ''b''), EndElement (Name nsGPX11 ''time''),
       EndElement (Name nsGPX11 ''trkpt''), EndElement (Name nsGPX11 ''trkseg''),
       EndElement (Name nsGPX11 ''trk''), EndElement (Name nsGPX11 ''gpx'')] EOF
     = Fail (Error ErrUnexpectedElement)
   \<and> Decode_lc exampleLib False
       [ProcInst ''xml'' ''version=1.0'', StartElement (Name nsGPX11 ''gpx'') [],
       StartElement (Name nsGPX11 ''trk'') [], StartElement (Name nsGPX11 ''trkseg'') [],
       StartElement (Name nsGPX11 ''trkpt'') [], StartElement (Name nsGPX11 ''time'') [],
       CharData ''abc'', StartElement (Name nsGPX11 ''b'') [],
       EndElement (Name nsGPX11 ''b''), EndElement (Name nsGPX11 ''time''),
       EndElement (Name nsGPX11 ''trkpt''), EndElement (Name nsGPX11 ''trkseg''),
       EndElement (Name nsGPX11 ''trk''), EndElement (Name nsGPX11 ''gpx'')] EOF
     = Fail (Error ErrInvalidTimeElement)
   \<and> Decode exampleLib False
       [ProcInst ''xml'' ''version=1.0'', StartElement (Name nsGPX11 ''gpx'') [],
       StartElement (Name nsGPX11 ''metadata'') [],
       StartElement (Name nsGPX11 ''time'') [], CharData ''abc'',
       StartElement (Name nsGPX11 ''b'') [], EndElement (Name nsGPX11 ''b''),
       EndElement (Name nsGPX11 ''time''), EndElement (Name nsGPX11 ''metadata''),
       EndElement (Name nsGPX11 ''gpx'')] EOF
     = Fail (Error ErrUnexpectedElement)
   \<and> Decode_lc exampleLib False
       [ProcInst ''xml'' ''version=1.0'', StartElement (Name nsGPX11 ''gpx'') [],
       StartElement (Name nsGPX11 ''metadata'') [],
       StartElement (Name nsGPX11 ''time'') [], CharData ''abc'',
       StartElement (Name nsGPX11 ''b'') [], EndElement (Name nsGPX11 ''b''),
       EndElement (Name nsGPX11 ''time''), EndElement (Name nsGPX11 ''metadata''),
       EndElement (Name nsGPX11 ''gpx'')] EOF
     = Fail (Error ErrInvalidTimeElement)"
proof -
  have h1: "\<forall>tok \<in> set [ProcInst ''xml'' ''version=1.0'']. \<not> isStartElement tok" by simp
  have h2: "\<forall>tok \<in> set [CharData ''abc'']. \<not> isEndElement tok" by simp
  have cP_B: "Decode exampleLib False
       [ProcInst ''xml'' ''version=1.0'', StartElement (Name nsGPX11 ''gpx'') [],
       StartElement (Name nsGPX11 ''trk'') [], StartElement (Name nsGPX11 ''trkseg'') [],
       StartElement (Name nsGPX11 ''trkpt'') [], EndElement (Name nsGPX11 ''trkpt''),
       EndElement (Name nsGPX11 ''trkseg''), EndElement (Name nsGPX11 ''trk''),
       EndElement (Name nsGPX11 ''gpx'')] EOF
     = Ok \<lparr>Version = [], Metadata = \<lparr>Metadata.Time = []\<rparr>,
          Tracks = [\<lparr>Segments = [\<lparr>Points = [\<lparr>Latitude = 0, Longitude = 0, Elevation = 0,
            Time = [], Extensions = []\<rparr>]\<rparr>]\<rparr>]\<rparr>"
    by (simp add: example_defs)
  have cP_lcF: "Decode_lc exampleLib False
       [ProcInst ''xml'' ''version=1.0'', StartElement (Name nsGPX11 ''gpx'') [],
       StartElement (Name nsGPX11 ''trk'') [], StartElement (Name nsGPX11 ''trkseg'') [],
       StartElement (Name nsGPX11 ''trkpt'') [], EndElement (Name nsGPX11 ''trkpt''),
       EndElement (Name nsGPX11 ''trkseg''), EndElement (Name nsGPX11 ''trk''),
       EndElement (Name nsGPX11 ''gpx'')] EOF
     = Ok \<lparr>Version = [], Metadata = \<lparr>Metadata.Time = []\<rparr>,
          Tracks = [\<lparr>Segments = [\<lparr>Points = [\<lparr>Latitude = 0, Longitude = 0, Elevation = 0,
            Time = [], Extensions = []\<rparr>]\<rparr>]\<rparr>]\<rparr>"
    by (simp add: example_defs example_lc_defs)
  have cP_lcT: "Decode_lc exampleLib True
       [ProcInst ''xml'' ''version=1.0'', StartElement (Name nsGPX11 ''gpx'') [],
       StartElement (Name nsGPX11 ''trk'') [], StartElement (Name nsGPX11 ''trkseg'') [],
       StartElement (Name nsGPX11 ''trkpt'') [], EndElement (Name nsGPX11 ''trkpt''),
       EndElement (Name nsGPX11 ''trkseg''), EndElement (Name nsGPX11 ''trk''),
       EndElement (Name nsGPX11 ''gpx'')] EOF
     = Ok \<lparr>Version = [], Metadata = \<lparr>Metadata.Time = []\<rparr>,
          Tracks = [\<lparr>Segments = [\<lparr>Points = [\<lparr>Latitude = 0, Longitude = 0, Elevation = 0,
            Time = [], Extensions = []\<rparr>]\<rparr>]\<rparr>]\<rparr>"
    by (simp add: example_defs example_lc_defs)
  have cM_B: "Decode exampleLib False
       [ProcInst ''xml'' ''version=1.0'', StartElement (Name nsGPX11 ''gpx'') [],
       StartElement (Name nsGPX11 ''metadata'') [],
       EndElement (Name nsGPX11 ''metadata''), EndElement (Name nsGPX11 ''gpx'')] EOF
     = Ok \<lparr>Version = [], Metadata = \<lparr>Metadata.Time = []\<rparr>, Tracks = []\<rparr>"
    by (simp add: example_defs)
  have cM_lc: "Decode_lc exampleLib False
       [ProcInst ''xml'' ''version=1.0'', StartElement (Name nsGPX11 ''gpx'') [],
       StartElement (Name nsGPX11 ''metadata'') [],
       EndElement (Name nsGPX11 ''metadata''), EndElement (Name nsGPX11 ''gpx'')] EOF
     = Ok \<lparr>Version = [], Metadata = \<lparr>Metadata.Time = []\<rparr>, Tracks = []\<rparr>"
    by (simp add: example_defs example_lc_defs)
  from Decode_nested_element_in_leaf [where L = exampleLib and strict = False and e = EOF
        and pre = "[ProcInst ''xml'' ''version=1.0'']" and mid = "[CharData ''abc'']"
        and g = "Name nsGPX11 ''gpx''" and ga = "[]" and gs = "[]"
        and t = "Name nsGPX11 ''trk''" and ta = "[]" and ts = "[]"
        and s = "Name nsGPX11 ''trkseg''" and sa = "[]" and ss = "[]"
        and p = "Name nsGPX11 ''trkpt''" and pa = "[]" and ps = "[]"
        and m = "Name nsGPX11 ''metadata''" and ma = "[]" and ms = "[]"
        and l = "Name nsGPX11 ''ele''" and la = "[]" and x = "Name nsGPX11 ''b''" and xa = "[]"
        and rest = "[EndElement (Name nsGPX11 ''b''), EndElement (Name nsGPX11 ''ele''),
                 EndElement (Name nsGPX11 ''trkpt''), EndElement (Name nsGPX11 ''trkseg''),
                 EndElement (Name nsGPX11 ''trk''), EndElement (Name nsGPX11 ''gpx'')]",
        OF h1 h2, THEN conjunct1] cP_B
  have r1: "Decode exampleLib False
       [ProcInst ''xml'' ''version=1.0'', StartElement (Name nsGPX11 ''gpx'') [],
       StartElement (Name nsGPX11 ''trk'') [], StartElement (Name nsGPX11 ''trkseg'') [],
       StartElement (Name nsGPX11 ''trkpt'') [], StartElement (Name nsGPX11 ''ele'') [],
       CharData ''abc'', StartElement (Name nsGPX11 ''b'') [],
       EndElement (Name nsGPX11 ''b''), EndElement (Name nsGPX11 ''ele''),
       EndElement (Name nsGPX11 ''trkpt''), EndElement (Name nsGPX11 ''trkseg''),
       EndElement (Name nsGPX11 ''trk''), EndElement (Name nsGPX11 ''gpx'')] EOF
     = Fail (Error ErrUnexpectedElement)"
    by (simp add: exampleLib_def decimalFloat_def utcTime_def splitSign_def isDigit_def digitsVal_def)
  from Decode_nested_element_in_leaf [where L = exampleLib and strict = False and e = EOF
        and pre = "[ProcInst ''xml'' ''version=1.0'']" and mid = "[CharData ''abc'']"
        and g = "Name nsGPX11 ''gpx''" and ga = "[]" and gs = "[]"
        and t = "Name nsGPX11 ''trk''" and ta = "[]" and ts = "[]"
        and s = "Name nsGPX11 ''trkseg''" and sa = "[]" and ss = "[]"
        and p = "Name nsGPX11 ''trkpt''" and pa = "[]" and ps = "[]"
        and m = "Name nsGPX11 ''metadata''" and ma = "[]" and ms = "[]"
        and l = "Name nsGPX11 ''ele''" and la = "[]" and x = "Name nsGPX11 ''b''" and xa = "[]"
        and rest = "[EndElement (Name nsGPX11 ''b''), EndElement (Name nsGPX11 ''ele''),
                 EndElement (Name nsGPX11 ''trkpt''), EndElement (Name nsGPX11 ''trkseg''),
                 EndElement (Name nsGPX11 ''trk''), EndElement (Name nsGPX11 ''gpx'')]",
        OF h1 h2, THEN conjunct2, THEN conjunct2, THEN conjunct1] cP_lcF
  have r2: "Decode_lc exampleLib False
       [ProcInst ''xml'' ''version=1.0'', StartElement (Name nsGPX11 ''gpx'') [],
       StartElement (Name nsGPX11 ''trk'') [], StartElement (Name nsGPX11 ''trkseg'') [],
       StartElement (Name nsGPX11 ''trkpt'') [], StartElement (Name nsGPX11 ''ele'') [],
       CharData ''abc'', StartElement (Name nsGPX11 ''b'') [],
       EndElement (Name nsGPX11 ''b''), EndElement (Name nsGPX11 ''ele''),
       EndElement (Name nsGPX11 ''trkpt''), EndElement (Name nsGPX11 ''trkseg''),
       EndElement (Name nsGPX11 ''trk''), EndElement (Name nsGPX11 ''gpx'')] EOF
     = Fail (Error ErrInvalidEleElement)"
    by (simp add: exampleLib_def decimalFloat_def utcTime_def splitSign_def isDigit_def digitsVal_def)
  from Decode_nested_element_in_leaf [where L = exampleLib and strict = True and e = EOF
        and pre = "[ProcInst ''xml'' ''version=1.0'']" and mid = "[CharData ''abc'']"
        and g = "Name nsGPX11 ''gpx''" and ga = "[]" and gs = "[]"
        and t = "Name nsGPX11 ''trk''" and ta = "[]" and ts = "[]"
        and s = "Name nsGPX11 ''trkseg''" and sa = "[]" and ss = "[]"
        and p = "Name nsGPX11 ''trkpt''" and pa = "[]" and ps = "[]"
        and m = "Name nsGPX11 ''metadata''" and ma = "[]" and ms = "[]"
        and l = "Name nsGPX11 ''ele''" and la = "[]" and x = "Name nsGPX11 ''b''" and xa = "[]"
        and rest = "[EndElement (Name nsGPX11 ''b''), EndElement (Name nsGPX11 ''ele''),
                 EndElement (Name nsGPX11 ''trkpt''), EndElement (Name nsGPX11 ''trkseg''),
                 EndElement (Name nsGPX11 ''trk''), EndElement (Name nsGPX11 ''gpx'')]",
        OF h1 h2, THEN conjunct2, THEN conjunct2, THEN conjunct1] cP_lcT
  have r3: "Decode_lc exampleLib True
       [ProcInst ''xml'' ''version=1.0'', StartElement (Name nsGPX11 ''gpx'') [],
       StartElement (Name nsGPX11 ''trk'') [], StartElement (Name nsGPX11 ''trkseg'') [],
       StartElement (Name nsGPX11 ''trkpt'') [], StartElement (Name nsGPX11 ''ele'') [],
       CharData ''abc'', StartElement (Name nsGPX11 ''b'') [],
       EndElement (Name nsGPX11 ''b''), EndElement (Name nsGPX11 ''ele''),
       EndElement (Name nsGPX11 ''trkpt''), EndElement (Name nsGPX11 ''trkseg''),
       EndElement (Name nsGPX11 ''trk''), EndElement (Name nsGPX11 ''gpx'')] EOF
     = Fail (Error (ErrInvalidEle (NumError ''abc'')))"
    by (simp add: exampleLib_def decimalFloat_def utcTime_def splitSign_def isDigit_def digitsVal_def)
  from Decode_nested_element_in_leaf [where L = exampleLib and strict = False and e = EOF
        and pre = "[ProcInst ''xml'' ''version=1.0'']" and mid = "[CharData ''abc'']"
        and g = "Name nsGPX11 ''gpx''" and ga = "[]" and gs = "[]"
        and t = "Name nsGPX11 ''trk''" and ta = "[]" and ts = "[]"
        and s = "Name nsGPX11 ''trkseg''" and sa = "[]" and ss = "[]"
        and p = "Name nsGPX11 ''trkpt''" and pa = "[]" and ps = "[]"
        and m = "Name nsGPX11 ''metadata''" and ma = "[]" and ms = "[]"
        and l = "Name nsGPX11 ''time''" and la = "[]" and x = "Name nsGPX11 ''b''" and xa = "[]"
        and rest = "[EndElement (Name nsGPX11 ''b''), EndElement (Name nsGPX11 ''time''),
                 EndElement (Name nsGPX11 ''trkpt''), EndElement (Name nsGPX11 ''trkseg''),
                 EndElement (Name nsGPX11 ''trk''), EndElement (Name nsGPX11 ''gpx'')]",
        OF h1 h2, THEN conjunct1] cP_B
  have r4: "Decode exampleLib False
       [ProcInst ''xml'' ''version=1.0'', StartElement (Name nsGPX11 ''gpx'') [],
       StartElement (Name nsGPX11 ''trk'') [], StartElement (Name nsGPX11 ''trkseg'') [],
       StartElement (Name nsGPX11 ''trkpt'') [], StartElement (Name nsGPX11 ''time'') [],
       CharData ''abc'', StartElement (Name nsGPX11 ''b'') [],
       EndElement (Name nsGPX11 ''b''), EndElement (Name nsGPX11 ''time''),
       EndElement (Name nsGPX11 ''trkpt''), EndElement (Name nsGPX11 ''trkseg''),
       EndElement (Name nsGPX11 ''trk''), EndElement (Name nsGPX11 ''gpx'')] EOF
     = Fail (Error ErrUnexpectedElement)"
    by (simp add: exampleLib_def decimalFloat_def utcTime_def splitSign_def isDigit_def digitsVal_def)
  from Decode_nested_element_in_leaf [where L = exampleLib and strict = False and e = EOF
        and pre = "[ProcInst ''xml'' ''version=1.0'']" and mid = "[CharData ''abc'']"
        and g = "Name nsGPX11 ''gpx''" and ga = "[]" and gs = "[]"
        and t = "Name nsGPX11 ''trk''" and ta = "[]" and ts = "[]"
        and s = "Name nsGPX11 ''trkseg''" and sa = "[]" and ss = "[]"
        and p = "Name nsGPX11 ''trkpt''" and pa = "[]" and ps = "[]"
        and m = "Name nsGPX11 ''metadata''" and ma = "[]" and ms = "[]"
        and l = "Name nsGPX11 ''time''" and la = "[]" and x = "Name nsGPX11 ''b''" and xa = "[]"
        and rest = "[EndElement (Name nsGPX11 ''b''), EndElement (Name nsGPX11 ''time''),
                 EndElement (Name nsGPX11 ''trkpt''), EndElement (Name nsGPX11 ''trkseg''),
                 EndElement (Name nsGPX11 ''trk''), EndElement (Name nsGPX11 ''gpx'')]",
        OF h1 h2, THEN conjunct2, THEN conjunct2, THEN conjunct2, THEN conjunct1] cP_lcF
  have r5: "Decode_lc exampleLib False
       [ProcInst ''xml'' ''version=1.0'', StartElement (Name nsGPX11 ''gpx'') [],
       StartElement (Name nsGPX11 ''trk'') [], StartElement (Name nsGPX11 ''trkseg'') [],
       StartElement (Name nsGPX11 ''trkpt'') [], StartElement (Name nsGPX11 ''time'') [],
       CharData ''abc'', StartElement (Name nsGPX11 ''b'') [],
       EndElement (Name nsGPX11 ''b''), EndElement (Name nsGPX11 ''time''),
       EndElement (Name nsGPX11 ''trkpt''), EndElement (Name nsGPX11 ''trkseg''),
       EndElement (Name nsGPX11 ''trk''), EndElement (Name nsGPX11 ''gpx'')] EOF
     = Fail (Error ErrInvalidTimeElement)"
    by (simp add: exampleLib_def decimalFloat_def utcTime_def splitSign_def isDigit_def digitsVal_def)
  from Decode_nested_element_in_leaf [where L = exampleLib and strict = False and e = EOF
        and pre = "[ProcInst ''xml'' ''version=1.0'']" and mid = "[CharData ''abc'']"
        and g = "Name nsGPX11 ''gpx''" and ga = "[]" and gs = "[]"
        and t = "Name nsGPX11 ''trk''" and ta = "[]" and ts = "[]"
        and s = "Name nsGPX11 ''trkseg''" and sa = "[]" and ss = "[]"
        and p = "Name nsGPX11 ''trkpt''" and pa = "[]" and ps = "[]"
        and m = "Name nsGPX11 ''metadata''" and ma = "[]" and ms = "[]"
        and l = "Name nsGPX11 ''time''" and la = "[]" and x = "Name nsGPX11 ''b''" and xa = "[]"
        and rest = "[EndElement (Name nsGPX11 ''b''), EndElement (Name nsGPX11 ''time''),
                 EndElement (Name nsGPX11 ''metadata''), EndElement (Name nsGPX11 ''gpx'')]",
        OF h1 h2, THEN conjunct2, THEN conjunct1] cM_B
  have r6: "Decode exampleLib False
       [ProcInst ''xml'' ''version=1.0'', StartElement (Name nsGPX11 ''gpx'') [],
       StartElement (Name nsGPX11 ''metadata'') [],
       StartElement (Name nsGPX11 ''time'') [], CharData ''abc'',
       StartElement (Name nsGPX11 ''b'') [], EndElement (Name nsGPX11 ''b''),
       EndElement (Name nsGPX11 ''time''), EndElement (Name nsGPX11 ''metadata''),
       EndElement (Name nsGPX11 ''gpx'')] EOF
     = Fail (Error ErrUnexpectedElement)"
    by (simp add: exampleLib_def decimalFloat_def utcTime_def splitSign_def isDigit_def digitsVal_def)
  from Decode_nested_element_in_leaf [where L = exampleLib and strict = False and e = EOF
        and pre = "[ProcInst ''xml'' ''version=1.0'']" and mid = "[CharData ''abc'']"
        and g = "Name nsGPX11 ''gpx''" and ga = "[]" and gs = "[]"
        and t = "Name nsGPX11 ''trk''" and ta = "[]" and ts = "[]"
        and s = "Name nsGPX11 ''trkseg''" and sa = "[]" and ss = "[]"
        and p = "Name nsGPX11 ''trkpt''" and pa = "[]" and ps = "[]"
        and m = "Name nsGPX11 ''metadata''" and ma = "[]" and ms = "[]"
        and l = "Name nsGPX11 ''time''" and la = "[]" and x = "Name nsGPX11 ''b''" and xa = "[]"
        and rest = "[EndElement (Name nsGPX11 ''b''), EndElement (Name nsGPX11 ''time''),
                 EndElement (Name nsGPX11 ''metadata''), EndElement (Name nsGPX11 ''gpx'')]",
        OF h1 h2, THEN conjunct2, THEN conjunct2, THEN conjunct2, THEN conjunct2] cM_lc
  have r7: "Decode_lc exampleLib False
       [ProcInst ''xml'' ''version=1.0'', StartElement (Name nsGPX11 ''gpx'') [],
       StartElement (Name nsGPX11 ''metadata'') [],
       StartElement (Name nsGPX11 ''time'') [], CharData ''abc'',
       StartElement (Name nsGPX11 ''b'') [], EndElement (Name nsGPX11 ''b''),
       EndElement (Name nsGPX11 ''time''), EndElement (Name nsGPX11 ''metadata''),
       EndElement (Name nsGPX11 ''gpx'')] EOF
     = Fail (Error ErrInvalidTimeElement)"
    by (simp add: exampleLib_def decimalFloat_def utcTime_def splitSign_def isDigit_def digitsVal_def)
  from cP_B cP_lcF cP_lcT cM_B cM_lc r1 r2 r3 r4 r5 r6 r7 show ?thesis by simp
qed

end
